(* ===== verification/Prelude.thy ===== *)
theory Prelude
  imports Main
    "HOL-Library.Char_ord"
    "HOL-Library.List_Lexorder"
    "HOL-Library.Product_Lexorder"
    "HOL-Library.Multiset"
begin

section \<open>Shared vocabulary of the development\<close>

text \<open>
  What the component theories share: the scalar JSON values a Python
  dictionary of the program holds (\<open>pyval\<close>), dictionaries as partial maps
  (\<open>pydict\<close>), the fragments of Python's built-ins the sources use on them
  (\<open>int(...)\<close>, \<open>str(...)\<close>, truth value, \<open>or\<close>, \<open>==\<close>, \<open>str.split\<close>,
  \<open>str.strip\<close>), JSON files, errors, and two generic interfaces as locales: a
  budget with a non-negative cost per entry, and a machine whose operations
  keep an invariant. Strings are lists of characters with a code below 256;
  the program's keys, labels, timestamps and identifiers are ASCII.
\<close>

named_theorems py_simps \<open>evaluation of the Python built-ins\<close>
named_theorems acct_simps \<open>sums over records\<close>

subsection \<open>Errors and results\<close>

datatype py_error = ValueError string | TypeError string | RuntimeError string | KeyError string

type_synonym 'a result = "py_error + 'a"

text \<open>Sequencing: the first error ends the computation.\<close>

definition rbind :: "'a result \<Rightarrow> ('a \<Rightarrow> 'b result) \<Rightarrow> 'b result" where
  "rbind r f = (case r of Inl e \<Rightarrow> Inl e | Inr x \<Rightarrow> f x)"

lemma rbind_Inr [simp]: "rbind (Inr x) f = f x"
  by (simp add: rbind_def)

lemma rbind_Inl [simp]: "rbind (Inl e) f = Inl e"
  by (simp add: rbind_def)

lemma rbind_eq_Inr: "(rbind r f = Inr y) = (\<exists>x. r = Inr x \<and> f x = Inr y)"
  by (auto simp: rbind_def split: sum.splits)

text \<open>A loop that appends one answer per element and stops at the first error.\<close>

fun rtraverse :: "('a \<Rightarrow> 'b result) \<Rightarrow> 'a list \<Rightarrow> 'b list result" where
  "rtraverse f [] = Inr []"
| "rtraverse f (x # xs) = rbind (f x) (\<lambda>y. rbind (rtraverse f xs) (\<lambda>ys. Inr (y # ys)))"

lemma rtraverse_Inr: "rtraverse f xs = Inr ys \<Longrightarrow> list_all2 (\<lambda>x y. f x = Inr y) xs ys"
  by (induction xs arbitrary: ys) (auto simp: rbind_eq_Inr)

subsection \<open>Scalar values and dictionaries\<close>

datatype pyval = PNone | PBool bool | PInt int | PStr string

type_synonym pydict = "string \<rightharpoonup> pyval"

text \<open>\<open>d.get(k)\<close>: a missing key reads as \<open>None\<close>.\<close>

definition dget :: "pydict \<Rightarrow> string \<Rightarrow> pyval" where
  "dget d k = (case d k of Some v \<Rightarrow> v | None \<Rightarrow> PNone)"

text \<open>\<open>k in d\<close>.\<close>

definition has_key :: "pydict \<Rightarrow> string \<Rightarrow> bool" where
  "has_key d k = (d k \<noteq> None)"

text \<open>\<open>d.update(kvs)\<close>, with the pairs in the order they are written.\<close>

definition dupdate :: "pydict \<Rightarrow> (string \<times> pyval) list \<Rightarrow> pydict" where
  "dupdate d kvs = foldl (\<lambda>m (k, v). m(k \<mapsto> v)) d kvs"

text \<open>\<open>for k in ks: d.pop(k, None)\<close>.\<close>

definition dpop :: "pydict \<Rightarrow> string list \<Rightarrow> pydict" where
  "dpop d ks = foldl (\<lambda>m k. m(k := None)) d ks"

lemma dget_upd [simp]: "dget (d(k \<mapsto> v)) k' = (if k' = k then v else dget d k')"
  by (simp add: dget_def)

lemma dget_del [simp]: "dget (d(k := None)) k' = (if k' = k then PNone else dget d k')"
  by (simp add: dget_def)

lemma has_key_upd [simp]: "has_key (d(k \<mapsto> v)) k' = (k' = k \<or> has_key d k')"
  by (simp add: has_key_def)

lemma has_key_del [simp]: "has_key (d(k := None)) k' = (k' \<noteq> k \<and> has_key d k')"
  by (simp add: has_key_def)

lemma dupdate_simps [simp]:
  "dupdate d [] = d"
  "dupdate d ((k, v) # kvs) = dupdate (d(k \<mapsto> v)) kvs"
  by (simp_all add: dupdate_def)

lemma dpop_simps [simp]:
  "dpop d [] = d"
  "dpop d (k # ks) = dpop (d(k := None)) ks"
  by (simp_all add: dpop_def)

lemma dupdate_append [simp]: "dupdate d (kvs @ lvs) = dupdate (dupdate d kvs) lvs"
  by (simp add: dupdate_def)

lemma dget_dupdate_other: "k \<notin> fst ` set kvs \<Longrightarrow> dget (dupdate d kvs) k = dget d k"
  by (induction kvs arbitrary: d) auto

lemma has_key_dupdate: "has_key (dupdate d kvs) k = (has_key d k \<or> k \<in> fst ` set kvs)"
proof (induction kvs arbitrary: d)
  case (Cons kv kvs)
  obtain a b where "kv = (a, b)" by (cases kv)
  then show ?case by (simp only: dupdate_simps Cons.IH has_key_upd) auto
qed simp

lemma dupdate_other: "k \<notin> fst ` set kvs \<Longrightarrow> dupdate d kvs k = d k"
  by (induction kvs arbitrary: d) auto

lemma dget_dpop: "dget (dpop d ks) k = (if k \<in> set ks then PNone else dget d k)"
  by (induction ks arbitrary: d) auto

lemma has_key_dpop: "has_key (dpop d ks) k = (k \<notin> set ks \<and> has_key d k)"
  by (induction ks arbitrary: d) auto

subsection \<open>Truth value, equality, conversions\<close>

text \<open>The truth value of a scalar, \<open>bool(v)\<close>.\<close>

fun truthy :: "pyval \<Rightarrow> bool" where
  "truthy PNone = False"
| "truthy (PBool b) = b"
| "truthy (PInt i) = (i \<noteq> 0)"
| "truthy (PStr s) = (s \<noteq> [])"

text \<open>\<open>a or b\<close>.\<close>

definition py_or :: "pyval \<Rightarrow> pyval \<Rightarrow> pyval" where
  "py_or a b = (if truthy a then a else b)"

text \<open>\<open>a == b\<close>: booleans compare as the integers 0 and 1.\<close>

fun py_num :: "pyval \<Rightarrow> int option" where
  "py_num (PBool b) = Some (if b then 1 else 0)"
| "py_num (PInt i) = Some i"
| "py_num v = None"

definition py_eq :: "pyval \<Rightarrow> pyval \<Rightarrow> bool" where
  "py_eq a b = (a = b \<or> (py_num a \<noteq> None \<and> py_num a = py_num b))"

lemma py_eq_refl [simp]: "py_eq a a"
  by (simp add: py_eq_def)

lemma py_eq_str [simp]:
  "py_eq a (PStr s) = (a = PStr s)"
  "py_eq (PStr s) a = (a = PStr s)"
  by (auto simp: py_eq_def)

text \<open>Characters: Python's whitespace and the decimal digits.\<close>

definition is_space :: "char \<Rightarrow> bool" where
  "is_space c = (let n = (of_char c :: nat) in
     (9 \<le> n \<and> n \<le> 13) \<or> (28 \<le> n \<and> n \<le> 32) \<or> n = 133 \<or> n = 160)"

definition is_digit :: "char \<Rightarrow> bool" where
  "is_digit c = (let n = (of_char c :: nat) in 48 \<le> n \<and> n \<le> 57)"

definition digit_val :: "char \<Rightarrow> nat" where
  "digit_val c = of_char c - 48"

definition digit_char :: "nat \<Rightarrow> char" where
  "digit_char n = char_of (48 + n)"

text \<open>\<open>str.strip()\<close> and \<open>str.split()\<close> without an argument.\<close>

definition strip :: "string \<Rightarrow> string" where
  "strip s = rev (dropWhile is_space (rev (dropWhile is_space s)))"

fun split_aux :: "string \<Rightarrow> string \<Rightarrow> string list" where
  "split_aux cur [] = (if cur = [] then [] else [cur])"
| "split_aux cur (c # cs) =
     (if is_space c then (if cur = [] then split_aux [] cs else cur # split_aux [] cs)
      else split_aux (cur @ [c]) cs)"

definition split_ws :: "string \<Rightarrow> string list" where
  "split_ws s = split_aux [] s"

fun join :: "string \<Rightarrow> string list \<Rightarrow> string" where
  "join sep [] = []"
| "join sep [x] = x"
| "join sep (x # y # ys) = x @ sep @ join sep (y # ys)"

text \<open>\<open>" ".join(s.split())\<close>: the rendering every process start time is compared in.\<close>

definition squeeze :: "string \<Rightarrow> string" where
  "squeeze s = join '' '' (split_ws s)"

text \<open>\<open>str.endswith\<close>, \<open>str.startswith\<close> and, on ASCII, \<open>str.lower\<close> and \<open>str.isdigit\<close>.\<close>

definition endswith :: "string \<Rightarrow> string \<Rightarrow> bool" where
  "endswith s suf = (length suf \<le> length s \<and> drop (length s - length suf) s = suf)"

definition startswith :: "string \<Rightarrow> string \<Rightarrow> bool" where
  "startswith s pre = (take (length pre) s = pre)"

definition to_lower :: "char \<Rightarrow> char" where
  "to_lower c = (let n = (of_char c :: nat) in if 65 \<le> n \<and> n \<le> 90 then char_of (n + 32) else c)"

definition lower :: "string \<Rightarrow> string" where
  "lower s = map to_lower s"

definition isdigit :: "string \<Rightarrow> bool" where
  "isdigit s = (s \<noteq> [] \<and> list_all is_digit s)"

text \<open>\<open>int(text)\<close>: surrounding whitespace, a sign, decimal digits with single
  underscores between them; \<open>None\<close> is the \<open>ValueError\<close>.\<close>

fun parse_digits :: "int \<Rightarrow> bool \<Rightarrow> string \<Rightarrow> int option" where
  "parse_digits acc prev [] = (if prev then Some acc else None)"
| "parse_digits acc prev (c # cs) =
     (if is_digit c then parse_digits (acc * 10 + int (digit_val c)) True cs
      else if c = CHR ''_'' \<and> prev then parse_digits acc False cs
      else None)"

definition int_of_string :: "string \<Rightarrow> int option" where
  "int_of_string s = (case strip s of
     [] \<Rightarrow> None
   | c # cs \<Rightarrow>
       if c = CHR ''-'' then map_option uminus (parse_digits 0 False cs)
       else if c = CHR ''+'' then parse_digits 0 False cs
       else parse_digits 0 False (c # cs))"

text \<open>\<open>int(v)\<close> of a scalar; \<open>None\<close> is the \<open>TypeError\<close> or \<open>ValueError\<close>.\<close>

fun py_int :: "pyval \<Rightarrow> int option" where
  "py_int PNone = None"
| "py_int (PBool b) = Some (if b then 1 else 0)"
| "py_int (PInt i) = Some i"
| "py_int (PStr s) = int_of_string s"

text \<open>\<open>str(v)\<close> of a scalar.\<close>

fun nat_str :: "nat \<Rightarrow> string" where
  "nat_str n = (if n < 10 then [digit_char n] else nat_str (n div 10) @ [digit_char (n mod 10)])"

declare nat_str.simps [simp del]

definition int_str :: "int \<Rightarrow> string" where
  "int_str i = (if i < 0 then CHR ''-'' # nat_str (nat (- i)) else nat_str (nat i))"

fun py_str :: "pyval \<Rightarrow> string" where
  "py_str PNone = ''None''"
| "py_str (PBool b) = (if b then ''True'' else ''False'')"
| "py_str (PInt i) = int_str i"
| "py_str (PStr s) = s"

text \<open>\<open>str(d.get(k) or "")\<close>, the reading of a text field the sources use everywhere.\<close>

definition text_field :: "pydict \<Rightarrow> string \<Rightarrow> string" where
  "text_field d k = py_str (py_or (dget d k) (PStr []))"

lemma set_map_filter: "set (List.map_filter f xs) = {y. \<exists>x \<in> set xs. f x = Some y}"
  by (induction xs) (auto split: option.splits)

text \<open>\<open>needle in text\<close> and \<open>text.split(sep)\<close> with a separator of one character.\<close>

fun contains :: "string \<Rightarrow> string \<Rightarrow> bool" where
  "contains needle [] = (needle = [])"
| "contains needle (c # cs) = (startswith (c # cs) needle \<or> contains needle cs)"

fun split_on :: "char \<Rightarrow> string \<Rightarrow> string list" where
  "split_on sep [] = [[]]"
| "split_on sep (c # cs) =
     (if c = sep then [] # split_on sep cs
      else (case split_on sep cs of w # ws \<Rightarrow> (c # w) # ws | [] \<Rightarrow> [[c]]))"

lemmas py_defs [py_simps] = dget_def has_key_def py_or_def py_eq_def text_field_def

subsection \<open>Round trips of the conversions\<close>

lemma of_char_digit_char: "n < 10 \<Longrightarrow> (of_char (digit_char n) :: nat) = 48 + n"
  by (simp add: digit_char_def take_bit_eq_mod)

lemma is_digit_digit_char [simp]: "n < 10 \<Longrightarrow> is_digit (digit_char n)"
  by (simp add: is_digit_def of_char_digit_char)

lemma digit_val_digit_char [simp]: "n < 10 \<Longrightarrow> digit_val (digit_char n) = n"
  by (simp add: digit_val_def of_char_digit_char)

lemma is_digit_not_space: "is_digit c \<Longrightarrow> \<not> is_space c"
  by (auto simp: is_digit_def is_space_def Let_def)

lemma nat_str_digits: "c \<in> set (nat_str n) \<Longrightarrow> is_digit c"
proof (induction n rule: nat_str.induct)
  case (1 n)
  then show ?case by (cases "n < 10") (auto simp: nat_str.simps [of n])
qed

lemma nat_str_nonempty [simp]: "nat_str n \<noteq> []"
  by (simp add: nat_str.simps [of n])

lemma parse_digits_append:
  assumes "\<forall>c \<in> set xs. is_digit c" and "xs \<noteq> []"
  shows "parse_digits acc prev (xs @ [d]) =
    (case parse_digits acc prev xs of
       None \<Rightarrow> None
     | Some v \<Rightarrow> parse_digits v True [d])"
  using assms
proof (induction xs arbitrary: acc prev)
  case (Cons x xs)
  show ?case
  proof (cases "xs = []")
    case True
    with Cons.prems show ?thesis by simp
  next
    case False
    with Cons.prems have "is_digit x" by simp
    moreover have "parse_digits a True (xs @ [d]) =
        (case parse_digits a True xs of None \<Rightarrow> None | Some v \<Rightarrow> parse_digits v True [d])" for a
      using Cons.IH [of a True] Cons.prems False by simp
    ultimately show ?thesis by (simp del: parse_digits.simps(2) add: parse_digits.simps(2) [of _ _ x])
  qed
qed simp

lemma parse_digits_nat_str: "parse_digits 0 False (nat_str n) = Some (int n)"
proof (induction n rule: nat_str.induct)
  case (1 n)
  show ?case
  proof (cases "n < 10")
    case True
    then show ?thesis by (simp add: nat_str.simps [of n])
  next
    case False
    have "int (n div 10) * 10 + int (n mod 10) = int n"
      by presburger
    with False 1 show ?thesis
      by (simp add: nat_str.simps [of n] parse_digits_append nat_str_digits)
  qed
qed

lemma dropWhile_none: "(\<And>c. c \<in> set s \<Longrightarrow> \<not> P c) \<Longrightarrow> dropWhile P s = s"
  by (cases s) auto

lemma strip_no_space: "(\<And>c. c \<in> set s \<Longrightarrow> \<not> is_space c) \<Longrightarrow> strip s = s"
  unfolding strip_def by (subst (1 2) dropWhile_none) auto

lemma int_of_string_nat_str: "int_of_string (nat_str n) = Some (int n)"
proof -
  have "strip (nat_str n) = nat_str n"
    by (rule strip_no_space) (auto dest: nat_str_digits is_digit_not_space)
  moreover obtain c cs where cs: "nat_str n = c # cs"
    by (cases "nat_str n") auto
  moreover have "is_digit c"
    using nat_str_digits [of c n] cs by simp
  moreover have "\<not> is_digit (CHR ''-'')" "\<not> is_digit (CHR ''+'')"
    by (simp_all add: is_digit_def)
  ultimately show ?thesis
    using parse_digits_nat_str [of n] by (auto simp: int_of_string_def)
qed

lemma int_of_string_int_str [simp]: "int_of_string (int_str i) = Some i"
proof (cases "i < 0")
  case True
  let ?m = "nat_str (nat (- i))"
  have "\<not> is_space c" if "c \<in> set (CHR ''-'' # ?m)" for c
  proof (cases "c = CHR ''-''")
    case True
    then show ?thesis by (simp add: is_space_def)
  next
    case False
    with that show ?thesis by (auto dest: nat_str_digits is_digit_not_space)
  qed
  then have "strip (CHR ''-'' # ?m) = CHR ''-'' # ?m"
    by (rule strip_no_space)
  with True show ?thesis
    by (simp add: int_of_string_def int_str_def parse_digits_nat_str)
next
  case False
  then show ?thesis by (simp add: int_str_def int_of_string_nat_str)
qed

lemma split_aux_word:
  "(\<And>c. c \<in> set w \<Longrightarrow> \<not> is_space c) \<Longrightarrow> split_aux cur (w @ s) = split_aux (cur @ w) s"
  by (induction w arbitrary: cur) auto

definition words_ok :: "string list \<Rightarrow> bool" where
  "words_ok ws = (\<forall>w \<in> set ws. w \<noteq> [] \<and> (\<forall>c \<in> set w. \<not> is_space c))"

lemma words_ok_simps [simp]:
  "words_ok []"
  "words_ok (w # ws) = ((w \<noteq> [] \<and> (\<forall>c \<in> set w. \<not> is_space c)) \<and> words_ok ws)"
  by (simp_all add: words_ok_def)

lemma split_aux_words_ok:
  "\<forall>c \<in> set cur. \<not> is_space c \<Longrightarrow> words_ok (split_aux cur s)"
proof (induction s arbitrary: cur)
  case (Cons c s)
  then show ?case by simp
qed simp

lemma split_ws_join: "words_ok ws \<Longrightarrow> split_ws (join '' '' ws) = ws"
proof (induction ws rule: induct_list012)
  case (2 w)
  then show ?case
    using split_aux_word [of w "[]" "[]"] by (simp add: split_ws_def)
next
  case (3 w v ws)
  have sp: "is_space (CHR '' '')" by (simp add: is_space_def)
  have "words_ok (v # ws)" "w \<noteq> []" "\<And>c. c \<in> set w \<Longrightarrow> \<not> is_space c"
    using 3 by simp_all
  with 3 sp show ?case
    using split_aux_word [of w "[]" "'' '' @ join '' '' (v # ws)"]
    by (simp add: split_ws_def)
qed (simp add: split_ws_def)

lemma squeeze_idem [simp]: "squeeze (squeeze s) = squeeze s"
  by (simp add: squeeze_def split_ws_join split_aux_words_ok split_ws_def [of s])

lemma split_aux_leading: "split_aux [] (dropWhile is_space s) = split_aux [] s"
  by (induction s) auto

lemma split_aux_trailing: "\<forall>c \<in> set ws. is_space c \<Longrightarrow> split_aux cur (s @ ws) = split_aux cur s"
proof (induction s arbitrary: cur)
  case Nil
  then show ?case
  proof (induction ws arbitrary: cur)
    case (Cons c ws)
    then have "split_aux [] ws = []" by fastforce
    with Cons.prems show ?case by auto
  qed simp
qed auto

lemma squeeze_strip [simp]: "squeeze (strip s) = squeeze s"
proof -
  let ?t = "dropWhile is_space s"
  have t: "?t = strip s @ rev (takeWhile is_space (rev ?t))"
    unfolding strip_def by (metis rev_append rev_rev_ident takeWhile_dropWhile_id)
  have "split_aux [] s = split_aux [] ?t" by (simp add: split_aux_leading)
  also have "\<dots> = split_aux [] (strip s)"
    by (subst t) (rule split_aux_trailing, auto dest: set_takeWhileD)
  finally show ?thesis by (simp add: squeeze_def split_ws_def)
qed

lemma squeeze_Nil [simp]: "squeeze [] = []"
  by (simp add: squeeze_def split_ws_def)

subsection \<open>Sums over records\<close>

definition sum_over :: "('r \<Rightarrow> int) \<Rightarrow> 'r list \<Rightarrow> int" where
  "sum_over f rs = sum_list (map f rs)"

lemma sum_over_simps [simp]:
  "sum_over f [] = 0"
  "sum_over f (r # rs) = f r + sum_over f rs"
  "sum_over f (rs @ ss) = sum_over f rs + sum_over f ss"
  by (simp_all add: sum_over_def)

lemma sum_over_mset: "mset rs = mset ss \<Longrightarrow> sum_over f rs = sum_over f ss"
  by (metis mset_map sum_mset_sum_list sum_over_def)

lemma sum_over_cong: "(\<And>r. r \<in> set rs \<Longrightarrow> f r = g r) \<Longrightarrow> sum_over f rs = sum_over g rs"
  by (induction rs) auto

lemma sum_over_filter_if: "sum_over f (filter P rs) = sum_over (\<lambda>r. if P r then f r else 0) rs"
  by (induction rs) auto

lemma sum_over_partition:
  "sum_over f rs = sum_over f (filter P rs) + sum_over f (filter (\<lambda>r. \<not> P r) rs)"
  by (induction rs) auto

text \<open>
  The interface of one accounting axis. A provider gives the charge of a
  record on the axis and a set of records on which it is never negative; the
  client learns that dropping records never raises the total and that an
  admission checked against the limit keeps the total within it.
\<close>

locale budget =
  fixes cost :: "'r \<Rightarrow> int"
    and chargeable :: "'r \<Rightarrow> bool"
  assumes cost_nonneg: "chargeable r \<Longrightarrow> 0 \<le> cost r"
begin

lemma spent_nonneg: "\<forall>r \<in> set rs. chargeable r \<Longrightarrow> 0 \<le> sum_over cost rs"
  by (induction rs) (auto simp: cost_nonneg)

lemma spent_filter_le:
  "\<forall>r \<in> set rs. chargeable r \<Longrightarrow> sum_over cost (filter P rs) \<le> sum_over cost rs"
  by (induction rs) (auto simp: cost_nonneg add_increasing)

lemma spent_member_le:
  assumes "\<forall>r \<in> set rs. chargeable r" and "r \<in> set rs"
  shows "cost r \<le> sum_over cost rs"
proof -
  obtain xs ys where "rs = xs @ r # ys"
    using assms(2) by (meson split_list)
  with assms(1) show ?thesis
    using spent_nonneg [of xs] spent_nonneg [of ys] by auto
qed

lemma admit_within:
  "sum_over cost rs + cost r \<le> limit \<Longrightarrow> sum_over cost (rs @ [r]) \<le> limit"
  by simp

lemma drop_within:
  assumes "\<forall>r \<in> set rs. chargeable r" and "sum_over cost rs \<le> limit"
  shows "sum_over cost (filter P rs) \<le> limit"
  using spent_filter_le [OF assms(1), of P] assms(2) by linarith

end

text \<open>
  The interface of a component whose operations share an invariant: every
  operation that is issued legally in a state keeps it, so every sequence of
  them does.
\<close>

primrec legal_run :: "('o \<Rightarrow> 's \<Rightarrow> bool) \<Rightarrow> ('o \<Rightarrow> 's \<Rightarrow> 's) \<Rightarrow> 'o list \<Rightarrow> 's \<Rightarrow> bool" where
  "legal_run legal step [] s = True"
| "legal_run legal step (op # ops) s = (legal op s \<and> legal_run legal step ops (step op s))"

lemma legal_run_take: "legal_run legal step ops s \<Longrightarrow> legal_run legal step (take n ops) s"
  by (induction ops arbitrary: s n) (auto simp: take_Cons split: nat.split)

locale machine =
  fixes start :: "'s \<Rightarrow> bool"
    and legal :: "'o \<Rightarrow> 's \<Rightarrow> bool"
    and step :: "'o \<Rightarrow> 's \<Rightarrow> 's"
    and safe :: "'s \<Rightarrow> bool"
  assumes start_safe: "start s \<Longrightarrow> safe s"
    and step_safe: "legal op s \<Longrightarrow> safe s \<Longrightarrow> safe (step op s)"
begin

lemma run_keeps_safe: "legal_run legal step ops s \<Longrightarrow> safe s \<Longrightarrow> safe (fold step ops s)"
  by (induction ops arbitrary: s) (auto simp: step_safe)

lemma run_safe: "start s \<Longrightarrow> legal_run legal step ops s \<Longrightarrow> safe (fold step ops s)"
  by (rule run_keeps_safe) (auto intro: start_safe)

lemma every_prefix_safe:
  "start s \<Longrightarrow> legal_run legal step ops s \<Longrightarrow> safe (fold step (take n ops) s)"
  by (rule run_safe) (auto intro: legal_run_take)

end

text \<open>
  The interface of a detailed machine that implements an abstract one: a
  relation between their states that every pair of steps keeps, so every pair
  of runs does.
\<close>

locale simulation =
  fixes step :: "'o \<Rightarrow> 's \<Rightarrow> 's"
    and abstract_step :: "'o \<Rightarrow> 'a \<Rightarrow> 'a"
    and related :: "'s \<Rightarrow> 'a \<Rightarrow> bool"
  assumes step_related: "related s a \<Longrightarrow> related (step op s) (abstract_step op a)"
begin

lemma run_related: "related s a \<Longrightarrow> related (fold step ops s) (fold abstract_step ops a)"
  by (induction ops arbitrary: s a) (simp_all add: step_related)

end

end
