(* ===== verification/Clock.thy ===== *)
theory Clock
  imports Prelude "HOL-Library.Monad_Syntax"
begin

section \<open>Timestamps\<close>

text \<open>
  The two timestamp helpers of \<open>scripts/leases.py\<close>, \<open>iso\<close> and \<open>parse_ts\<close>,
  with the part of Python's \<open>datetime\<close> they rest on: the proleptic Gregorian
  calendar (the ordinal arithmetic of the standard library), \<open>strftime\<close> of
  the one format the program writes and \<open>strptime\<close> of the two formats it
  reads. An instant is an integer, microseconds since 1970-01-01T00:00:00Z,
  which is the resolution of \<open>datetime\<close>. The result of the theory is the
  round trip: what \<open>iso\<close> writes, \<open>parse_ts\<close> reads back, truncated to the
  second. Of \<open>%z\<close> the forms \<open>+HHMM\<close>, \<open>+HH:MM\<close> and \<open>Z\<close> are modelled;
  offsets with seconds, which nothing writes, are not.
\<close>

subsection \<open>The calendar of the standard library\<close>

definition is_leap :: "int \<Rightarrow> bool" where
  "is_leap y = (y mod 4 = 0 \<and> (y mod 100 \<noteq> 0 \<or> y mod 400 = 0))"

definition days_before_year :: "int \<Rightarrow> int" where
  "days_before_year year = (let y = year - 1 in y * 365 + y div 4 - y div 100 + y div 400)"

definition leap_days_in_month :: "bool \<Rightarrow> int \<Rightarrow> int" where
  "leap_days_in_month leap m =
     (if m = 2 then (if leap then 29 else 28)
      else if m = 4 \<or> m = 6 \<or> m = 9 \<or> m = 11 then 30 else 31)"

definition leap_days_before_month :: "bool \<Rightarrow> int \<Rightarrow> int" where
  "leap_days_before_month leap m =
     (if m = 1 then 0 else if m = 2 then 31
      else (if leap then 1 else 0) +
        (if m = 3 then 59 else if m = 4 then 90 else if m = 5 then 120 else if m = 6 then 151
         else if m = 7 then 181 else if m = 8 then 212 else if m = 9 then 243
         else if m = 10 then 273 else if m = 11 then 304 else 334))"

definition ymd2ord :: "int \<Rightarrow> int \<Rightarrow> int \<Rightarrow> int" where
  "ymd2ord y m d = days_before_year y + leap_days_before_month (is_leap y) m + d"

text \<open>Month and day from the zero-based day of the year: an estimate that is
  exact or one too high, then the correction.\<close>

definition month_day :: "bool \<Rightarrow> int \<Rightarrow> int \<times> int" where
  "month_day leap n =
     (let month = (n + 50) div 32;
          preceding = leap_days_before_month leap month
      in if preceding > n
         then (month - 1, n - (preceding - leap_days_in_month leap (month - 1)) + 1)
         else (month, n - preceding + 1))"

definition ord2ymd :: "int \<Rightarrow> int \<times> int \<times> int" where
  "ord2ymd ordinal =
     (let n = ordinal - 1;
          n400 = n div 146097; n = n mod 146097;
          n100 = n div 36524; n = n mod 36524;
          n4 = n div 1461; n = n mod 1461;
          n1 = n div 365; n = n mod 365;
          year = n400 * 400 + 1 + n100 * 100 + n4 * 4 + n1
      in if n1 = 4 \<or> n100 = 4 then (year - 1, 12, 31)
         else (let leap = (n1 = 3 \<and> (n4 \<noteq> 24 \<or> n100 = 3));
                   (m, d) = month_day leap n
               in (year, m, d)))"

definition epoch_ordinal :: int where
  "epoch_ordinal = 719163"

subsection \<open>Writing: \<open>iso\<close>\<close>

definition pad2 :: "int \<Rightarrow> string" where
  "pad2 n = [digit_char (nat n div 10), digit_char (nat n mod 10)]"

definition pad4 :: "int \<Rightarrow> string" where
  "pad4 n = pad2 (n div 100) @ pad2 (n mod 100)"

definition date_text :: "int \<Rightarrow> string" where
  "date_text ordinal =
     (let (y, m, d) = ord2ymd ordinal in pad4 y @ ''-'' @ pad2 m @ ''-'' @ pad2 d)"

definition iso :: "int \<Rightarrow> string" where
  "iso ts =
     (let secs = ts div 1000000;
          days = secs div 86400;
          rem = secs mod 86400
      in date_text (days + epoch_ordinal) @ ''T'' @ pad2 (rem div 3600) @ '':'' @
         pad2 (rem div 60 mod 60) @ '':'' @ pad2 (rem mod 60) @ ''Z'')"

subsection \<open>Reading: \<open>parse_ts\<close>\<close>

definition lit :: "char list \<Rightarrow> string \<Rightarrow> string option" where
  "lit cs s = (case s of c # r \<Rightarrow> if c \<in> set cs then Some r else None | [] \<Rightarrow> None)"

definition in_range :: "int \<Rightarrow> int \<Rightarrow> int \<times> string \<Rightarrow> (int \<times> string) option" where
  "in_range lo hi p = (if lo \<le> fst p \<and> fst p \<le> hi then Some p else None)"

text \<open>A field of one or two digits; the separator after it makes the greedy
  reading the only one.\<close>

definition num2 :: "int \<Rightarrow> int \<Rightarrow> string \<Rightarrow> (int \<times> string) option" where
  "num2 lo hi s = (case s of
     [] \<Rightarrow> None
   | c # r \<Rightarrow>
       if \<not> is_digit c then None
       else (case r of
         [] \<Rightarrow> in_range lo hi (int (digit_val c), [])
       | c' # r' \<Rightarrow>
           if is_digit c' then in_range lo hi (10 * int (digit_val c) + int (digit_val c'), r')
           else in_range lo hi (int (digit_val c), r)))"

definition exact2 :: "string \<Rightarrow> (int \<times> string) option" where
  "exact2 s = (case s of
     c # c' # r \<Rightarrow>
       if is_digit c \<and> is_digit c'
       then Some (10 * int (digit_val c) + int (digit_val c'), r) else None
   | _ \<Rightarrow> None)"

definition year4 :: "string \<Rightarrow> (int \<times> string) option" where
  "year4 s = do { (a, s) \<leftarrow> exact2 s; (b, s) \<leftarrow> exact2 s; Some (100 * a + b, s) }"

text \<open>\<open>%d\<close> also takes a blank and one digit.\<close>

definition day_field :: "string \<Rightarrow> (int \<times> string) option" where
  "day_field s = (case s of
     c # c' # r \<Rightarrow>
       if c = CHR '' '' \<and> is_digit c' then in_range 1 9 (int (digit_val c'), r) else num2 1 31 s
   | _ \<Rightarrow> num2 1 31 s)"

definition date_field :: "string \<Rightarrow> (int \<times> string) option" where
  "date_field s = do {
     (y, s) \<leftarrow> year4 s; s \<leftarrow> lit ''-'' s;
     (m, s) \<leftarrow> num2 1 12 s; s \<leftarrow> lit ''-'' s;
     (d, s) \<leftarrow> day_field s;
     if 1 \<le> y \<and> d \<le> leap_days_in_month (is_leap y) m then Some (ymd2ord y m d, s) else None }"

definition time_field :: "string \<Rightarrow> (int \<times> string) option" where
  "time_field s = do {
     (h, s) \<leftarrow> num2 0 23 s; s \<leftarrow> lit '':'' s;
     (mi, s) \<leftarrow> num2 0 59 s; s \<leftarrow> lit '':'' s;
     (sec, s) \<leftarrow> num2 0 61 s;
     if sec \<le> 59 then Some (h * 3600 + mi * 60 + sec, s) else None }"

definition instant :: "int \<Rightarrow> int \<Rightarrow> int" where
  "instant ordinal secs = ((ordinal - epoch_ordinal) * 86400 + secs) * 1000000"

definition parse_utc :: "string \<Rightarrow> int option" where
  "parse_utc s = do {
     (o1, s) \<leftarrow> date_field s; s \<leftarrow> lit ''Tt'' s;
     (secs, s) \<leftarrow> time_field s; s \<leftarrow> lit ''Zz'' s;
     if s = [] then Some (instant o1 secs) else None }"

definition blanks :: "string \<Rightarrow> string option" where
  "blanks s = (case s of
     c # r \<Rightarrow> if is_space c then Some (dropWhile is_space r) else None
   | [] \<Rightarrow> None)"

definition zone_field :: "string \<Rightarrow> int option" where
  "zone_field s =
     (if s = ''Z'' then Some 0
      else (case s of
        [] \<Rightarrow> None
      | c # r \<Rightarrow>
          if c = CHR ''+'' \<or> c = CHR ''-'' then
            do { (h, r) \<leftarrow> exact2 r;
                 (mi, r) \<leftarrow> exact2 (case r of x # r' \<Rightarrow> if x = CHR '':'' then r' else r | [] \<Rightarrow> r);
                 if r = [] \<and> mi \<le> 59 \<and> h \<le> 23
                 then Some ((if c = CHR ''-'' then - 1 else 1) * (h * 3600 + mi * 60)) else None }
          else None))"

definition parse_zoned :: "string \<Rightarrow> int option" where
  "parse_zoned s = do {
     (o1, s) \<leftarrow> date_field s; s \<leftarrow> blanks s;
     (secs, s) \<leftarrow> time_field s; s \<leftarrow> blanks s;
     z \<leftarrow> zone_field s;
     Some (instant o1 (secs - z)) }"

fun parse_ts :: "pyval \<Rightarrow> int option" where
  "parse_ts (PStr s) =
     (if s = [] then None
      else case parse_utc s of Some t \<Rightarrow> Some t | None \<Rightarrow> parse_zoned s)"
| "parse_ts v = None"

subsection \<open>The round trip\<close>


lemma int_div_eqI: "q * b \<le> a \<Longrightarrow> a < (q + 1) * b \<Longrightarrow> 0 < b \<Longrightarrow> a div b = (q::int)"
  by (rule int_div_pos_eq [of _ _ _ "a - q * b"]) (auto simp: algebra_simps)

lemma int_mod_eqI: "a = q * b + r \<Longrightarrow> 0 \<le> r \<Longrightarrow> r < b \<Longrightarrow> a mod b = (r::int)"
  by simp

lemma month_cases:
  fixes e :: int
  assumes "1 \<le> e" "e \<le> 12"
  shows "e = 1 \<or> e = 2 \<or> e = 3 \<or> e = 4 \<or> e = 5 \<or> e = 6 \<or> e = 7 \<or> e = 8 \<or> e = 9 \<or> e = 10
    \<or> e = 11 \<or> e = 12"
  using assms by presburger

lemma month_day_correct:
  assumes "0 \<le> n" "n < (if leap then 366 else 365)" "month_day leap n = (m, d)"
  shows "1 \<le> m \<and> m \<le> 12 \<and> 1 \<le> d \<and> d \<le> leap_days_in_month leap m \<and>
    leap_days_before_month leap m + d = n + 1"
proof -
  define e where "e = (n + 50) div 32"
  have lo: "e * 32 \<le> n + 50" and hi: "n + 50 < e * 32 + 32"
    unfolding e_def by linarith+
  have bounds: "1 \<le> e" "e \<le> 12" using assms(1,2) lo hi by (auto split: if_splits)
  have md: "(if leap_days_before_month leap e > n
      then (e - 1, n - (leap_days_before_month leap e - leap_days_in_month leap (e - 1)) + 1)
      else (e, n - leap_days_before_month leap e + 1)) = (m, d)"
    using assms(3) unfolding month_day_def Let_def e_def .
  from month_cases [OF bounds] show ?thesis
    by (elim disjE; use assms(1,2) lo hi md in
      \<open>auto simp: leap_days_before_month_def leap_days_in_month_def split: if_splits\<close>)
qed

lemma leap_of_parts:
  assumes "0 \<le> n100" "n100 \<le> 3" "0 \<le> n4" "n4 \<le> 24" "0 \<le> n1" "n1 \<le> (3::int)"
  shows "is_leap (n400 * 400 + 1 + n100 * 100 + n4 * 4 + n1) = (n1 = 3 \<and> (n4 \<noteq> 24 \<or> n100 = 3))"
proof (cases "n1 = 3")
  case False
  have "(n400 * 400 + 1 + n100 * 100 + n4 * 4 + n1) mod 4 = 1 + n1"
    by (rule int_mod_eqI [where q = "n400 * 100 + n100 * 25 + n4"]) (use assms False in auto)
  with assms False show ?thesis by (simp add: is_leap_def)
next
  case True
  let ?y = "n400 * 400 + 1 + n100 * 100 + n4 * 4 + n1"
  have 4: "?y mod 4 = 0"
    by (rule int_mod_eqI [where q = "n400 * 100 + n100 * 25 + n4 + 1"]) (use True in auto)
  show ?thesis
  proof (cases "n4 = 24")
    case False
    have "?y mod 100 = 4 * n4 + 4"
      by (rule int_mod_eqI [where q = "n400 * 4 + n100"]) (use assms True False in auto)
    with 4 True False assms show ?thesis by (simp add: is_leap_def)
  next
    case n4: True
    have 100: "?y mod 100 = 0"
      by (rule int_mod_eqI [where q = "n400 * 4 + n100 + 1"]) (use True n4 in auto)
    show ?thesis
    proof (cases "n100 = 3")
      case n3: True
      have "?y mod 400 = 0"
        by (rule int_mod_eqI [where q = "n400 + 1"]) (use True n4 n3 in auto)
      with 4 True n4 n3 show ?thesis by (simp add: is_leap_def)
    next
      case False
      have "?y mod 400 = 100 * n100 + 100"
        by (rule int_mod_eqI [where q = "n400"]) (use assms True n4 False in auto)
      with 100 assms True n4 False show ?thesis by (simp add: is_leap_def)
    qed
  qed
qed

lemma days_before_year_parts:
  assumes "0 \<le> n100" "n100 \<le> 3" "0 \<le> n4" "n4 \<le> 24" "0 \<le> n1" "n1 \<le> (3::int)"
  shows "days_before_year (n400 * 400 + 1 + n100 * 100 + n4 * 4 + n1) =
    n400 * 146097 + n100 * 36524 + n4 * 1461 + n1 * 365"
proof -
  let ?y = "n400 * 400 + n100 * 100 + n4 * 4 + n1"
  have "?y div 4 = n400 * 100 + n100 * 25 + n4" by (rule int_div_eqI) (use assms in auto)
  moreover have "?y div 100 = n400 * 4 + n100" by (rule int_div_eqI) (use assms in auto)
  moreover have "?y div 400 = n400" by (rule int_div_eqI) (use assms in auto)
  ultimately show ?thesis by (simp add: days_before_year_def Let_def algebra_simps)
qed


lemma ord2ymd_correct:
  assumes "1 \<le> ordinal" "ord2ymd ordinal = (y, m, d)"
  shows "1 \<le> y \<and> 1 \<le> m \<and> m \<le> 12 \<and> 1 \<le> d \<and> d \<le> leap_days_in_month (is_leap y) m \<and>
    ymd2ord y m d = ordinal"
proof -
  define a where "a = (ordinal - 1) div 146097"
  define ar where "ar = (ordinal - 1) mod 146097"
  define b where "b = ar div 36524"
  define br where "br = ar mod 36524"
  define c where "c = br div 1461"
  define cr where "cr = br mod 1461"
  define e where "e = cr div 365"
  define r where "r = cr mod 365"
  have ord: "ordinal = a * 146097 + ar + 1" "ar = b * 36524 + br" "br = c * 1461 + cr" "cr = e * 365 + r"
    by (simp_all add: a_def ar_def b_def br_def c_def cr_def e_def r_def)
  have bnd: "0 \<le> a" "0 \<le> ar" "ar < 146097" "0 \<le> b" "b \<le> 4" "0 \<le> br" "br < 36524" "0 \<le> c" "c \<le> 24"
    "0 \<le> cr" "cr < 1461" "0 \<le> e" "e \<le> 4" "0 \<le> r" "r < 365"
    using assms(1) by (auto simp: a_def ar_def b_def br_def c_def cr_def e_def r_def)
  have eq: "ord2ymd ordinal =
      (if e = 4 \<or> b = 4 then (a * 400 + 1 + b * 100 + c * 4 + e - 1, 12, 31)
       else (let (m, d) = month_day (e = 3 \<and> (c \<noteq> 24 \<or> b = 3)) r
             in (a * 400 + 1 + b * 100 + c * 4 + e, m, d)))"
    by (simp add: ord2ymd_def Let_def a_def ar_def b_def br_def c_def cr_def e_def r_def)
  show ?thesis
  proof (cases "e = 4 \<or> b = 4")
    case False
    then have e3: "e \<le> 3" and b3: "b \<le> 3" using bnd by auto
    let ?leap = "e = 3 \<and> (c \<noteq> 24 \<or> b = 3)"
    have leap: "is_leap (a * 400 + 1 + b * 100 + c * 4 + e) = ?leap"
      using bnd e3 b3 by (intro leap_of_parts) auto
    have dby: "days_before_year (a * 400 + 1 + b * 100 + c * 4 + e) =
        a * 146097 + b * 36524 + c * 1461 + e * 365"
      using bnd e3 b3 by (intro days_before_year_parts) auto
    have md: "month_day ?leap r = (m, d)" and y: "y = a * 400 + 1 + b * 100 + c * 4 + e"
      using assms(2) eq False by (auto split: prod.splits)
    have "1 \<le> m \<and> m \<le> 12 \<and> 1 \<le> d \<and> d \<le> leap_days_in_month ?leap m \<and>
        leap_days_before_month ?leap m + d = r + 1"
      using month_day_correct [OF _ _ md] bnd by (auto split: if_splits)
    with leap dby y ord bnd show ?thesis by (auto simp: ymd2ord_def)
  next
    case True
    define e' where "e' = (if e = 4 then 3 else e)"
    have r0: "(if e = 4 then r = 0 else True)" using bnd ord by auto
    have "y = a * 400 + 1 + b * 100 + c * 4 + e - 1" "m = 12" "d = 31"
      using assms(2) eq True by auto
    consider (e4) "e = 4" "b \<le> 3" | (b4) "b = 4" using True bnd by linarith
    then show ?thesis
    proof cases
      case e4
      have yy: "y = a * 400 + 1 + b * 100 + c * 4 + 3" using e4 \<open>y = _\<close> by simp
      have c24: "c \<noteq> 24 \<or> b = 3" using e4 bnd ord by auto
      have "is_leap y" unfolding yy
        using leap_of_parts [of b c 3 a] bnd e4 c24 by simp
      moreover have "days_before_year y = a * 146097 + b * 36524 + c * 1461 + 3 * 365"
        unfolding yy using bnd e4 by (intro days_before_year_parts) auto
      ultimately show ?thesis
        using e4 ord r0 bnd \<open>m = 12\<close> \<open>d = 31\<close> yy
        by (auto simp: ymd2ord_def leap_days_before_month_def leap_days_in_month_def)
    next
      case b4
      have "br = 0" using b4 bnd ord by auto
      then have "c = 0" "e = 0" "r = 0" using bnd ord by linarith+
      have yy: "y = a * 400 + 1 + 3 * 100 + 24 * 4 + 3" using b4 \<open>y = _\<close> \<open>c = 0\<close> \<open>e = 0\<close> by simp
      have "is_leap y" unfolding yy using leap_of_parts [of 3 24 3 a] by simp
      moreover have "days_before_year y = a * 146097 + 3 * 36524 + 24 * 1461 + 3 * 365"
        unfolding yy by (intro days_before_year_parts) auto
      ultimately show ?thesis
        using b4 ord \<open>c = 0\<close> \<open>e = 0\<close> \<open>r = 0\<close> \<open>br = 0\<close> bnd \<open>m = 12\<close> \<open>d = 31\<close> yy
        by (auto simp: ymd2ord_def leap_days_before_month_def leap_days_in_month_def)
    qed
  qed
qed


lemma ord2ymd_year_bound:
  assumes "1 \<le> ordinal" "ordinal \<le> 3652059" "ord2ymd ordinal = (y, m, d)"
  shows "y \<le> 9999"
proof (rule ccontr)
  assume "\<not> y \<le> 9999"
  define k where "k = y - 1"
  have k: "9999 \<le> k" using \<open>\<not> y \<le> 9999\<close> by (simp add: k_def)
  have "k div 100 * 100 \<le> k" by simp
  then have "k div 100 \<le> 99 + (k - 9999)" using k by linarith
  moreover have "2499 \<le> k div 4" "24 \<le> k div 400" using k by linarith+
  ultimately have "3652059 \<le> days_before_year y"
    using k unfolding days_before_year_def Let_def k_def [symmetric] by linarith
  moreover have "0 \<le> leap_days_before_month (is_leap y) m"
    by (simp add: leap_days_before_month_def)
  ultimately show False
    using ord2ymd_correct [OF assms(1,3)] assms(2) by (simp add: ymd2ord_def)
qed

lemma lit_hit [simp]: "lit cs (c # r) = (if c \<in> set cs then Some r else None)"
  by (simp add: lit_def)

lemma two_digits: "0 \<le> n \<Longrightarrow> 10 * int (nat n div 10) + int (nat n mod 10) = n"
  by (simp add: zdiv_int zmod_int)

lemma num2_pad2:
  assumes "0 \<le> n" "n \<le> 99" "lo \<le> n" "n \<le> hi"
  shows "num2 lo hi (pad2 n @ r) = Some (n, r)"
proof -
  have d: "nat n div 10 < 10" using assms by linarith
  with assms two_digits [of n] show ?thesis by (simp add: num2_def pad2_def in_range_def)
qed

lemma exact2_pad2: "0 \<le> n \<Longrightarrow> n \<le> 99 \<Longrightarrow> exact2 (pad2 n @ r) = Some (n, r)"
proof -
  assume a: "0 \<le> n" "n \<le> 99"
  then have d: "nat n div 10 < 10" by linarith
  with a two_digits [of n] show ?thesis by (simp add: exact2_def pad2_def)
qed

lemma year4_pad4: "0 \<le> y \<Longrightarrow> y \<le> 9999 \<Longrightarrow> year4 (pad4 y @ r) = Some (y, r)"
  by (simp add: year4_def pad4_def exact2_pad2)

lemma day_field_pad2: "1 \<le> d \<Longrightarrow> d \<le> 31 \<Longrightarrow> day_field (pad2 d @ r) = Some (d, r)"
proof -
  assume a: "1 \<le> d" "d \<le> 31"
  have "digit_char (nat d div 10) \<noteq> CHR '' ''"
  proof
    assume "digit_char (nat d div 10) = CHR '' ''"
    moreover have "is_digit (digit_char (nat d div 10))" using a by simp
    ultimately show False by (simp add: is_digit_def)
  qed
  then have "day_field (pad2 d @ r) = num2 1 31 (pad2 d @ r)"
    by (simp add: day_field_def pad2_def)
  with a show ?thesis by (simp add: num2_pad2)
qed

lemma date_field_date_text:
  assumes "1 \<le> ordinal" "ordinal \<le> 3652059"
  shows "date_field (date_text ordinal @ r) = Some (ordinal, r)"
proof -
  obtain y m d where o: "ord2ymd ordinal = (y, m, d)" by (metis prod_cases3)
  note c = ord2ymd_correct [OF assms(1) o] ord2ymd_year_bound [OF assms o]
  have "d \<le> 31" using c by (auto simp: leap_days_in_month_def split: if_splits)
  with c show ?thesis
    by (simp add: date_field_def date_text_def o year4_pad4 num2_pad2 day_field_pad2)
qed

lemma time_field_text:
  assumes "0 \<le> r" "r < 86400"
  shows "time_field (pad2 (r div 3600) @ CHR '':'' # pad2 (r div 60 mod 60) @ CHR '':'' # pad2 (r mod 60) @ s) =
    Some (r, s)"
proof -
  have h: "r div 3600 \<le> 23" "0 \<le> r div 3600" using assms by linarith+
  have "r div 3600 = r div 60 div 60" using zdiv_zmult2_eq [of 60 r 60] by simp
  then have "r div 3600 * 60 + r div 60 mod 60 = r div 60" by simp
  moreover have "r div 60 * 60 + r mod 60 = r" by simp
  ultimately have sum: "r div 3600 * 3600 + r div 60 mod 60 * 60 + r mod 60 = r" by linarith
  have "r div 60 mod 60 < 60" "r mod 60 < 60" by simp_all
  then have "r div 60 mod 60 \<le> 59" "r mod 60 \<le> 59" "r mod 60 \<le> 61" by linarith+
  then show ?thesis
    using h sum by (simp add: time_field_def num2_pad2)
qed

text \<open>The instants \<open>datetime\<close> can hold from the epoch on.\<close>

definition clock_range :: "int \<Rightarrow> bool" where
  "clock_range t = (0 \<le> t \<and> t < 253402300800 * 1000000)"

lemma parse_utc_iso:
  assumes "clock_range t"
  shows "parse_utc (iso t) = Some (t - t mod 1000000)"
proof -
  define secs where "secs = t div 1000000"
  have secs: "0 \<le> secs" "secs < 253402300800"
    using assms by (auto simp: clock_range_def secs_def)
  have ord: "1 \<le> secs div 86400 + epoch_ordinal" "secs div 86400 + epoch_ordinal \<le> 3652059"
    using secs by (auto simp: epoch_ordinal_def)
  have inst: "instant (secs div 86400 + epoch_ordinal) (secs mod 86400) = t - t mod 1000000"
    by (simp add: instant_def secs_def minus_mod_eq_div_mult)
  show ?thesis
    using secs ord
    by (simp add: parse_utc_def iso_def Let_def secs_def [symmetric] date_field_date_text
      time_field_text inst)
qed

lemma parse_ts_iso:
  assumes "clock_range t"
  shows "parse_ts (PStr (iso t)) = Some (t - t mod 1000000)"
proof -
  have "iso t \<noteq> []" by (simp add: iso_def Let_def)
  with parse_utc_iso [OF assms] show ?thesis by simp
qed

text \<open>C36: time stamps survive the store. What \<open>parse_ts\<close> reads back from a stamp \<open>iso\<close> wrote is
  the same instant, cut to the whole second, for every instant from the epoch to the last year a
  date can hold; so ages computed from a stored stamp are off by less than one second.\<close>

theorem timestamp_round_trip:
  assumes "clock_range t"
  shows "\<exists>s. parse_ts (PStr (iso t)) = Some s \<and> s \<le> t \<and> t - s < 1000000 \<and> s mod 1000000 = 0"
proof (intro exI conjI)
  show "parse_ts (PStr (iso t)) = Some (t - t mod 1000000)" by (rule parse_ts_iso [OF assms])
  show "t - t mod 1000000 \<le> t" "t - (t - t mod 1000000) < 1000000"
    using pos_mod_bound [of 1000000 t] pos_mod_sign [of 1000000 t] by simp_all
  show "(t - t mod 1000000) mod 1000000 = 0" by (simp add: minus_mod_eq_div_mult)
qed

theorem timestamp_round_trip_witness:
  "\<exists>s. parse_ts (PStr (iso 1790848800500000)) = Some s \<and> s \<le> 1790848800500000
     \<and> 1790848800500000 - s < 1000000 \<and> s mod 1000000 = 0"
  by (rule timestamp_round_trip) (simp add: clock_range_def)

end
