(* ===== verification/Owners.thy ===== *)
theory Owners
  imports Clock
begin

section \<open>Lease owners: process identity, liveness and reclaim\<close>

text \<open>
  The part of \<open>scripts/leases.py\<close> that decides whether the owner of a lease is
  alive, dead or unproven, and \<open>reclaim\<close>, which drops exactly the records
  whose owner is provably gone. Everything the code asks the operating system
  (\<open>ps\<close>, \<open>kill(pid, 0)\<close>, \<open>sysctl\<close>, \<open>/proc\<close>, \<open>tart list\<close>, \<open>getpgid\<close>,
  \<open>getsid\<close>, the clock) is a field of the record \<open>host\<close>, the answers during one
  operation; \<open>kill0_again\<close> is the second answer \<open>identity_verdict\<close> asks for after
  \<open>ps\<close> failed. The evidence strings of the journal are a datatype with one
  constructor per message.
\<close>

subsection \<open>What the operating system answers\<close>

datatype kill_answer = KillDelivered | NoSuchProcess | NoPermission | KillOSError

text \<open>\<open>tart list --format json\<close>: no binary, a non-zero exit, output that is not a JSON
  list, or its rows (\<open>None\<close> for a row that is not an object).\<close>

datatype tart_listing = TartAbsent | TartFailed | TartMalformed | TartRows "pydict option list"

record host =
  utcnow :: int
  ps_lstart :: "int \<Rightarrow> string option"
  kill0 :: "int \<Rightarrow> kill_answer"
  kill0_again :: "int \<Rightarrow> kill_answer"
  sysctl_boottime :: "string option"
  proc_boot_id :: "string option"
  proc_stat :: "string list option"
  os_getpgid :: "int \<Rightarrow> int option"
  os_getsid :: "int \<Rightarrow> int option"
  tart_list :: tart_listing

definition is_vm_kind :: "pyval \<Rightarrow> bool" where
  "is_vm_kind v = endswith (py_str (py_or v (PStr []))) ''-vm''"

definition pid_start :: "host \<Rightarrow> int \<Rightarrow> string" where
  "pid_start h pid = (case ps_lstart h pid of None \<Rightarrow> [] | Some out \<Rightarrow> squeeze out)"

definition linux_boot_time :: "host \<Rightarrow> string" where
  "linux_boot_time h =
     (case proc_boot_id h of
        Some t \<Rightarrow> strip t
      | None \<Rightarrow> (case proc_stat h of
          None \<Rightarrow> ''unknown''
        | Some ls \<Rightarrow> (case find (\<lambda>l. startswith l ''btime '') ls of
            Some l \<Rightarrow> strip l | None \<Rightarrow> ''unknown'')))"

definition host_boot_time :: "host \<Rightarrow> string" where
  "host_boot_time h =
     (case sysctl_boottime h of
        Some out \<Rightarrow> if strip out \<noteq> [] then squeeze out else linux_boot_time h
      | None \<Rightarrow> linux_boot_time h)"

record identity =
  id_pid :: int
  id_process_start_time :: string
  id_host_boot_time :: string
  id_process_group_id :: pyval
  id_session_id :: pyval

definition opt_int :: "int option \<Rightarrow> pyval" where
  "opt_int v = (case v of None \<Rightarrow> PNone | Some i \<Rightarrow> PInt i)"

definition process_identity :: "host \<Rightarrow> int \<Rightarrow> identity" where
  "process_identity h pid =
     \<lparr>id_pid = pid,
      id_process_start_time = pid_start h pid,
      id_host_boot_time = host_boot_time h,
      id_process_group_id = opt_int (os_getpgid h pid),
      id_session_id = opt_int (os_getsid h pid)\<rparr>"

text \<open>The recorded boot and the current one are both known and differ.\<close>

definition boot_differs :: "string \<Rightarrow> string \<Rightarrow> bool" where
  "boot_differs record_boot current_boot =
     (record_boot \<noteq> [] \<and> record_boot \<noteq> ''unknown'' \<and> current_boot \<noteq> ''unknown''
      \<and> record_boot \<noteq> current_boot)"

definition identity_matches ::
  "host \<Rightarrow> pydict \<Rightarrow> string \<Rightarrow> string \<Rightarrow> string \<Rightarrow> string \<Rightarrow> bool \<Rightarrow> bool" where
  "identity_matches h record pid_key start_key boot_key current_boot require_start =
     (case py_int (dget record pid_key) of
        None \<Rightarrow> False
      | Some pid \<Rightarrow>
          if pid \<le> 0 then False
          else if boot_differs (text_field record boot_key) current_boot then False
          else let current_start = pid_start h pid;
                   expected_start = strip (text_field record start_key)
               in if current_start = [] then False
                  else if expected_start \<noteq> [] then current_start = squeeze expected_start
                  else \<not> require_start)"

subsection \<open>Alive, dead or unproven\<close>

datatype owner_state = OwnerAlive | OwnerDead | OwnerUnknown

datatype evidence =
    PidInvalid string
  | StartUnrecorded string
  | NoSuchPid string int
  | StartProbeFailed string int
  | StartMatches string int
  | PidReused string int string string
  | OtherBoot string int
  | PidExists string int
  | VmStateUnknown string
  | VmStillRunning string
  | VmNotRunning string

definition pid_exists :: "kill_answer \<Rightarrow> bool option" where
  "pid_exists a = (case a of
     KillDelivered \<Rightarrow> Some True | NoSuchProcess \<Rightarrow> Some False
   | NoPermission \<Rightarrow> Some True | KillOSError \<Rightarrow> None)"

definition identity_verdict ::
  "host \<Rightarrow> pydict \<Rightarrow> string \<Rightarrow> string \<Rightarrow> string \<Rightarrow> string \<Rightarrow> bool \<Rightarrow> owner_state \<times> evidence list" where
  "identity_verdict h record pid_key start_key boot_key current_boot require_start =
     (case py_int (dget record pid_key) of
        None \<Rightarrow> (OwnerDead, [PidInvalid pid_key])
      | Some pid \<Rightarrow>
          if pid \<le> 0 then (OwnerDead, [PidInvalid pid_key])
          else let expected_start = squeeze (text_field record start_key) in
          if require_start \<and> expected_start = [] then (OwnerDead, [StartUnrecorded pid_key])
          else if pid_exists (kill0 h pid) = Some False then (OwnerDead, [NoSuchPid pid_key pid])
          else let current_start = pid_start h pid in
          if current_start = [] then
            (if pid_exists (kill0_again h pid) = Some False then (OwnerDead, [NoSuchPid pid_key pid])
             else (OwnerUnknown, [StartProbeFailed pid_key pid]))
          else if expected_start \<noteq> [] then
            (if current_start = expected_start then (OwnerAlive, [StartMatches pid_key pid])
             else (OwnerDead, [PidReused pid_key pid current_start expected_start]))
          else if boot_differs (text_field record boot_key) current_boot
            then (OwnerDead, [OtherBoot pid_key pid])
          else (OwnerAlive, [PidExists pid_key pid]))"

definition owner_verdict :: "host \<Rightarrow> pydict \<Rightarrow> string \<Rightarrow> owner_state \<times> evidence list" where
  "owner_verdict h record boot =
     (if is_vm_kind (dget record ''command_kind'') \<and> has_key record ''guardian_pid'' then
        let (verdict, evidence) =
          identity_verdict h record ''guardian_pid'' ''guardian_process_start_time''
            ''guardian_host_boot_time'' boot True
        in if verdict \<noteq> OwnerDead \<or> dget record ''guardian_mode'' \<noteq> PStr ''managed-child''
           then (verdict, evidence)
           else let (writer, writer_evidence) =
             identity_verdict h record ''guardian_writer_pid''
               ''guardian_writer_process_start_time'' ''guardian_writer_host_boot_time'' boot True
             in (writer, evidence @ writer_evidence)
      else identity_verdict h record ''pid'' ''process_start_time'' ''host_boot_time'' boot False)"

definition owner_matches :: "host \<Rightarrow> pydict \<Rightarrow> string \<Rightarrow> bool" where
  "owner_matches h record boot = (fst (owner_verdict h record boot) = OwnerAlive)"

subsection \<open>Tart VMs\<close>

definition tart_vm_kinds :: "pyval list" where
  "tart_vm_kinds = [PStr ''tart-macos-vm'', PStr ''tart-linux-vm'']"

definition record_vm_name :: "pydict \<Rightarrow> string" where
  "record_vm_name record =
     (let name = text_field record ''vm_name'' in
      if name \<noteq> [] then name
      else let prefix = ''vm-'' @ py_str (dget record ''command_kind'') @ ''-'';
               lease_id = text_field record ''id''
           in if startswith lease_id prefix then drop (length prefix) lease_id else [])"

definition vm_row_running :: "pydict \<Rightarrow> string option" where
  "vm_row_running vm =
     (let state = lower (py_str (case vm ''State'' of Some v \<Rightarrow> v
            | None \<Rightarrow> (case vm ''state'' of Some v \<Rightarrow> v | None \<Rightarrow> PStr [])));
          name = py_or (dget vm ''Name'') (dget vm ''name'')
      in if truthy name \<and> startswith state ''run'' then Some (py_str name) else None)"

definition running_tart_vms :: "host \<Rightarrow> string list option" where
  "running_tart_vms h = (case tart_list h of
     TartAbsent \<Rightarrow> Some []
   | TartFailed \<Rightarrow> None
   | TartMalformed \<Rightarrow> None
   | TartRows rows \<Rightarrow>
       Some (List.map_filter (\<lambda>row. Option.bind row vm_row_running) rows))"

subsection \<open>Reclaim\<close>

datatype lease_event =
    LeaseReaped pyval string "evidence list"
  | LeaseKeptUnproven pyval "evidence list"

definition stale_heartbeat :: "host \<Rightarrow> int \<Rightarrow> pydict \<Rightarrow> bool" where
  "stale_heartbeat h stale_secs record =
     (case parse_ts (dget record ''heartbeat_at'') of
        None \<Rightarrow> True
      | Some hb \<Rightarrow> stale_secs * 1000000 \<le> utcnow h - hb)"

text \<open>The verdict of one turn of the loop: the owner's, held back when a Tart VM of
  the lease is running or its state could not be read. The loop reads the VM
  inventory at most once, so it is the same for every record of a pass.\<close>

definition reclaim_verdict :: "host \<Rightarrow> pyval \<Rightarrow> pydict \<Rightarrow> owner_state \<times> evidence list" where
  "reclaim_verdict h releasing_id record =
     (let (verdict, evidence) = owner_verdict h record (host_boot_time h) in
      if verdict = OwnerDead \<and> dget record ''command_kind'' \<in> set tart_vm_kinds
         \<and> \<not> py_eq (dget record ''id'') releasing_id \<and> record_vm_name record \<noteq> []
      then (let vm_name = record_vm_name record in
            case running_tart_vms h of
              None \<Rightarrow> (OwnerUnknown, evidence @ [VmStateUnknown vm_name])
            | Some vms \<Rightarrow>
                if vm_name \<in> set vms then (OwnerUnknown, evidence @ [VmStillRunning vm_name])
                else (OwnerDead, evidence @ [VmNotRunning vm_name]))
      else (verdict, evidence))"

definition mark_reaped :: "pydict \<Rightarrow> pydict" where
  "mark_reaped record = record(''_reap_reason'' \<mapsto> PStr ''identity_mismatch'')"

fun reclaim :: "host \<Rightarrow> int \<Rightarrow> pyval \<Rightarrow> pydict list \<Rightarrow>
    pydict list \<times> pydict list \<times> string list \<times> lease_event list" where
  "reclaim h stale_secs releasing_id [] = ([], [], [], [])"
| "reclaim h stale_secs releasing_id (record # records) =
     (let stale = stale_heartbeat h stale_secs record;
          (verdict, evidence) = reclaim_verdict h releasing_id record;
          lease_id = dget record ''id'';
          (active, reaped, problems, journal) = reclaim h stale_secs releasing_id records
      in if verdict = OwnerDead then
           (active, mark_reaped record # reaped, problems,
            LeaseReaped lease_id ''identity_mismatch'' evidence # journal)
         else
           (record # active, reaped,
            (if verdict = OwnerUnknown then [''owner_unproven_kept:'' @ py_str lease_id] else []) @
            (if stale then [''stale_heartbeat_live_owner:'' @ py_str lease_id] else []) @ problems,
            (if verdict = OwnerUnknown then [LeaseKeptUnproven lease_id evidence] else []) @ journal))"

subsection \<open>What reclaim keeps and what it drops\<close>

abbreviation reap_dead :: "host \<Rightarrow> pyval \<Rightarrow> pydict \<Rightarrow> bool" where
  "reap_dead h releasing_id record \<equiv> fst (reclaim_verdict h releasing_id record) = OwnerDead"

lemma reclaim_active:
  "fst (reclaim h stale releasing records) = filter (\<lambda>r. \<not> reap_dead h releasing r) records"
  by (induction records) (auto simp: Let_def split: prod.splits)

lemma reclaim_reaped:
  "fst (snd (reclaim h stale releasing records)) =
     map mark_reaped (filter (reap_dead h releasing) records)"
  by (induction records) (auto simp: Let_def split: prod.splits)

lemma reclaim_eqD:
  assumes "reclaim h stale releasing records = (active, reaped, problems, journal)"
  shows "active = filter (\<lambda>r. \<not> reap_dead h releasing r) records"
    and "reaped = map mark_reaped (filter (reap_dead h releasing) records)"
  using assms reclaim_active [of h stale releasing records]
    reclaim_reaped [of h stale releasing records] by simp_all

text \<open>reclaim loses no record and reorders nothing. The active records are the ones whose
  verdict is not dead, in store order; the reaped ones are the others; and the journal
  has exactly one reap row per reaped record.\<close>

theorem reclaim_partition:
  "reclaim h stale releasing records = (active, reaped, problems, journal) \<Longrightarrow>
     active = filter (\<lambda>r. \<not> reap_dead h releasing r) records
     \<and> reaped = map mark_reaped (filter (reap_dead h releasing) records)
     \<and> length active + length reaped = length records
     \<and> [i. LeaseReaped i _ _ \<leftarrow> journal] = map (\<lambda>r. dget r ''id'') (filter (reap_dead h releasing) records)"
proof (intro conjI)
  assume r: "reclaim h stale releasing records = (active, reaped, problems, journal)"
  note eqs = reclaim_eqD [OF r]
  show "active = filter (\<lambda>r. \<not> reap_dead h releasing r) records" by (rule eqs)
  show "reaped = map mark_reaped (filter (reap_dead h releasing) records)" by (rule eqs)
  show "length active + length reaped = length records"
    unfolding eqs length_map
    using sum_length_filter_compl [of "reap_dead h releasing" records] by simp
  show "[i. LeaseReaped i _ _ \<leftarrow> journal] = map (\<lambda>r. dget r ''id'') (filter (reap_dead h releasing) records)"
    using r
    by (induction records arbitrary: active reaped problems journal)
      (auto simp: Let_def split: prod.splits if_splits)
qed

subsection \<open>Only a proven death reaps\<close>

text \<open>The recorded process is still there: the kernel does not deny the pid and \<open>ps\<close>, when it
  answers, shows the start time that was recorded.\<close>

definition same_process :: "host \<Rightarrow> pydict \<Rightarrow> string \<Rightarrow> string \<Rightarrow> bool" where
  "same_process h record pid_key start_key =
     (case py_int (dget record pid_key) of
        None \<Rightarrow> False
      | Some pid \<Rightarrow> 0 < pid \<and> kill0 h pid \<noteq> NoSuchProcess \<and> kill0_again h pid \<noteq> NoSuchProcess
          \<and> squeeze (text_field record start_key) \<noteq> []
          \<and> (pid_start h pid = [] \<or> pid_start h pid = squeeze (text_field record start_key)))"

text \<open>The process that owns the lease under the ownership rules: the acquiring process, or the
  guardian of a guarded VM lease, or the writer child of a managed-child guardian.\<close>

definition owner_running :: "host \<Rightarrow> pydict \<Rightarrow> bool" where
  "owner_running h record =
     (if is_vm_kind (dget record ''command_kind'') \<and> has_key record ''guardian_pid'' then
        same_process h record ''guardian_pid'' ''guardian_process_start_time''
        \<or> (dget record ''guardian_mode'' = PStr ''managed-child''
            \<and> same_process h record ''guardian_writer_pid'' ''guardian_writer_process_start_time'')
      else same_process h record ''pid'' ''process_start_time'')"

lemma pid_exists_denied [simp]: "(pid_exists a = Some False) = (a = NoSuchProcess)"
  by (cases a) (auto simp: pid_exists_def)

lemma same_process_not_dead:
  "same_process h record pid_key start_key \<Longrightarrow>
     fst (identity_verdict h record pid_key start_key boot_key boot req) \<noteq> OwnerDead"
  by (auto simp: same_process_def identity_verdict_def Let_def split: option.splits)

lemma dead_not_same_process:
  "identity_verdict h record pid_key start_key boot_key boot req = (OwnerDead, ev) \<Longrightarrow>
     \<not> same_process h record pid_key start_key"
  using same_process_not_dead [of h "record" pid_key start_key boot_key boot req] by auto

lemma owner_running_not_dead:
  "owner_running h record \<Longrightarrow> fst (owner_verdict h record boot) \<noteq> OwnerDead"
  by (auto simp: owner_running_def owner_verdict_def Let_def split: prod.splits if_splits
      dest: dead_not_same_process same_process_not_dead)

lemma reap_dead_owner_dead:
  "reap_dead h releasing record \<Longrightarrow> fst (owner_verdict h record (host_boot_time h)) = OwnerDead"
  by (auto simp: reclaim_verdict_def Let_def split: prod.splits if_splits option.splits)

text \<open>C31: a lease whose owner still runs is never reaped: not when \<open>ps\<close> fails, not when its
  heartbeat is arbitrarily old, whatever the stale limit of the pass is.\<close>

theorem running_owner_kept:
  assumes "record \<in> set records" and "owner_running h record"
  shows "record \<in> set (fst (reclaim h stale_secs releasing records))"
proof -
  have "\<not> reap_dead h releasing record"
    using owner_running_not_dead [OF assms(2)] reap_dead_owner_dead by blast
  with assms(1) show ?thesis by (simp add: reclaim_active)
qed

text \<open>a Tart VM lease that is not being released is kept while its VM is listed as running,
  and while the VM listing cannot be read, even when its owner is proven dead.\<close>

theorem running_vm_kept:
  assumes "record \<in> set records"
    and "dget record ''command_kind'' \<in> set tart_vm_kinds"
    and "\<not> py_eq (dget record ''id'') releasing"
    and "record_vm_name record \<noteq> []"
    and "running_tart_vms h = None \<or> record_vm_name record \<in> set (the (running_tart_vms h))"
  shows "record \<in> set (fst (reclaim h stale_secs releasing records))"
proof -
  have "\<not> reap_dead h releasing record"
    using assms(2-5) by (auto simp: reclaim_verdict_def Let_def split: prod.splits option.splits)
  with assms(1) show ?thesis by (simp add: reclaim_active)
qed

text \<open>C32: a crashed build does not hold capacity. Once the kernel denies the acquiring process of a lease
  whose kind is not a VM kind, the next reclaim pass reaps the lease. (A lease of a VM kind is not
  covered: it may have been handed to a guardian process, and a Tart VM keeps its own lease.)\<close>

theorem crashed_owner_reaped:
  assumes "py_int (dget record ''pid'') = Some pid" and "kill0 h pid = NoSuchProcess"
    and "\<not> is_vm_kind (dget record ''command_kind'')"
  shows "record \<notin> set (fst (reclaim h stale_secs releasing records))"
proof -
  have "dget record ''command_kind'' \<notin> set tart_vm_kinds"
    using assms(3) by (auto simp: tart_vm_kinds_def is_vm_kind_def endswith_def py_or_def)
  then have "reap_dead h releasing record"
    using assms by (simp add: reclaim_verdict_def owner_verdict_def identity_verdict_def Let_def)
  then show ?thesis by (simp add: reclaim_active)
qed

end
