(* ===== verification/HostProfile.thy ===== *)
theory HostProfile
  imports Prelude
begin

section \<open>Host profile: the resource budget of one host\<close>

text \<open>
  \<open>scripts/host_profile.py\<close>: roles and their defaults, the governor file and its
  environment overrides, the agent floor, the lease policy, the build-class
  numbers and \<open>build_profile\<close>, which derives every number the lease store
  admits against. What the code reads from outside is the record \<open>profile_env\<close>:
  environment variables, the probes' output, and the TOML tables of the
  governor file and of the fleet profile as the standard library's parser
  returns them (\<open>None\<close> for a file that could not be read; values are scalars).
\<close>

subsection \<open>Roles\<close>

datatype host_role = DedicatedBuilder | DevOverflow | LightRole

definition role_name :: "host_role \<Rightarrow> string" where
  "role_name r = (case r of
     DedicatedBuilder \<Rightarrow> ''dedicated-builder'' | DevOverflow \<Rightarrow> ''dev-overflow''
   | LightRole \<Rightarrow> ''light'')"

record role_defaults =
  rd_headroom_cores :: int
  rd_agent_build_cap_cores :: int
  rd_vm_pool_cores :: int
  rd_qos :: string
  rd_watch_lock_limit :: int
  rd_macos_vm_cap :: int
  rd_headroom_mem_gb :: int
  rd_link_lto_reserve_mem_gb :: int

definition role_defaults_of :: "host_role \<Rightarrow> role_defaults" where
  "role_defaults_of r = (case r of
     DedicatedBuilder \<Rightarrow>
       \<lparr>rd_headroom_cores = 2, rd_agent_build_cap_cores = 12, rd_vm_pool_cores = 14,
        rd_qos = ''normal'', rd_watch_lock_limit = 1, rd_macos_vm_cap = 2,
        rd_headroom_mem_gb = 8, rd_link_lto_reserve_mem_gb = 8\<rparr>
   | DevOverflow \<Rightarrow>
       \<lparr>rd_headroom_cores = 4, rd_agent_build_cap_cores = 6, rd_vm_pool_cores = 6,
        rd_qos = ''background'', rd_watch_lock_limit = 1, rd_macos_vm_cap = 2,
        rd_headroom_mem_gb = 6, rd_link_lto_reserve_mem_gb = 6\<rparr>
   | LightRole \<Rightarrow>
       \<lparr>rd_headroom_cores = 4, rd_agent_build_cap_cores = 3, rd_vm_pool_cores = 3,
        rd_qos = ''background'', rd_watch_lock_limit = 1, rd_macos_vm_cap = 2,
        rd_headroom_mem_gb = 6, rd_link_lto_reserve_mem_gb = 4\<rparr>)"

definition PER_COMPILE_JOB_MEM_MB :: int where
  "PER_COMPILE_JOB_MEM_MB = 1536"

definition normalize_role :: "string \<Rightarrow> host_role result" where
  "normalize_role v =
     (let role = strip v in
      if role = ''dedicated-builder'' then Inr DedicatedBuilder
      else if role = ''dev-overflow'' then Inr DevOverflow
      else if role = ''light'' then Inr LightRole
      else Inl (ValueError (''invalid role '' @ role)))"

subsection \<open>Inputs\<close>

record profile_env =
  getenv :: "string \<Rightarrow> string option"
  sysctl_ncpu :: string
  os_cpu_count :: "int option"
  sysctl_memsize :: string
  sysconf_pages :: "(int \<times> int) option"
  sysctl_model :: string
  platform_machine :: string
  role_path :: string
  role_file_text :: "string option"
  governor_path :: string
  governor_table :: "(string \<times> pyval) list option option"
  fleet_lines :: "string list option"
  fleet_host_table :: "pydict option"
  fleet_leases_table :: "pydict option"

text \<open>The governor table: \<open>None\<close> is an unreadable file, \<open>Some None\<close> one that does not parse,
  \<open>Some (Some t)\<close> its \<open>[governor]\<close> table in file order.\<close>

definition detect_cores :: "profile_env \<Rightarrow> int" where
  "detect_cores e =
     (let from_env = (case getenv e ''TARTCI_HOST_CORES'' of
            Some v \<Rightarrow> if v = [] then None else int_of_string v | None \<Rightarrow> None);
          from_sysctl = (if sysctl_ncpu e = [] then None else int_of_string (sysctl_ncpu e));
          fallback = max 1 (case os_cpu_count e of Some n \<Rightarrow> if n = 0 then 1 else n | None \<Rightarrow> 1)
      in case from_env of
           Some c \<Rightarrow> if c > 0 then c
             else (case from_sysctl of Some c' \<Rightarrow> if c' > 0 then c' else fallback | None \<Rightarrow> fallback)
         | None \<Rightarrow> (case from_sysctl of Some c' \<Rightarrow> if c' > 0 then c' else fallback | None \<Rightarrow> fallback))"

definition detect_memory_mb :: "profile_env \<Rightarrow> int" where
  "detect_memory_mb e =
     (let from_env = (case getenv e ''TARTCI_HOST_MEM_MB'' of
            Some v \<Rightarrow> if v = [] then None else int_of_string v | None \<Rightarrow> None);
          from_sysctl = (if sysctl_memsize e = [] then None else int_of_string (sysctl_memsize e));
          from_sysconf = (case sysconf_pages e of
            Some (pages, page_size) \<Rightarrow>
              if pages > 0 \<and> page_size > 0 then pages * page_size div (1024 * 1024) else 0
          | None \<Rightarrow> 0);
          second = (case from_sysctl of
            Some b \<Rightarrow> if b > 0 then b div (1024 * 1024) else from_sysconf | None \<Rightarrow> from_sysconf)
      in case from_env of Some mb \<Rightarrow> if mb > 0 then mb else second | None \<Rightarrow> second)"

definition detect_model :: "profile_env \<Rightarrow> string" where
  "detect_model e =
     (case getenv e ''TARTCI_HOST_MODEL'' of
        Some v \<Rightarrow> if v \<noteq> [] then v
          else if sysctl_model e \<noteq> [] then sysctl_model e else platform_machine e
      | None \<Rightarrow> if sysctl_model e \<noteq> [] then sysctl_model e else platform_machine e)"

subsection \<open>The governor\<close>

datatype gov_kind = KRole | KInt | KCores | KBool | KStr

datatype gov_value = GInt int | GAuto | GBool bool | GStr string

definition governor_keys :: "(string \<times> gov_kind) list" where
  "governor_keys =
     [(''role'', KRole), (''human_reserved_cores'', KInt), (''gate_guarantee_cores'', KCores),
      (''gate_prompt_reserve_cores'', KCores), (''interactive_share_cores'', KCores),
      (''background_share_cores'', KCores), (''interactive_min_cores'', KInt),
      (''interactive_wait_secs'', KInt), (''agent_floor_cores'', KInt),
      (''agent_floor_pool_cores'', KInt), (''dynamic_lending'', KBool), (''fleet_hosts'', KStr)]"

definition parse_governor_value :: "string \<Rightarrow> pyval \<Rightarrow> gov_value result" where
  "parse_governor_value key raw =
     (case map_of governor_keys key of
        None \<Rightarrow> Inl (ValueError (''unknown governor key '' @ key))
      | Some kind \<Rightarrow>
          let txt = (case raw of PStr s \<Rightarrow> PStr (strip s) | v \<Rightarrow> v) in
          if kind = KRole then
            (case normalize_role (py_str txt) of Inl e \<Rightarrow> Inl e | Inr r \<Rightarrow> Inr (GStr (role_name r)))
          else if kind = KStr then Inr (GStr (py_str txt))
          else if kind = KBool then
            (case txt of PBool b \<Rightarrow> Inr (GBool b)
             | v \<Rightarrow> (let lowered = lower (py_str v) in
                 if lowered \<in> set [''true'', ''1'', ''on'', ''yes''] then Inr (GBool True)
                 else if lowered \<in> set [''false'', ''0'', ''off'', ''no''] then Inr (GBool False)
                 else Inl (ValueError (key @ '' must be true or false''))))
          else if kind = KCores \<and> (case txt of PStr s \<Rightarrow> lower s = ''auto'' | _ \<Rightarrow> False) then Inr GAuto
          else (case txt of
              PBool b \<Rightarrow> Inl (ValueError (key @ '' must be a non-negative integer''))
            | v \<Rightarrow> (case py_int v of
                None \<Rightarrow> Inl (ValueError (key @ '' must be a non-negative integer''))
              | Some n \<Rightarrow> if n < 0 then Inl (ValueError (key @ '' must be non-negative''))
                  else Inr (GInt n))))"

record governor_settings =
  gov_values :: "string \<rightharpoonup> gov_value"
  gov_sources :: "string \<rightharpoonup> string"
  gov_problems :: "string list"

fun error_text :: "py_error \<Rightarrow> string" where
  "error_text (ValueError m) = m"
| "error_text (TypeError m) = m"
| "error_text (RuntimeError m) = m"
| "error_text (KeyError m) = m"

definition upper :: "string \<Rightarrow> string" where
  "upper s = map (\<lambda>c. let n = (of_char c :: nat) in
     if 97 \<le> n \<and> n \<le> 122 then char_of (n - 32) else c) s"

definition apply_file_key :: "string \<Rightarrow> governor_settings \<Rightarrow> string \<times> pyval \<Rightarrow> governor_settings" where
  "apply_file_key path g kv =
     (case parse_governor_value (fst kv) (snd kv) of
        Inr v \<Rightarrow> g\<lparr>gov_values := (gov_values g)(fst kv \<mapsto> v),
                   gov_sources := (gov_sources g)(fst kv \<mapsto> ''file:'' @ path)\<rparr>
      | Inl e \<Rightarrow> g\<lparr>gov_problems := gov_problems g @ [''governor_value_ignored:'' @ error_text e]\<rparr>)"

definition apply_env_key :: "profile_env \<Rightarrow> governor_settings \<Rightarrow> string \<Rightarrow> governor_settings" where
  "apply_env_key e g key =
     (case getenv e (''TARTCI_GOV_'' @ upper key) of
        None \<Rightarrow> g
      | Some raw \<Rightarrow>
          if strip raw = [] then g
          else (case parse_governor_value key (PStr raw) of
            Inr v \<Rightarrow> g\<lparr>gov_values := (gov_values g)(key \<mapsto> v),
                       gov_sources := (gov_sources g)(key \<mapsto> ''environment'')\<rparr>
          | Inl err \<Rightarrow>
              g\<lparr>gov_problems := gov_problems g @ [''governor_env_ignored:'' @ error_text err]\<rparr>))"

definition governor_settings_of :: "profile_env \<Rightarrow> governor_settings" where
  "governor_settings_of e =
     (let g0 = \<lparr>gov_values = Map.empty, gov_sources = Map.empty, gov_problems =
            (case governor_table e of
               Some None \<Rightarrow> [''governor_file_unparseable:'' @ governor_path e] | _ \<Rightarrow> [])\<rparr>;
          table = (case governor_table e of Some (Some t) \<Rightarrow> t | _ \<Rightarrow> []);
          g1 = foldl (apply_file_key (governor_path e)) g0 table
      in foldl (apply_env_key e) g1 (map fst governor_keys))"

text \<open>\<open>isinstance(governor.get(key), int)\<close>, with the integer; a Python bool is an int.\<close>

definition gov_int :: "governor_settings \<Rightarrow> string \<Rightarrow> int option" where
  "gov_int g key = (case gov_values g key of
     Some (GInt n) \<Rightarrow> Some n
   | Some (GBool b) \<Rightarrow> Some (if b then 1 else 0)
   | _ \<Rightarrow> None)"

text \<open>\<open>governor.get(key, AUTO)\<close> of a key of kind \<open>cores\<close>: \<open>None\<close> is \<open>AUTO\<close>.\<close>

definition gov_cores :: "governor_settings \<Rightarrow> string \<Rightarrow> int option" where
  "gov_cores g key = (case gov_values g key of Some (GInt n) \<Rightarrow> Some n | _ \<Rightarrow> None)"

text \<open>The characters \<open>str.splitlines\<close> breaks at.\<close>

definition line_break :: "char \<Rightarrow> bool" where
  "line_break c = (let n = (of_char c :: nat) in
     (10 \<le> n \<and> n \<le> 13) \<or> (28 \<le> n \<and> n \<le> 30) \<or> n = 133)"

definition resolve_role ::
  "profile_env \<Rightarrow> string option \<Rightarrow> int \<Rightarrow> string \<Rightarrow> (host_role \<times> string) result" where
  "resolve_role e explicit_role cores model =
     (let tagged = (\<lambda>src r. case r of Inl err \<Rightarrow> Inl err | Inr role \<Rightarrow> Inr (role, src));
          from_file = (case role_file_text e of None \<Rightarrow> [] | Some t \<Rightarrow> strip t);
          first_line = strip (takeWhile (\<lambda>c. \<not> line_break c) from_file);
          by_default = (if cores \<le> 10 \<or>
               (\<exists>i \<in> set [0..<Suc (length model)]. startswith (drop i (lower model)) ''macbook'')
             then Inr (LightRole, ''default'') else Inr (DevOverflow, ''default''));
          after_governor =
            (if from_file \<noteq> [] then tagged (''file:'' @ role_path e) (normalize_role first_line) else by_default);
          after_env = (case gov_values (governor_settings_of e) ''role'' of
             Some (GStr r) \<Rightarrow> if strip r \<noteq> [] then tagged (''file:'' @ governor_path e) (normalize_role r)
               else after_governor
           | _ \<Rightarrow> after_governor);
          after_explicit = (case getenv e ''TARTCI_ROLE'' of
             Some r \<Rightarrow> if r \<noteq> [] then tagged ''environment'' (normalize_role r) else after_env
           | None \<Rightarrow> after_env)
      in case explicit_role of
           Some r \<Rightarrow> if r \<noteq> [] then tagged ''argument'' (normalize_role r) else after_explicit
         | None \<Rightarrow> after_explicit)"

subsection \<open>Fleet profile: gate lanes, agent floor, lease policy\<close>

definition skip_ws :: "string \<Rightarrow> string" where
  "skip_ws s = dropWhile is_space s"

text \<open>\<open>re.match(r'^key\\s*=\\s*"', line)\<close>: what follows the opening quote.\<close>

definition after_key_quote :: "string \<Rightarrow> string \<Rightarrow> string option" where
  "after_key_quote key line =
     (if startswith line key then
        (case skip_ws (drop (length key) line) of
           c # r \<Rightarrow> if c = CHR ''='' then
               (case skip_ws r of c' # r' \<Rightarrow> if c' = CHR 0x22 then Some r' else None | [] \<Rightarrow> None)
             else None
         | [] \<Rightarrow> None)
      else None)"

definition gate_line :: "string \<Rightarrow> bool" where
  "gate_line line =
     ((case after_key_quote ''priority'' line of
         Some r \<Rightarrow> startswith r (''gate'' @ [CHR 0x22]) | None \<Rightarrow> False)
      \<or> (case after_key_quote ''id'' line of
         Some r \<Rightarrow> (let body = takeWhile (\<lambda>c. c \<noteq> CHR 0x22) r in
             length body < length r \<and> endswith body ''-gate'')
       | None \<Rightarrow> False))"

fun serves_gate_lines :: "bool \<Rightarrow> string list \<Rightarrow> bool" where
  "serves_gate_lines in_lane [] = False"
| "serves_gate_lines in_lane (raw # rest) =
     (let line = strip (takeWhile (\<lambda>c. c \<noteq> CHR ''#'') raw) in
      if startswith line ''['' then serves_gate_lines (line = ''[[lane]]'') rest
      else if \<not> in_lane then serves_gate_lines in_lane rest
      else if gate_line line then True
      else serves_gate_lines in_lane rest)"

definition fleet_profile_serves_gate :: "profile_env \<Rightarrow> bool" where
  "fleet_profile_serves_gate e =
     (case fleet_lines e of None \<Rightarrow> False | Some ls \<Rightarrow> serves_gate_lines False ls)"

definition parse_host_ints :: "pydict \<Rightarrow> string list \<Rightarrow> (string \<rightharpoonup> int)" where
  "parse_host_ints values keys = (\<lambda>key.
     if key \<in> set keys then (case values key of
         Some (PInt n) \<Rightarrow> if n \<ge> 0 then Some n else None | _ \<Rightarrow> None)
     else None)"

definition agent_floor_keys :: "string list" where
  "agent_floor_keys = [''agent_floor_cores'', ''agent_floor_pool_cores'']"

text \<open>Per key: the environment wins over the governor, which wins over the fleet profile.\<close>

definition agent_floor_setting :: "profile_env \<Rightarrow> string \<Rightarrow> int option" where
  "agent_floor_setting e key =
     (let from_file = (case fleet_host_table e of
            None \<Rightarrow> None | Some t \<Rightarrow> parse_host_ints t agent_floor_keys key);
          from_governor = (case gov_int (governor_settings_of e) key of Some n \<Rightarrow> Some n | None \<Rightarrow> from_file)
      in case getenv e (''TARTCI_'' @ upper key) of
           Some raw \<Rightarrow> if isdigit (strip raw) then int_of_string (strip raw) else from_governor
         | None \<Rightarrow> from_governor)"

definition agent_floor_qos_values :: "string list" where
  "agent_floor_qos_values = [''utility'', ''background'']"

definition agent_floor_qos_setting :: "profile_env \<Rightarrow> string" where
  "agent_floor_qos_setting e =
     (let from_file = (case fleet_host_table e of
            None \<Rightarrow> ''background''
          | Some t \<Rightarrow> (case t ''agent_floor_qos'' of
              Some (PStr v) \<Rightarrow> if v \<in> set agent_floor_qos_values then v else ''background''
            | _ \<Rightarrow> ''background''))
      in case getenv e ''TARTCI_AGENT_FLOOR_QOS'' of
           Some raw \<Rightarrow> if strip raw \<in> set agent_floor_qos_values then strip raw else from_file
         | None \<Rightarrow> from_file)"

definition LEASE_POLICY_DEFAULT_FRESH_SECS :: int where
  "LEASE_POLICY_DEFAULT_FRESH_SECS = 90"

definition lease_policy_settings :: "profile_env \<Rightarrow> bool \<times> int" where
  "lease_policy_settings e =
     (let table = (case fleet_leases_table e of None \<Rightarrow> Map.empty | Some t \<Rightarrow> t);
          enabled = (case table ''rank_vm_waiters'' of Some (PBool b) \<Rightarrow> b | _ \<Rightarrow> False);
          fresh = (case table ''waiter_fresh_secs'' of
            Some (PInt n) \<Rightarrow> if n > 0 then n else LEASE_POLICY_DEFAULT_FRESH_SECS
          | _ \<Rightarrow> LEASE_POLICY_DEFAULT_FRESH_SECS);
          enabled' = (case getenv e ''TARTCI_RANK_VM_WAITERS'' of
            Some raw \<Rightarrow> if strip raw = ''0'' \<or> strip raw = ''1'' then strip raw = ''1'' else enabled
          | None \<Rightarrow> enabled);
          fresh' = (case getenv e ''TARTCI_VM_WAITER_FRESH_SECS'' of
            Some raw \<Rightarrow> if isdigit (strip raw) then
                (case int_of_string (strip raw) of Some n \<Rightarrow> if n > 0 then n else fresh | None \<Rightarrow> fresh)
              else fresh
          | None \<Rightarrow> fresh)
      in (enabled', fresh'))"

subsection \<open>Build classes\<close>

definition clamp_at_least :: "int \<Rightarrow> int \<Rightarrow> int \<Rightarrow> int" where
  "clamp_at_least v minimum maximum = min (max v minimum) (max minimum maximum)"

definition default_background_share :: "host_role \<Rightarrow> int \<Rightarrow> int" where
  "default_background_share role non_gate_capacity = (case role of
     DedicatedBuilder \<Rightarrow> max 1 (non_gate_capacity div 2)
   | DevOverflow \<Rightarrow> max 1 (min 4 non_gate_capacity)
   | LightRole \<Rightarrow> max 1 (min 2 non_gate_capacity))"

record build_classes =
  bc_serves_gate :: bool
  bc_dynamic_lending :: bool
  bc_gate_prompt_reserve_cores :: int
  bc_gate_prompt_reserve_auto :: bool
  bc_interactive_share_cores :: int
  bc_interactive_min_cores :: int
  bc_interactive_wait_secs :: int
  bc_background_share_cores :: int

definition build_class_settings ::
  "profile_env \<Rightarrow> governor_settings \<Rightarrow> host_role \<Rightarrow> int \<Rightarrow> int \<Rightarrow> int \<Rightarrow> int \<Rightarrow> build_classes" where
  "build_class_settings e g role lease_capacity reserved_gate non_gate_capacity vm_pool =
     (let serves_gate = fleet_profile_serves_gate e;
          lending = (case gov_values g ''dynamic_lending'' of Some (GBool b) \<Rightarrow> b | _ \<Rightarrow> False);
          prompt_setting = gov_cores g ''gate_prompt_reserve_cores'';
          prompt = (case prompt_setting of
            None \<Rightarrow> if serves_gate then min vm_pool reserved_gate else 0 | Some n \<Rightarrow> n);
          prompt = min (max 0 prompt) reserved_gate;
          interactive_share = (case gov_cores g ''interactive_share_cores'' of
            None \<Rightarrow> lease_capacity | Some n \<Rightarrow> n);
          interactive_share = clamp_at_least interactive_share 1 lease_capacity;
          background_share = (case gov_cores g ''background_share_cores'' of
            None \<Rightarrow> default_background_share role non_gate_capacity | Some n \<Rightarrow> n);
          background_share = clamp_at_least background_share 1 non_gate_capacity;
          min_cores = (case gov_int g ''interactive_min_cores'' of
            Some n \<Rightarrow> if n > 0 then n else 2 | None \<Rightarrow> 2);
          min_cores = min min_cores interactive_share;
          wait_secs = (case gov_int g ''interactive_wait_secs'' of Some n \<Rightarrow> n | None \<Rightarrow> 90)
      in \<lparr>bc_serves_gate = serves_gate, bc_dynamic_lending = lending,
          bc_gate_prompt_reserve_cores = prompt,
          bc_gate_prompt_reserve_auto = (prompt_setting = None),
          bc_interactive_share_cores = interactive_share,
          bc_interactive_min_cores = min_cores,
          bc_interactive_wait_secs = wait_secs,
          bc_background_share_cores = background_share\<rparr>)"

subsection \<open>The profile\<close>

record profile =
  pf_role :: host_role
  pf_role_source :: string
  pf_ncpu :: int
  pf_headroom_cores :: int
  pf_lease_capacity_cores :: int
  pf_reserved_gate_cores :: int
  pf_non_gate_capacity_cores :: int
  pf_vm_pool_cores :: int
  pf_agent_build_cap_cores :: int
  pf_mem_mb :: int
  pf_headroom_mem_mb :: int
  pf_link_lto_reserve_mem_mb :: int
  pf_lease_capacity_mem_mb :: int
  pf_reserved_gate_mem_mb :: int
  pf_non_gate_capacity_mem_mb :: int
  pf_per_compile_job_mem_mb :: int
  pf_qos :: string
  pf_agent_floor_cores :: int
  pf_agent_floor_pool_cores :: int
  pf_agent_floor_qos :: string
  pf_rank_vm_waiters :: bool
  pf_vm_waiter_fresh_secs :: int
  pf_classes :: build_classes
  pf_governor_problems :: "string list"

text \<open>The memory axis: lease capacity and the gate's share of it.\<close>

definition memory_axis :: "role_defaults \<Rightarrow> int \<Rightarrow> int \<Rightarrow> int \<Rightarrow> int \<times> int" where
  "memory_axis d host_mem_mb lease_capacity reserved_gate =
     (let capacity = (if host_mem_mb > 0 then
            max PER_COMPILE_JOB_MEM_MB
              (host_mem_mb - rd_headroom_mem_gb d * 1024 - rd_link_lto_reserve_mem_gb d * 1024)
          else 0);
          reserved = (if capacity > PER_COMPILE_JOB_MEM_MB \<and> reserved_gate > 0 then
            min (capacity * reserved_gate div lease_capacity) (capacity - PER_COMPILE_JOB_MEM_MB)
          else 0)
      in (capacity, reserved))"

text \<open>The agent floor and its pool, clamped to the memory no lease is ever granted.\<close>

definition agent_floor_axis :: "profile_env \<Rightarrow> role_defaults \<Rightarrow> int \<Rightarrow> int \<Rightarrow> int \<times> int" where
  "agent_floor_axis e d host_mem_mb lease_capacity =
     (let floor = min (max 0 (case agent_floor_setting e ''agent_floor_cores'' of Some n \<Rightarrow> n | None \<Rightarrow> 0))
            lease_capacity;
          pool = (case agent_floor_setting e ''agent_floor_pool_cores'' of Some n \<Rightarrow> n | None \<Rightarrow> floor);
          pool = min (max floor pool) lease_capacity;
          (floor, pool) = (if floor \<noteq> 0 \<and> host_mem_mb > 0 then
              (let unleased = min host_mem_mb
                     (rd_headroom_mem_gb d * 1024 + rd_link_lto_reserve_mem_gb d * 1024);
                   pool' = min pool (unleased div PER_COMPILE_JOB_MEM_MB)
               in (min floor pool', pool'))
            else (floor, pool))
      in if floor \<le> 0 then (0, 0) else (floor, pool))"

definition build_profile ::
  "profile_env \<Rightarrow> string option \<Rightarrow> int option \<Rightarrow> string option \<Rightarrow> int option \<Rightarrow> profile result" where
  "build_profile e role cores model memory_mb =
     (let host_cores = (case cores of Some c \<Rightarrow> c | None \<Rightarrow> detect_cores e);
          host_mem_mb = (case memory_mb of Some m \<Rightarrow> m | None \<Rightarrow> detect_memory_mb e);
          host_model = (case model of Some m \<Rightarrow> m | None \<Rightarrow> detect_model e)
      in if host_cores \<le> 0 then Inl (ValueError ''cores must be positive'')
         else if host_mem_mb < 0 then Inl (ValueError ''memory_mb must be non-negative'')
         else case resolve_role e role host_cores host_model of
           Inl err \<Rightarrow> Inl err
         | Inr (resolved_role, role_source) \<Rightarrow>
             let d = role_defaults_of resolved_role;
                 g = governor_settings_of e;
                 headroom = clamp_at_least
                   (case gov_int g ''human_reserved_cores'' of Some n \<Rightarrow> n | None \<Rightarrow> rd_headroom_cores d)
                   1 (max 1 (host_cores - 1));
                 lease_capacity = max 1 (host_cores - headroom);
                 agent_cap = clamp_at_least (rd_agent_build_cap_cores d) 1 lease_capacity;
                 vm_pool = clamp_at_least (rd_vm_pool_cores d) 1 lease_capacity;
                 reserved_gate = max 0 (lease_capacity - agent_cap);
                 (reserved_gate, agent_cap) = (case gov_int g ''gate_guarantee_cores'' of
                   Some n \<Rightarrow> (let r = min n (max 0 (lease_capacity - 1))
                              in (r, min agent_cap (max 1 (lease_capacity - r))))
                 | None \<Rightarrow> (reserved_gate, agent_cap));
                 non_gate_capacity = max 1 (lease_capacity - reserved_gate);
                 classes = build_class_settings e g resolved_role lease_capacity reserved_gate
                   non_gate_capacity vm_pool;
                 (mem_capacity, mem_reserved) = memory_axis d host_mem_mb lease_capacity reserved_gate;
                 (floor, pool) = agent_floor_axis e d host_mem_mb lease_capacity;
                 (rank, fresh) = lease_policy_settings e
             in Inr \<lparr>pf_role = resolved_role, pf_role_source = role_source, pf_ncpu = host_cores,
                  pf_headroom_cores = headroom, pf_lease_capacity_cores = lease_capacity,
                  pf_reserved_gate_cores = reserved_gate,
                  pf_non_gate_capacity_cores = non_gate_capacity, pf_vm_pool_cores = vm_pool,
                  pf_agent_build_cap_cores = agent_cap, pf_mem_mb = host_mem_mb,
                  pf_headroom_mem_mb = rd_headroom_mem_gb d * 1024,
                  pf_link_lto_reserve_mem_mb = rd_link_lto_reserve_mem_gb d * 1024,
                  pf_lease_capacity_mem_mb = mem_capacity, pf_reserved_gate_mem_mb = mem_reserved,
                  pf_non_gate_capacity_mem_mb = max 0 (mem_capacity - mem_reserved),
                  pf_per_compile_job_mem_mb = PER_COMPILE_JOB_MEM_MB, pf_qos = rd_qos d,
                  pf_agent_floor_cores = floor, pf_agent_floor_pool_cores = pool,
                  pf_agent_floor_qos = agent_floor_qos_setting e,
                  pf_rank_vm_waiters = rank, pf_vm_waiter_fresh_secs = fresh,
                  pf_classes = classes, pf_governor_problems = gov_problems g\<rparr>)"

subsection \<open>Every profile is a consistent budget\<close>

text \<open>What the lease store relies on: every limit is positive or within the one it is carved from.\<close>

definition classes_ok :: "int \<Rightarrow> int \<Rightarrow> int \<Rightarrow> build_classes \<Rightarrow> bool" where
  "classes_ok lease_capacity reserved_gate non_gate_capacity c =
     (0 \<le> bc_gate_prompt_reserve_cores c \<and> bc_gate_prompt_reserve_cores c \<le> reserved_gate
      \<and> 1 \<le> bc_interactive_share_cores c \<and> bc_interactive_share_cores c \<le> lease_capacity
      \<and> 1 \<le> bc_background_share_cores c \<and> bc_background_share_cores c \<le> non_gate_capacity
      \<and> 1 \<le> bc_interactive_min_cores c
      \<and> bc_interactive_min_cores c \<le> bc_interactive_share_cores c)"

definition core_axis_ok :: "profile \<Rightarrow> bool" where
  "core_axis_ok p =
     (1 \<le> pf_lease_capacity_cores p
      \<and> 0 \<le> pf_reserved_gate_cores p \<and> pf_reserved_gate_cores p < pf_lease_capacity_cores p
      \<and> pf_non_gate_capacity_cores p + pf_reserved_gate_cores p = pf_lease_capacity_cores p
      \<and> 1 \<le> pf_vm_pool_cores p \<and> pf_vm_pool_cores p \<le> pf_lease_capacity_cores p
      \<and> 1 \<le> pf_agent_build_cap_cores p
      \<and> pf_agent_build_cap_cores p \<le> pf_non_gate_capacity_cores p
      \<and> (1 < pf_ncpu p \<longrightarrow> pf_lease_capacity_cores p + pf_headroom_cores p = pf_ncpu p))"

definition memory_axis_ok :: "profile \<Rightarrow> bool" where
  "memory_axis_ok p =
     (0 \<le> pf_lease_capacity_mem_mb p \<and> 0 \<le> pf_reserved_gate_mem_mb p
      \<and> pf_non_gate_capacity_mem_mb p + pf_reserved_gate_mem_mb p = pf_lease_capacity_mem_mb p
      \<and> (0 < pf_lease_capacity_mem_mb p \<longrightarrow> PER_COMPILE_JOB_MEM_MB \<le> pf_non_gate_capacity_mem_mb p))"

definition agent_floor_ok :: "profile \<Rightarrow> bool" where
  "agent_floor_ok p =
     (0 \<le> pf_agent_floor_cores p \<and> pf_agent_floor_cores p \<le> pf_agent_floor_pool_cores p
      \<and> pf_agent_floor_pool_cores p \<le> pf_lease_capacity_cores p
      \<and> (0 < pf_mem_mb p \<longrightarrow> pf_agent_floor_pool_cores p * PER_COMPILE_JOB_MEM_MB
           \<le> pf_headroom_mem_mb p + pf_link_lto_reserve_mem_mb p))"

lemma clamp_at_least_bounds:
  "minimum \<le> clamp_at_least v minimum maximum"
  "minimum \<le> maximum \<Longrightarrow> clamp_at_least v minimum maximum \<le> maximum"
  by (auto simp: clamp_at_least_def)

lemma role_defaults_bounds:
  "1 \<le> rd_agent_build_cap_cores (role_defaults_of r)" "1 \<le> rd_vm_pool_cores (role_defaults_of r)"
  "0 \<le> rd_headroom_mem_gb (role_defaults_of r)" "0 \<le> rd_link_lto_reserve_mem_gb (role_defaults_of r)"
  by (cases r; simp add: role_defaults_of_def)+

lemma build_class_settings_ok:
  assumes "1 \<le> lease_capacity" "0 \<le> reserved_gate" "1 \<le> non_gate_capacity"
  shows "classes_ok lease_capacity reserved_gate non_gate_capacity
    (build_class_settings e g role lease_capacity reserved_gate non_gate_capacity vm_pool)"
proof -
  have "1 \<le> min (case gov_int g k of Some n \<Rightarrow> if 0 < n then n else 2 | None \<Rightarrow> 2)
          (clamp_at_least s 1 lease_capacity)" for k s
    using clamp_at_least_bounds(1) [of 1 s lease_capacity] by (auto split: option.split)
  then show ?thesis
    using assms clamp_at_least_bounds
    by (simp add: classes_ok_def build_class_settings_def Let_def)
qed

lemma memory_axis_bounds:
  assumes "memory_axis d mem lease_capacity reserved_gate = (capacity, reserved)"
    and "1 \<le> lease_capacity" "0 \<le> reserved_gate"
  shows "0 \<le> capacity" "0 \<le> reserved" "reserved \<le> capacity"
    "0 < capacity \<Longrightarrow> reserved \<le> capacity - PER_COMPILE_JOB_MEM_MB"
  using assms
  by (auto simp: memory_axis_def Let_def PER_COMPILE_JOB_MEM_MB_def pos_imp_zdiv_nonneg_iff
      split: if_splits)

lemma div_fits:
  assumes "0 < b" and "p \<le> a div b"
  shows "p * b \<le> (a::int)"
proof -
  have "p * b \<le> a div b * b" using assms by (simp add: mult_right_mono)
  also have "\<dots> \<le> a"
    using assms(1) pos_mod_sign [of b a] div_mult_mod_eq [of a b] by linarith
  finally show ?thesis .
qed

text \<open>The three outcomes of the floor clamp: off, as configured, or cut to the unleased memory.\<close>

lemma agent_floor_axis_cases:
  assumes "agent_floor_axis e d mem lc = (floor, pool)" and "0 \<le> lc"
  obtains (off) "floor = 0" "pool = 0"
  | (configured) "0 < floor" "floor \<le> pool" "pool \<le> lc" "\<not> 0 < mem"
  | (cut) "0 < floor" "floor \<le> pool" "pool \<le> lc"
      "pool \<le> min mem (rd_headroom_mem_gb d * 1024 + rd_link_lto_reserve_mem_gb d * 1024)
         div PER_COMPILE_JOB_MEM_MB"
proof -
  define f where "f = min (max 0 (case agent_floor_setting e ''agent_floor_cores'' of
    Some n \<Rightarrow> n | None \<Rightarrow> 0)) lc"
  define q where "q = min (max f (case agent_floor_setting e ''agent_floor_pool_cores'' of
    Some n \<Rightarrow> n | None \<Rightarrow> f)) lc"
  define u where "u = min mem (rd_headroom_mem_gb d * 1024 + rd_link_lto_reserve_mem_gb d * 1024)
    div PER_COMPILE_JOB_MEM_MB"
  have fq: "f \<le> q" "q \<le> lc" unfolding q_def using assms(2) by (simp_all add: f_def)
  have "(floor, pool) =
    (if f \<noteq> 0 \<and> 0 < mem then if min f (min q u) \<le> 0 then (0, 0) else (min f (min q u), min q u)
     else if f \<le> 0 then (0, 0) else (f, q))"
    using assms(1) unfolding agent_floor_axis_def Let_def f_def [symmetric] q_def [symmetric] u_def [symmetric]
    by (auto simp: min_le_iff_disj split: if_splits)
  with fq show ?thesis
    using that(1) that(2) that(3) unfolding u_def [symmetric]
    by (auto simp: min_le_iff_disj split: if_splits)
qed

lemma agent_floor_axis_bounds:
  assumes "agent_floor_axis e d mem lc = (floor, pool)"
    and "0 \<le> lc" "0 \<le> rd_headroom_mem_gb d" "0 \<le> rd_link_lto_reserve_mem_gb d"
  shows "0 \<le> floor \<and> floor \<le> pool \<and> pool \<le> lc \<and> (0 < mem \<longrightarrow> pool * PER_COMPILE_JOB_MEM_MB
       \<le> rd_headroom_mem_gb d * 1024 + rd_link_lto_reserve_mem_gb d * 1024)"
  using assms(1,2)
proof (cases rule: agent_floor_axis_cases)
  case cut
  have "pool * PER_COMPILE_JOB_MEM_MB
      \<le> min mem (rd_headroom_mem_gb d * 1024 + rd_link_lto_reserve_mem_gb d * 1024)"
    by (rule div_fits [OF _ cut(4)]) (simp add: PER_COMPILE_JOB_MEM_MB_def)
  with cut show ?thesis by simp
qed (use assms in auto)

lemma nonneg_governor:
  "parse_governor_value key raw = Inr (GInt n) \<Longrightarrow> 0 \<le> n"
  by (auto simp: parse_governor_value_def Let_def split: option.splits if_splits pyval.splits sum.splits)

lemma apply_file_key_ints:
  assumes "\<forall>k n. gov_values g k = Some (GInt n) \<longrightarrow> 0 \<le> n"
  shows "\<forall>k n. gov_values (apply_file_key path g kv) k = Some (GInt n) \<longrightarrow> 0 \<le> n"
  using assms by (auto simp: apply_file_key_def dest: nonneg_governor split: sum.splits)

lemma apply_env_key_ints:
  assumes "\<forall>k n. gov_values g k = Some (GInt n) \<longrightarrow> 0 \<le> n"
  shows "\<forall>k n. gov_values (apply_env_key e g key) k = Some (GInt n) \<longrightarrow> 0 \<le> n"
  using assms by (auto simp: apply_env_key_def dest: nonneg_governor split: sum.splits option.splits)

lemma foldl_keeps: "P g \<Longrightarrow> (\<And>g x. P g \<Longrightarrow> P (f g x)) \<Longrightarrow> P (foldl f g xs)"
  by (induction xs arbitrary: g) auto

lemma governor_ints_nonneg: "gov_values (governor_settings_of e) k = Some (GInt n) \<Longrightarrow> 0 \<le> n"
proof -
  have "\<forall>k n. gov_values (governor_settings_of e) k = Some (GInt n) \<longrightarrow> 0 \<le> n"
    unfolding governor_settings_of_def Let_def
    by (intro foldl_keeps [where P = "\<lambda>g. \<forall>k n. gov_values g k = Some (GInt n) \<longrightarrow> 0 \<le> n"]
        apply_env_key_ints apply_file_key_ints) auto
  then show "gov_values (governor_settings_of e) k = Some (GInt n) \<Longrightarrow> 0 \<le> n" by blast
qed

lemma gov_int_nonneg: "gov_int (governor_settings_of e) k = Some n \<Longrightarrow> 0 \<le> n"
  by (auto simp: gov_int_def dest: governor_ints_nonneg split: option.splits gov_value.splits if_splits)

text \<open>The gate reserve and the agent cap \<open>build_profile\<close> derives, on the lease capacity.\<close>

lemma gate_split_bounds:
  assumes "1 \<le> lc" "1 \<le> cap" "cap \<le> lc"
    and "(case gov_int (governor_settings_of e) k of
        Some n \<Rightarrow> (min n (max 0 (lc - 1)), min cap (max 1 (lc - min n (max 0 (lc - 1)))))
      | None \<Rightarrow> (max 0 (lc - cap), cap)) = (reserved, agent)"
  shows "0 \<le> reserved" "reserved < lc" "1 \<le> agent" "agent \<le> lc - reserved"
  using assms gov_int_nonneg [of e k] by (auto split: option.splits)

lemma build_profile_shape:
  assumes "build_profile e role cores model mem = Inr p"
  shows "core_axis_ok p \<and> memory_axis_ok p \<and> agent_floor_ok p
    \<and> classes_ok (pf_lease_capacity_cores p) (pf_reserved_gate_cores p)
        (pf_non_gate_capacity_cores p) (pf_classes p)"
proof -
  let ?hc = "case cores of Some c \<Rightarrow> c | None \<Rightarrow> detect_cores e"
  let ?hm = "case mem of Some m \<Rightarrow> m | None \<Rightarrow> detect_memory_mb e"
  let ?g = "governor_settings_of e"
  obtain r src where role: "resolve_role e role ?hc (case model of Some m \<Rightarrow> m | None \<Rightarrow> detect_model e) = Inr (r, src)"
    and hc: "0 < ?hc" and hm: "0 \<le> ?hm"
    using assms by (auto simp: build_profile_def Let_def split: if_splits sum.splits)
  let ?d = "role_defaults_of r"
  define headroom where "headroom = clamp_at_least
    (case gov_int ?g ''human_reserved_cores'' of Some n \<Rightarrow> n | None \<Rightarrow> rd_headroom_cores ?d) 1 (max 1 (?hc - 1))"
  define lc where "lc = max 1 (?hc - headroom)"
  define cap where "cap = clamp_at_least (rd_agent_build_cap_cores ?d) 1 lc"
  define vm where "vm = clamp_at_least (rd_vm_pool_cores ?d) 1 lc"
  obtain reserved agent where split: "(case gov_int ?g ''gate_guarantee_cores'' of
        Some n \<Rightarrow> (min n (max 0 (lc - 1)), min cap (max 1 (lc - min n (max 0 (lc - 1)))))
      | None \<Rightarrow> (max 0 (lc - cap), cap)) = (reserved, agent)" by fastforce
  obtain mc mr where mem: "memory_axis ?d ?hm lc reserved = (mc, mr)" by fastforce
  obtain fl pl where flo: "agent_floor_axis e ?d ?hm lc = (fl, pl)" by fastforce
  have hr: "1 \<le> headroom" "headroom \<le> max 1 (?hc - 1)"
    unfolding headroom_def using clamp_at_least_bounds by auto
  have lc: "1 \<le> lc" "1 \<le> cap" "cap \<le> lc" "1 \<le> vm" "vm \<le> lc"
    unfolding cap_def vm_def by (auto simp: lc_def clamp_at_least_bounds)
  note sb = gate_split_bounds [OF lc(1,2,3) split]
  note mb = memory_axis_bounds [OF mem lc(1) sb(1)]
  have lc0: "0 \<le> lc" using lc(1) by simp
  note fb = agent_floor_axis_bounds [OF flo lc0 role_defaults_bounds(3,4)]
  have ng: "max 1 (lc - reserved) = lc - reserved" using sb(2) by simp
  have ng1: "1 \<le> lc - reserved" using sb(2) by simp
  note cl = build_class_settings_ok [OF lc(1) sb(1) ng1, of e ?g r vm]
  have full: "1 < ?hc \<Longrightarrow> lc + headroom = ?hc" using hr by (auto simp: lc_def)
  have fields: "pf_ncpu p = ?hc" "pf_headroom_cores p = headroom" "pf_lease_capacity_cores p = lc"
    "pf_reserved_gate_cores p = reserved" "pf_non_gate_capacity_cores p = lc - reserved"
    "pf_vm_pool_cores p = vm" "pf_agent_build_cap_cores p = agent" "pf_mem_mb p = ?hm"
    "pf_headroom_mem_mb p = rd_headroom_mem_gb ?d * 1024"
    "pf_link_lto_reserve_mem_mb p = rd_link_lto_reserve_mem_gb ?d * 1024"
    "pf_lease_capacity_mem_mb p = mc" "pf_reserved_gate_mem_mb p = mr"
    "pf_non_gate_capacity_mem_mb p = max 0 (mc - mr)"
    "pf_agent_floor_cores p = fl" "pf_agent_floor_pool_cores p = pl"
    "pf_classes p = build_class_settings e ?g r lc reserved (lc - reserved) vm"
    using assms hc hm
    unfolding build_profile_def Let_def role sum.case prod.case headroom_def [symmetric] lc_def [symmetric]
      cap_def [symmetric] vm_def [symmetric] split mem flo ng
    by (auto split: if_splits prod.splits)
  have "0 < mc \<longrightarrow> PER_COMPILE_JOB_MEM_MB \<le> mc - mr" using mb(4) by auto
  then show ?thesis
    using lc sb mb(1-3) fb cl full
    by (simp add: core_axis_ok_def memory_axis_ok_def agent_floor_ok_def fields)
qed


text \<open>C30: every profile that is built is a consistent budget: the lease capacity is at least one
  core and, with the headroom, exactly the host's cores on any host with more than one; the
  gate reserve leaves at least one core and one compile job of memory to everyone else; the
  shares of the build classes, the VM pool and the agent floor are within the capacity they are
  carved from; and the floor pool fits the memory no lease is ever granted.\<close>

theorem build_profile_budget:
  "build_profile e role cores model mem = Inr p \<Longrightarrow>
     core_axis_ok p \<and> memory_axis_ok p \<and> agent_floor_ok p
     \<and> classes_ok (pf_lease_capacity_cores p) (pf_reserved_gate_cores p)
         (pf_non_gate_capacity_cores p) (pf_classes p)"
  by (rule build_profile_shape)

definition sample_env :: profile_env where
  "sample_env =
     \<lparr>getenv = (\<lambda>k. if k = ''TARTCI_ROLE'' then Some ''dev-overflow''
                     else if k = ''TARTCI_AGENT_FLOOR_CORES'' then Some ''2'' else None),
      sysctl_ncpu = ''16'', os_cpu_count = Some 16, sysctl_memsize = ''68719476736'',
      sysconf_pages = None, sysctl_model = ''Mac16,9'', platform_machine = ''arm64'',
      role_path = ''role'', role_file_text = None, governor_path = ''governor.toml'',
      governor_table = Some (Some [(''gate_guarantee_cores'', PInt 6), (''dynamic_lending'', PBool True)]),
      fleet_lines = Some [''[[lane]]'', ''priority = '' @ [CHR 0x22] @ ''gate'' @ [CHR 0x22]],
      fleet_host_table = None, fleet_leases_table = None\<rparr>"

theorem build_profile_budget_witness:
  "case build_profile sample_env None None None None of
     Inr p \<Rightarrow> core_axis_ok p \<and> memory_axis_ok p \<and> agent_floor_ok p
       \<and> pf_lease_capacity_cores p = 12 \<and> pf_reserved_gate_cores p = 6 \<and> pf_agent_floor_cores p = 2
   | Inl err \<Rightarrow> False"
proof -
  have "case build_profile sample_env None None None None of
     Inr p \<Rightarrow> pf_lease_capacity_cores p = 12 \<and> pf_reserved_gate_cores p = 6 \<and> pf_agent_floor_cores p = 2
   | Inl err \<Rightarrow> False"
    by code_simp
  then show ?thesis
    using build_profile_budget [of sample_env None None None None] by (simp split: sum.splits)
qed

end
