(* ===== verification/Capacity.thy ===== *)
theory Capacity
  imports Owners HostProfile
begin

section \<open>Capacity: what a lease is charged and what is admitted\<close>

text \<open>
  The accounting half of \<open>scripts/leases.py\<close>: \<open>capacity_config\<close>, the reading of
  a record's charges, \<open>usage\<close> and \<open>class_usage\<close>, the admission verdict on the
  core and memory axes, floor leases, dynamic gate lending with its prompt
  reserve and \<open>reconcile_borrowers\<close>, which marks the borrowers that yield to a
  gate. A lease record is a \<open>pydict\<close> as the store file holds it; the
  configuration dictionary, whose keys \<open>capacity_config\<close> always writes, is the
  record \<open>config\<close>.
\<close>

subsection \<open>Reading a record\<close>

definition record_int :: "pydict \<Rightarrow> string \<Rightarrow> int \<Rightarrow> int" where
  "record_int record key dflt =
     (case py_int (py_or (dget record key) (PInt dflt)) of Some v \<Rightarrow> v | None \<Rightarrow> dflt)"

abbreviation cores_of :: "pydict \<Rightarrow> int" where
  "cores_of record \<equiv> record_int record ''lease_size_cores'' 0"

abbreviation priority_of :: "pydict \<Rightarrow> int" where
  "priority_of record \<equiv> record_int record ''priority'' 0"

abbreviation id_str :: "pydict \<Rightarrow> string" where
  "id_str record \<equiv> py_str (dget record ''id'')"

definition is_floor :: "pydict \<Rightarrow> bool" where
  "is_floor record = (dget record ''floor'' = PBool True)"

definition record_mem_mb :: "pydict \<Rightarrow> int \<Rightarrow> int" where
  "record_mem_mb record per_job_mem_mb =
     (let explicit = record_int record ''lease_size_mem_mb'' (- 1) in
      if explicit \<ge> 0 \<and> has_key record ''lease_size_mem_mb'' then explicit
      else cores_of record * per_job_mem_mb)"

definition record_has_explicit_mem :: "pydict \<Rightarrow> bool" where
  "record_has_explicit_mem record = has_key record ''lease_size_mem_mb''"

subsection \<open>Priorities\<close>

definition PRIORITY_CLASSES :: "(string \<times> int) list" where
  "PRIORITY_CLASSES =
     [(''background'', 10), (''build'', 40), (''vm'', 60), (''runner'', 80), (''gate'', 100)]"

definition parse_priority :: "string option \<Rightarrow> (int \<times> string) result" where
  "parse_priority v = (case v of
     None \<Rightarrow> Inr (40, ''build'')
   | Some s \<Rightarrow> (let txt = strip s in
       case map_of PRIORITY_CLASSES txt of
         Some p \<Rightarrow> Inr (p, txt)
       | None \<Rightarrow> (case int_of_string txt of
           Some n \<Rightarrow> Inr (n, txt)
         | None \<Rightarrow> Inl (ValueError (''invalid priority '' @ s)))))"

subsection \<open>The configuration of a command\<close>

record common_args =
  ca_capacity :: "int option"
  ca_capacity_mem_mb :: "int option"
  ca_reserved_gate_cores :: "int option"
  ca_reserved_gate_mem_mb :: "int option"
  ca_agent_floor_cores :: "int option"
  ca_agent_floor_pool_cores :: "int option"
  ca_agent_floor_qos :: "string option"
  ca_gate_priority :: int
  ca_stale_secs :: int
  ca_role :: "string option"
  ca_host_cores :: "int option"
  ca_model :: "string option"
  ca_rank_vm_waiters :: "string option"
  ca_waiter_fresh_secs :: "int option"
  ca_dynamic_lending :: "string option"
  ca_gate_prompt_reserve_cores :: "int option"
  ca_interactive_share_cores :: "int option"
  ca_background_share_cores :: "int option"

record config =
  cf_total :: int
  cf_dynamic_lending :: bool
  cf_serves_gate :: bool
  cf_gate_prompt_reserve_cores :: int
  cf_gate_prompt_reserve_auto :: bool
  cf_interactive_share_cores :: int
  cf_background_share_cores :: int
  cf_rank_vm_waiters :: bool
  cf_waiter_fresh_secs :: int
  cf_agent_floor_cores :: int
  cf_agent_floor_pool_cores :: int
  cf_agent_floor_qos :: string
  cf_reserved_gate_cores :: int
  cf_gate_priority :: int
  cf_total_mem_mb :: int
  cf_reserved_gate_mem_mb :: int
  cf_per_job_mem_mb :: int

definition profile_for_args :: "profile_env \<Rightarrow> common_args \<Rightarrow> profile result" where
  "profile_for_args e a = build_profile e (ca_role a) (ca_host_cores a) (ca_model a) None"

definition int_override :: "int option \<Rightarrow> int \<Rightarrow> int" where
  "int_override v dflt = (case v of Some n \<Rightarrow> n | None \<Rightarrow> dflt)"

definition core_override :: "int option \<Rightarrow> int \<Rightarrow> int" where
  "core_override v dflt = (case v of Some n \<Rightarrow> max 0 n | None \<Rightarrow> dflt)"

definition switch_override :: "string option \<Rightarrow> bool \<Rightarrow> bool" where
  "switch_override v dflt =
     (if v = Some ''on'' then True else if v = Some ''off'' then False else dflt)"

definition config_of_profile :: "common_args \<Rightarrow> profile \<Rightarrow> config" where
  "config_of_profile a p =
     (let total = (case ca_capacity a of
            Some n \<Rightarrow> if n \<noteq> 0 then n else pf_lease_capacity_cores p
          | None \<Rightarrow> pf_lease_capacity_cores p);
          reserved = int_override (ca_reserved_gate_cores a) (pf_reserved_gate_cores p);
          reserved = (if total > 1 then min (max 0 reserved) (max 0 (total - 1)) else 0);
          total_mem = int_override (ca_capacity_mem_mb a) (pf_lease_capacity_mem_mb p);
          per_job_mem = max 1 (pf_per_compile_job_mem_mb p);
          total_mem = max 0 total_mem;
          reserved_mem = int_override (ca_reserved_gate_mem_mb a) (pf_reserved_gate_mem_mb p);
          reserved_mem = (if total_mem > per_job_mem
            then min (max 0 reserved_mem) (total_mem - per_job_mem) else 0);
          floor_cores = int_override (ca_agent_floor_cores a) (pf_agent_floor_cores p);
          floor_pool = int_override (ca_agent_floor_pool_cores a) (pf_agent_floor_pool_cores p);
          floor_qos = (case ca_agent_floor_qos a of
            Some q \<Rightarrow> if q \<in> set agent_floor_qos_values then q else pf_agent_floor_qos p
          | None \<Rightarrow> pf_agent_floor_qos p);
          floor_cores = max 0 floor_cores;
          floor_pool = (if floor_cores \<noteq> 0 then max floor_cores floor_pool else 0);
          waiter_fresh = (case ca_waiter_fresh_secs a of
            Some n \<Rightarrow> if n > 0 then n else pf_vm_waiter_fresh_secs p
          | None \<Rightarrow> pf_vm_waiter_fresh_secs p);
          classes = pf_classes p
      in \<lparr>cf_total = max 1 total,
          cf_dynamic_lending = switch_override (ca_dynamic_lending a) (bc_dynamic_lending classes),
          cf_serves_gate = bc_serves_gate classes,
          cf_gate_prompt_reserve_cores =
            min (core_override (ca_gate_prompt_reserve_cores a) (bc_gate_prompt_reserve_cores classes))
              reserved,
          cf_gate_prompt_reserve_auto =
            (ca_gate_prompt_reserve_cores a = None \<and> bc_gate_prompt_reserve_auto classes),
          cf_interactive_share_cores =
            max 1 (core_override (ca_interactive_share_cores a) (bc_interactive_share_cores classes)),
          cf_background_share_cores =
            max 1 (core_override (ca_background_share_cores a) (bc_background_share_cores classes)),
          cf_rank_vm_waiters = switch_override (ca_rank_vm_waiters a) (pf_rank_vm_waiters p),
          cf_waiter_fresh_secs = max 1 waiter_fresh,
          cf_agent_floor_cores = floor_cores,
          cf_agent_floor_pool_cores = floor_pool,
          cf_agent_floor_qos = floor_qos,
          cf_reserved_gate_cores = reserved,
          cf_gate_priority = ca_gate_priority a,
          cf_total_mem_mb = total_mem,
          cf_reserved_gate_mem_mb = reserved_mem,
          cf_per_job_mem_mb = per_job_mem\<rparr>)"

definition capacity_config :: "profile_env \<Rightarrow> common_args \<Rightarrow> config result" where
  "capacity_config e a = (case profile_for_args e a of
     Inl err \<Rightarrow> Inl err | Inr p \<Rightarrow> Inr (config_of_profile a p))"

subsection \<open>Usage\<close>

definition BUILD_CLASSES :: "string list" where
  "BUILD_CLASSES = [''interactive'', ''background'']"

abbreviation guaranteed_limit :: "config \<Rightarrow> int" where
  "guaranteed_limit cfg \<equiv> max 1 (cf_total cfg - cf_reserved_gate_cores cfg)"

abbreviation non_gate_mem_limit :: "config \<Rightarrow> int" where
  "non_gate_mem_limit cfg \<equiv>
     max (cf_per_job_mem_mb cfg) (cf_total_mem_mb cfg - cf_reserved_gate_mem_mb cfg)"

definition is_gate_record :: "pydict \<Rightarrow> config \<Rightarrow> bool" where
  "is_gate_record record cfg = (priority_of record \<ge> cf_gate_priority cfg)"

definition is_borrowed :: "pydict \<Rightarrow> bool" where
  "is_borrowed record = (dget record ''borrowed'' = PBool True)"

definition lending_active :: "pydict list \<Rightarrow> config \<Rightarrow> bool" where
  "lending_active records cfg =
     (cf_dynamic_lending cfg \<or> list_ex is_borrowed (filter (\<lambda>r. \<not> is_floor r) records))"

record class_figures =
  cu_dynamic_lending :: bool
  cu_gate_used_cores :: int
  cu_lent_cores :: int
  cu_interactive_used_cores :: int
  cu_background_used_cores :: int
  cu_interactive_share_cores :: int
  cu_background_share_cores :: int
  cu_preempted_lease_ids :: "string list"

definition class_usage :: "pydict list \<Rightarrow> config \<Rightarrow> class_figures" where
  "class_usage records cfg =
     (let gate_used = sum_over cores_of (filter (\<lambda>r. is_gate_record r cfg) records);
          non_gate = filter (\<lambda>r. \<not> is_gate_record r cfg) records;
          non_gate_used = sum_over cores_of non_gate;
          by_class = (\<lambda>name. sum_over cores_of
            (filter (\<lambda>r. dget r ''build_class'' = PStr name) non_gate));
          lent = (if lending_active records cfg
            then max 0 (non_gate_used - guaranteed_limit cfg) else 0)
      in \<lparr>cu_dynamic_lending = cf_dynamic_lending cfg,
          cu_gate_used_cores = gate_used,
          cu_lent_cores = lent,
          cu_interactive_used_cores = by_class ''interactive'',
          cu_background_used_cores = by_class ''background'',
          cu_interactive_share_cores = cf_interactive_share_cores cfg,
          cu_background_share_cores = cf_background_share_cores cfg,
          cu_preempted_lease_ids =
            sort (map id_str (filter (\<lambda>r. dget r ''preempted'' = PBool True) records))\<rparr>)"

record floor_figures =
  fu_agent_floor_cores :: int
  fu_agent_floor_pool_cores :: int
  fu_floor_used_cores :: int
  fu_floor_available_cores :: int

record mem_figures =
  mu_total_mem_mb :: int
  mu_used_mem_mb :: int
  mu_available_mem_mb :: int
  mu_per_job_mem_mb :: int
  mu_reserved_gate_mem_mb :: int
  mu_non_gate_limit_mem_mb :: int
  mu_non_gate_used_mem_mb :: int
  mu_non_gate_available_mem_mb :: int
  mu_memory_accounting :: string
  mu_floor_used_mem_mb :: "int option"

record usage_figures =
  us_total_cores :: int
  us_used_cores :: int
  us_available_cores :: int
  us_reserved_gate_cores :: int
  us_gate_priority :: int
  us_non_gate_limit_cores :: int
  us_non_gate_used_cores :: int
  us_non_gate_available_cores :: int
  us_classes :: class_figures
  us_floor :: "floor_figures option"
  us_mem :: "mem_figures option"

definition usage :: "pydict list \<Rightarrow> config \<Rightarrow> usage_figures" where
  "usage all_records cfg =
     (let records = filter (\<lambda>r. \<not> is_floor r) all_records;
          floor_records = filter is_floor all_records;
          used = sum_over cores_of records;
          non_gate = filter (\<lambda>r. priority_of r < cf_gate_priority cfg) records;
          non_gate_used = sum_over cores_of non_gate;
          floor_pool = cf_agent_floor_pool_cores cfg;
          floor_used = sum_over cores_of floor_records;
          total_mem = cf_total_mem_mb cfg;
          per_job = cf_per_job_mem_mb cfg;
          mem = (\<lambda>r. record_mem_mb r per_job)
      in \<lparr>us_total_cores = cf_total cfg,
          us_used_cores = used,
          us_available_cores = max 0 (cf_total cfg - used),
          us_reserved_gate_cores = cf_reserved_gate_cores cfg,
          us_gate_priority = cf_gate_priority cfg,
          us_non_gate_limit_cores = guaranteed_limit cfg,
          us_non_gate_used_cores = non_gate_used,
          us_non_gate_available_cores = max 0 (guaranteed_limit cfg - non_gate_used),
          us_classes = class_usage records cfg,
          us_floor = (if floor_pool > 0 \<or> \<not> List.null floor_records then
              Some \<lparr>fu_agent_floor_cores = cf_agent_floor_cores cfg,
                fu_agent_floor_pool_cores = floor_pool,
                fu_floor_used_cores = floor_used,
                fu_floor_available_cores = max 0 (floor_pool - floor_used)\<rparr>
            else None),
          us_mem = (if total_mem > 0 then
              Some \<lparr>mu_total_mem_mb = total_mem,
                mu_used_mem_mb = sum_over mem records,
                mu_available_mem_mb = max 0 (total_mem - sum_over mem records),
                mu_per_job_mem_mb = per_job,
                mu_reserved_gate_mem_mb = cf_reserved_gate_mem_mb cfg,
                mu_non_gate_limit_mem_mb = non_gate_mem_limit cfg,
                mu_non_gate_used_mem_mb = sum_over mem non_gate,
                mu_non_gate_available_mem_mb = max 0 (non_gate_mem_limit cfg - sum_over mem non_gate),
                mu_memory_accounting =
                  (if list_ex (\<lambda>r. \<not> record_has_explicit_mem r) records
                   then ''estimated_legacy'' else ''explicit''),
                mu_floor_used_mem_mb =
                  (if \<not> List.null floor_records then Some (sum_over mem floor_records) else None)\<rparr>
            else None)\<rparr>)"

subsection \<open>The admission verdict\<close>

record verdict =
  vd_total_exceeded :: bool
  vd_class_exceeded :: bool
  vd_share_exceeded :: bool
  vd_core_limit :: int
  vd_core_limit_class :: string
  vd_mem_exceeded :: bool
  vd_mem_axis_on :: bool
  vd_mem_limit :: int

definition class_share :: "config \<Rightarrow> string \<Rightarrow> int" where
  "class_share cfg name =
     (if name = ''interactive'' then cf_interactive_share_cores cfg
      else if name = ''background'' then cf_background_share_cores cfg else cf_total cfg)"

definition class_used :: "usage_figures \<Rightarrow> string \<Rightarrow> int" where
  "class_used u name =
     (if name = ''interactive'' then cu_interactive_used_cores (us_classes u)
      else if name = ''background'' then cu_background_used_cores (us_classes u) else 0)"

definition core_and_memory_verdict ::
  "config \<Rightarrow> usage_figures \<Rightarrow> int \<Rightarrow> int \<Rightarrow> int \<Rightarrow> string option \<Rightarrow> int \<Rightarrow> verdict" where
  "core_and_memory_verdict cfg u priority lease_size req_mem build_class reserve =
     (let total = cf_total cfg;
          used = us_used_cores u;
          non_gate_used = us_non_gate_used_cores u;
          lent = cu_lent_cores (us_classes u);
          gate = (priority \<ge> cf_gate_priority cfg);
          lending = (build_class = Some ''interactive'' \<and> cf_dynamic_lending cfg);
          core_limit = (if gate then total
            else if lending
              then max (guaranteed_limit cfg) (total - cu_gate_used_cores (us_classes u) - reserve)
            else guaranteed_limit cfg);
          core_limit_class = (if gate then ''host''
            else if lending then ''interactive_lending'' else ''non_gate'');
          total_exceeded = (if gate then (used - lent) + lease_size > total
            else used + lease_size > total);
          share_exceeded = (\<not> gate \<and> (case build_class of
              Some name \<Rightarrow> name \<in> set BUILD_CLASSES
                \<and> class_used u name + lease_size > class_share cfg name
            | None \<Rightarrow> False));
          class_exceeded = (if gate then total_exceeded
            else non_gate_used + lease_size > core_limit \<or> share_exceeded);
          mem_axis_on = (cf_total_mem_mb cfg > 0);
          used_mem = (case us_mem u of Some m \<Rightarrow> mu_used_mem_mb m | None \<Rightarrow> 0);
          mem_limit = (if gate then cf_total_mem_mb cfg else non_gate_mem_limit cfg);
          used_mem_for_limit = (if gate then used_mem
            else (case us_mem u of Some m \<Rightarrow> mu_non_gate_used_mem_mb m | None \<Rightarrow> 0));
          total_mem_exceeded = (mem_axis_on \<and> used_mem + req_mem > cf_total_mem_mb cfg);
          class_mem_exceeded = (mem_axis_on \<and> used_mem_for_limit + req_mem > mem_limit)
      in \<lparr>vd_total_exceeded = total_exceeded, vd_class_exceeded = class_exceeded,
          vd_share_exceeded = share_exceeded, vd_core_limit = core_limit,
          vd_core_limit_class = core_limit_class,
          vd_mem_exceeded = (total_mem_exceeded \<or> class_mem_exceeded),
          vd_mem_axis_on = mem_axis_on, vd_mem_limit = mem_limit\<rparr>)"

definition exceeded :: "verdict \<Rightarrow> bool" where
  "exceeded v = (vd_total_exceeded v \<or> vd_class_exceeded v \<or> vd_mem_exceeded v)"

definition admits :: "config \<Rightarrow> pydict list \<Rightarrow> int \<Rightarrow> int \<Rightarrow> int \<Rightarrow> bool" where
  "admits cfg records priority cores mem_mb =
     (\<not> exceeded (core_and_memory_verdict cfg (usage records cfg) priority cores mem_mb None 0))"

text \<open>The partial grant of \<open>acquire\<close>: the sizes below the request, largest first.\<close>

fun partial_sizes ::
  "config \<Rightarrow> usage_figures \<Rightarrow> int \<Rightarrow> string option \<Rightarrow> int \<Rightarrow> (int \<Rightarrow> int) \<Rightarrow> int list
    \<Rightarrow> (int \<times> int \<times> verdict) option" where
  "partial_sizes cfg u priority build_class reserve size_mem [] = None"
| "partial_sizes cfg u priority build_class reserve size_mem (n_cores # sizes) =
     (let trial = core_and_memory_verdict cfg u priority n_cores (size_mem n_cores) build_class reserve in
      if \<not> exceeded trial then Some (n_cores, size_mem n_cores, trial)
      else partial_sizes cfg u priority build_class reserve size_mem sizes)"

definition floor_grant ::
  "bool \<Rightarrow> pyval \<Rightarrow> config \<Rightarrow> pydict list \<Rightarrow> int \<Rightarrow> int \<Rightarrow> int \<Rightarrow> (int \<times> int) option" where
  "floor_grant allow_floor kind cfg active priority lease_size req_mem =
     (if \<not> allow_floor then None
      else if priority \<ge> cf_gate_priority cfg \<or> is_vm_kind kind then None
      else let floor_cores = cf_agent_floor_cores cfg; floor_pool = cf_agent_floor_pool_cores cfg in
      if floor_cores \<le> 0 \<or> floor_pool \<le> 0 then None
      else let floor_used = sum_over cores_of (filter is_floor active);
               n_cores = min (min lease_size floor_cores) (floor_pool - floor_used) in
      if n_cores < 1 then None
      else let mem = max 1 (req_mem * n_cores div lease_size);
               charge = (\<lambda>r. record_mem_mb r (cf_per_job_mem_mb cfg));
               used_all = sum_over charge active;
               non_gate_all = sum_over charge
                 (filter (\<lambda>r. priority_of r < cf_gate_priority cfg) active) in
      if cf_total_mem_mb cfg > 0
         \<and> (used_all + mem > cf_total_mem_mb cfg \<or> non_gate_all + mem > non_gate_mem_limit cfg)
      then None
      else Some (n_cores, mem))"

subsection \<open>Dynamic lending\<close>

definition interactive_limit :: "pydict list \<Rightarrow> config \<Rightarrow> int \<Rightarrow> int" where
  "interactive_limit records cfg reserve =
     (if \<not> cf_dynamic_lending cfg then guaranteed_limit cfg
      else let gate_used = sum_over cores_of
             (filter (\<lambda>r. \<not> is_floor r \<and> is_gate_record r cfg) records)
           in max (guaranteed_limit cfg) (cf_total cfg - gate_used - reserve))"

definition class_available :: "pydict list \<Rightarrow> config \<Rightarrow> int \<Rightarrow> int \<times> int" where
  "class_available records cfg reserve =
     (let live = filter (\<lambda>r. \<not> is_floor r) records;
          current = usage live cfg;
          host_free = max 0 (cf_total cfg - us_used_cores current);
          non_gate_used = us_non_gate_used_cores current;
          interactive = min (min host_free (max 0 (interactive_limit live cfg reserve - non_gate_used)))
            (max 0 (cf_interactive_share_cores cfg - cu_interactive_used_cores (us_classes current)));
          background = min (min host_free (max 0 (guaranteed_limit cfg - non_gate_used)))
            (max 0 (cf_background_share_cores cfg - cu_background_used_cores (us_classes current)))
      in (interactive, background))"

text \<open>The loop of \<open>reconcile_borrowers\<close> that attributes lent cores, newest borrower first.\<close>

fun to_preempt :: "int \<Rightarrow> int \<Rightarrow> pydict list \<Rightarrow> string list" where
  "to_preempt lent overlap [] = []"
| "to_preempt lent overlap (record # records) =
     (if lent \<le> 0 \<or> overlap \<le> 0 then []
      else let share = min (cores_of record) lent in
        if share > 0 then id_str record # to_preempt (lent - share) (overlap - share) records
        else to_preempt (lent - share) overlap records)"

definition borrowers :: "pydict list \<Rightarrow> pydict list" where
  "borrowers non_gate =
     map (\<lambda>row. snd (snd row))
       (rev (sort_key (\<lambda>row. (fst row, fst (snd row)))
         (map (\<lambda>(i, r). (text_field r ''created_at'', i, r))
           (filter (\<lambda>(i, r). dget r ''build_class'' = PStr ''interactive'')
             (List.enumerate 0 non_gate)))))"

record qos_action =
  qa_pid :: int
  qa_qos :: string
  qa_id :: string

definition is_preempted :: "pydict \<Rightarrow> bool" where
  "is_preempted record = (dget record ''preempted'' = PBool True)"

definition mark_borrower :: "string \<Rightarrow> string list \<Rightarrow> pydict \<Rightarrow> pydict" where
  "mark_borrower now wanted record =
     (if is_floor record then record
      else if id_str record \<in> set wanted \<and> \<not> is_preempted record
        then dupdate record [(''preempted'', PBool True), (''preempted_at'', PStr now)]
      else if is_preempted record \<and> id_str record \<notin> set wanted
        then dpop record [''preempted'', ''preempted_at'']
      else record)"

definition borrower_actions :: "string list \<Rightarrow> pydict \<Rightarrow> qos_action list" where
  "borrower_actions wanted record =
     (let action = (\<lambda>qos. [\<lparr>qa_pid = record_int record ''pid'' 0, qa_qos = qos, qa_id = id_str record\<rparr>]) in
      if is_floor record then []
      else if id_str record \<in> set wanted \<and> \<not> is_preempted record then action ''background''
      else if is_preempted record \<and> id_str record \<notin> set wanted then action ''normal''
      else [])"

definition preempt_ids :: "pydict list \<Rightarrow> config \<Rightarrow> string list" where
  "preempt_ids records cfg =
     (let live = filter (\<lambda>r. \<not> is_floor r) records;
          used = sum_over cores_of live;
          non_gate = filter (\<lambda>r. \<not> is_gate_record r cfg) live;
          lent = (if lending_active live cfg
            then max 0 (sum_over cores_of non_gate - guaranteed_limit cfg) else 0)
      in to_preempt lent (used - cf_total cfg) (borrowers non_gate))"

definition reconcile_borrowers :: "host \<Rightarrow> pydict list \<Rightarrow> config \<Rightarrow> pydict list \<times> qos_action list" where
  "reconcile_borrowers h records cfg =
     (let wanted = preempt_ids records cfg; now = iso (utcnow h)
      in (map (mark_borrower now wanted) records, concat (map (borrower_actions wanted) records)))"

subsection \<open>Every configuration is a consistent split\<close>

text \<open>The guaranteed non-gate budget and the gate reserve are the two parts of the total.\<close>

definition config_ok :: "config \<Rightarrow> bool" where
  "config_ok cfg =
     (1 \<le> cf_total cfg \<and> 0 \<le> cf_reserved_gate_cores cfg
      \<and> guaranteed_limit cfg + cf_reserved_gate_cores cfg = cf_total cfg
      \<and> 0 \<le> cf_gate_prompt_reserve_cores cfg
      \<and> cf_gate_prompt_reserve_cores cfg \<le> cf_reserved_gate_cores cfg
      \<and> 1 \<le> cf_interactive_share_cores cfg \<and> 1 \<le> cf_background_share_cores cfg
      \<and> 1 \<le> cf_waiter_fresh_secs cfg
      \<and> 0 \<le> cf_agent_floor_cores cfg
      \<and> cf_agent_floor_cores cfg \<le> cf_agent_floor_pool_cores cfg
      \<and> 0 \<le> cf_total_mem_mb cfg \<and> 1 \<le> cf_per_job_mem_mb cfg
      \<and> 0 \<le> cf_reserved_gate_mem_mb cfg
      \<and> (cf_per_job_mem_mb cfg \<le> cf_total_mem_mb cfg \<longrightarrow>
           non_gate_mem_limit cfg + cf_reserved_gate_mem_mb cfg = cf_total_mem_mb cfg))"

lemma core_split:
  "(if t > 1 then min (max 0 r) (max 0 (t - 1)) else 0) = s \<Longrightarrow>
     0 \<le> s \<and> max 1 (max 1 t - s) + s = max 1 (t::int)"
  by (auto simp: min_def max_def split: if_splits)

lemma memory_split:
  "(if t > j then min (max 0 r) (t - j) else 0) = s \<Longrightarrow> 1 \<le> j \<Longrightarrow> 0 \<le> t \<Longrightarrow>
     0 \<le> s \<and> (j \<le> t \<longrightarrow> max j (t - s) + s = (t::int))"
  by (auto simp: min_def max_def split: if_splits)

lemma core_override_nonneg: "0 \<le> d \<Longrightarrow> 0 \<le> core_override v d"
  by (auto simp: core_override_def split: option.split)

lemma config_of_profile_ok:
  assumes "classes_ok lc rg ng (pf_classes p)"
  shows "config_ok (config_of_profile a p)"
proof -
  have prompt: "0 \<le> core_override (ca_gate_prompt_reserve_cores a) (bc_gate_prompt_reserve_cores (pf_classes p))"
    using assms by (intro core_override_nonneg) (simp add: classes_ok_def)
  define t where "t = (case ca_capacity a of
    Some n \<Rightarrow> if n \<noteq> 0 then n else pf_lease_capacity_cores p | None \<Rightarrow> pf_lease_capacity_cores p)"
  define r where "r = (if t > 1 then min (max 0 (int_override (ca_reserved_gate_cores a)
    (pf_reserved_gate_cores p))) (max 0 (t - 1)) else 0)"
  define j where "j = max 1 (pf_per_compile_job_mem_mb p)"
  define tm where "tm = max 0 (int_override (ca_capacity_mem_mb a) (pf_lease_capacity_mem_mb p))"
  define rm where "rm = (if tm > j then min (max 0 (int_override (ca_reserved_gate_mem_mb a)
    (pf_reserved_gate_mem_mb p))) (tm - j) else 0)"
  define f where "f = max 0 (int_override (ca_agent_floor_cores a) (pf_agent_floor_cores p))"
  have "0 \<le> r \<and> max 1 (max 1 t - r) + r = max 1 t" by (rule core_split) (simp add: r_def)
  moreover have "0 \<le> rm \<and> (j \<le> tm \<longrightarrow> max j (tm - rm) + rm = tm)"
    by (rule memory_split) (simp_all add: rm_def j_def tm_def)
  moreover have "1 \<le> j" "0 \<le> tm" "0 \<le> f" by (simp_all add: j_def tm_def f_def)
  ultimately show ?thesis
    using prompt
    unfolding config_of_profile_def Let_def config_ok_def t_def [symmetric] r_def [symmetric]
      j_def [symmetric] tm_def [symmetric] rm_def [symmetric] f_def [symmetric]
    by simp
qed

lemma capacity_config_ok: "capacity_config e a = Inr cfg \<Longrightarrow> config_ok cfg"
  by (auto simp: capacity_config_def profile_for_args_def split: sum.splits
      intro: config_of_profile_ok dest!: build_profile_shape)

text \<open>C28: every configuration a lease command runs under splits the host consistently, whatever
  overrides the command line carries: the guaranteed non-gate budget and the gate reserve add up
  to the capacity on the core axis, and on the memory axis whenever it has room for one compile
  job; the prompt reserve is within the gate reserve and the floor within its pool.\<close>

theorem capacity_config_consistent:
  "capacity_config e a = Inr cfg \<Longrightarrow> config_ok cfg"
  by (rule capacity_config_ok)

subsection \<open>Charges on each axis\<close>

definition sized :: "pydict \<Rightarrow> bool" where
  "sized record = (0 \<le> cores_of record)"

definition gate_charge :: "config \<Rightarrow> pydict \<Rightarrow> int" where
  "gate_charge cfg record = (if \<not> is_floor record \<and> is_gate_record record cfg then cores_of record else 0)"

definition non_gate_charge :: "config \<Rightarrow> pydict \<Rightarrow> int" where
  "non_gate_charge cfg record =
     (if \<not> is_floor record \<and> \<not> is_gate_record record cfg then cores_of record else 0)"

definition guaranteed_charge :: "config \<Rightarrow> pydict \<Rightarrow> int" where
  "guaranteed_charge cfg record = (if is_borrowed record then 0 else non_gate_charge cfg record)"

definition floor_charge :: "pydict \<Rightarrow> int" where
  "floor_charge record = (if is_floor record then cores_of record else 0)"

definition mem_charge :: "config \<Rightarrow> pydict \<Rightarrow> int" where
  "mem_charge cfg record =
     (if is_floor record then 0 else record_mem_mb record (cf_per_job_mem_mb cfg))"

definition non_gate_mem_charge :: "config \<Rightarrow> pydict \<Rightarrow> int" where
  "non_gate_mem_charge cfg record = (if is_gate_record record cfg then 0 else mem_charge cfg record)"

lemmas charge_defs = gate_charge_def non_gate_charge_def guaranteed_charge_def floor_charge_def
  mem_charge_def non_gate_mem_charge_def

lemma record_mem_nonneg: "sized record \<Longrightarrow> 0 \<le> per_job \<Longrightarrow> 0 \<le> record_mem_mb record per_job"
  by (simp add: record_mem_mb_def sized_def Let_def)

interpretation gate_axis: budget "gate_charge cfg" sized for cfg
  by unfold_locales (simp add: charge_defs sized_def)

interpretation non_gate_axis: budget "non_gate_charge cfg" sized for cfg
  by unfold_locales (simp add: charge_defs sized_def)

interpretation guaranteed_axis: budget "guaranteed_charge cfg" sized for cfg
  by unfold_locales (simp add: charge_defs sized_def)

interpretation floor_axis: budget floor_charge sized
  by unfold_locales (simp add: charge_defs sized_def)

interpretation mem_axis: budget "mem_charge cfg" "\<lambda>r. sized r \<and> 0 \<le> cf_per_job_mem_mb cfg" for cfg
  by unfold_locales (simp add: charge_defs record_mem_nonneg)

interpretation non_gate_mem_axis:
  budget "non_gate_mem_charge cfg" "\<lambda>r. sized r \<and> 0 \<le> cf_per_job_mem_mb cfg" for cfg
  by unfold_locales (simp add: charge_defs record_mem_nonneg)

text \<open>The figures the code sums are these charges.\<close>

lemma usage_cores:
  "us_used_cores (usage rs cfg) = sum_over (gate_charge cfg) rs + sum_over (non_gate_charge cfg) rs"
  "us_non_gate_used_cores (usage rs cfg) = sum_over (non_gate_charge cfg) rs"
  "cu_gate_used_cores (us_classes (usage rs cfg)) = sum_over (gate_charge cfg) rs"
  by (induction rs) (auto simp: usage_def class_usage_def Let_def charge_defs is_gate_record_def)

lemma usage_lent:
  "cu_lent_cores (us_classes (usage rs cfg)) =
     (if lending_active rs cfg then max 0 (sum_over (non_gate_charge cfg) rs - guaranteed_limit cfg) else 0)"
proof -
  have "sum_over cores_of (filter (\<lambda>r. \<not> is_gate_record r cfg) (filter (\<lambda>r. \<not> is_floor r) rs))
      = sum_over (non_gate_charge cfg) rs"
    by (induction rs) (auto simp: charge_defs)
  then show ?thesis by (simp add: usage_def class_usage_def Let_def lending_active_def)
qed

lemma usage_mem:
  "us_mem (usage rs cfg) = Some m \<Longrightarrow> mu_used_mem_mb m = sum_over (mem_charge cfg) rs"
  "us_mem (usage rs cfg) = Some m \<Longrightarrow> mu_non_gate_used_mem_mb m = sum_over (non_gate_mem_charge cfg) rs"
proof -
  have "sum_over (\<lambda>r. record_mem_mb r (cf_per_job_mem_mb cfg)) (filter (\<lambda>r. \<not> is_floor r) rs)
      = sum_over (mem_charge cfg) rs"
    by (induction rs) (auto simp: charge_defs)
  moreover have "sum_over (\<lambda>r. record_mem_mb r (cf_per_job_mem_mb cfg))
      (filter (\<lambda>r. priority_of r < cf_gate_priority cfg) (filter (\<lambda>r. \<not> is_floor r) rs))
      = sum_over (non_gate_mem_charge cfg) rs"
    by (induction rs) (auto simp: charge_defs is_gate_record_def)
  moreover assume "us_mem (usage rs cfg) = Some m"
  ultimately show "mu_used_mem_mb m = sum_over (mem_charge cfg) rs"
    "mu_non_gate_used_mem_mb m = sum_over (non_gate_mem_charge cfg) rs"
    by (auto simp: usage_def Let_def split: if_splits)
qed

lemma usage_mem_on: "(us_mem (usage rs cfg) = None) = (\<not> 0 < cf_total_mem_mb cfg)"
  by (simp add: usage_def Let_def)

lemma floor_used: "sum_over cores_of (filter is_floor rs) = sum_over floor_charge rs"
  by (induction rs) (auto simp: charge_defs)

subsection \<open>What an admission preserves\<close>

text \<open>
  The invariant of the core axis. With \<open>G\<close> the gate leases' cores, \<open>NG\<close> everyone
  else's and \<open>N\<close> the guaranteed non-gate budget, \<open>G + min NG N\<close> never exceeds the
  total: cores beyond \<open>N\<close> are lent and a gate does not count them. The leases that
  are not marked as borrowed stay within \<open>N\<close>, and only interactive builds borrow.
\<close>

definition borrow_marked :: "pydict \<Rightarrow> bool" where
  "borrow_marked record = (is_borrowed record \<longrightarrow> dget record ''build_class'' = PStr ''interactive'')"

definition core_inv :: "config \<Rightarrow> pydict list \<Rightarrow> bool" where
  "core_inv cfg rs =
     (list_all sized rs \<and> list_all borrow_marked rs
      \<and> sum_over (gate_charge cfg) rs + min (sum_over (non_gate_charge cfg) rs) (guaranteed_limit cfg)
          \<le> cf_total cfg
      \<and> sum_over (guaranteed_charge cfg) rs \<le> guaranteed_limit cfg)"

definition mem_inv :: "config \<Rightarrow> pydict list \<Rightarrow> bool" where
  "mem_inv cfg rs =
     (0 < cf_total_mem_mb cfg \<longrightarrow>
        sum_over (mem_charge cfg) rs \<le> cf_total_mem_mb cfg
        \<and> sum_over (non_gate_mem_charge cfg) rs \<le> non_gate_mem_limit cfg)"

definition floor_inv :: "config \<Rightarrow> pydict list \<Rightarrow> bool" where
  "floor_inv cfg rs = (sum_over floor_charge rs \<le> cf_agent_floor_pool_cores cfg)"

lemma core_inv_mset: "mset rs = mset ss \<Longrightarrow> core_inv cfg rs = core_inv cfg ss"
  using sum_over_mset [of rs ss] mset_eq_setD [of rs ss]
  by (simp add: core_inv_def list_all_iff)

lemma mem_inv_mset: "mset rs = mset ss \<Longrightarrow> mem_inv cfg rs = mem_inv cfg ss"
  using sum_over_mset [of rs ss] by (simp add: mem_inv_def)

lemma floor_inv_mset: "mset rs = mset ss \<Longrightarrow> floor_inv cfg rs = floor_inv cfg ss"
  using sum_over_mset [of rs ss] by (simp add: floor_inv_def)

lemma core_inv_filter: "core_inv cfg rs \<Longrightarrow> core_inv cfg (filter P rs)"
  using gate_axis.spent_filter_le [of rs cfg P] non_gate_axis.spent_filter_le [of rs cfg P]
    guaranteed_axis.spent_filter_le [of rs cfg P]
  by (auto simp: core_inv_def list_all_iff)

lemma mem_inv_filter:
  "mem_inv cfg rs \<Longrightarrow> list_all sized rs \<Longrightarrow> config_ok cfg \<Longrightarrow> mem_inv cfg (filter P rs)"
  using mem_axis.spent_filter_le [of rs cfg P] non_gate_mem_axis.spent_filter_le [of rs cfg P]
  by (auto simp: mem_inv_def list_all_iff config_ok_def)

lemma floor_inv_filter: "floor_inv cfg rs \<Longrightarrow> list_all sized rs \<Longrightarrow> floor_inv cfg (filter P rs)"
  using floor_axis.spent_filter_le [of rs P] by (auto simp: floor_inv_def list_all_iff)

lemma gate_verdict:
  assumes "\<not> vd_total_exceeded (core_and_memory_verdict cfg (usage rs cfg) p n m bc res)"
    and "cf_gate_priority cfg \<le> p"
  shows "sum_over (gate_charge cfg) rs + min (sum_over (non_gate_charge cfg) rs) (guaranteed_limit cfg) + n
    \<le> cf_total cfg"
  using assms by (auto simp: core_and_memory_verdict_def Let_def usage_cores usage_lent split: if_splits)

lemma non_gate_verdict:
  assumes "\<not> exceeded (core_and_memory_verdict cfg (usage rs cfg) p n m bc res)"
    and "\<not> cf_gate_priority cfg \<le> p"
  shows "sum_over (gate_charge cfg) rs + sum_over (non_gate_charge cfg) rs + n \<le> cf_total cfg"
    and "\<not> (bc = Some ''interactive'' \<and> cf_dynamic_lending cfg) \<Longrightarrow>
      sum_over (non_gate_charge cfg) rs + n \<le> guaranteed_limit cfg"
  using assms
  by (auto simp: exceeded_def core_and_memory_verdict_def Let_def usage_cores split: if_splits)

lemma mem_verdict:
  assumes "\<not> vd_mem_exceeded (core_and_memory_verdict cfg (usage rs cfg) p n m bc res)"
    and "0 < cf_total_mem_mb cfg"
  shows "sum_over (mem_charge cfg) rs + m \<le> cf_total_mem_mb cfg"
    and "\<not> cf_gate_priority cfg \<le> p \<Longrightarrow> sum_over (non_gate_mem_charge cfg) rs + m \<le> non_gate_mem_limit cfg"
proof -
  obtain u where u: "us_mem (usage rs cfg) = Some u"
    using assms(2) usage_mem_on [of rs cfg] by auto
  show "sum_over (mem_charge cfg) rs + m \<le> cf_total_mem_mb cfg"
    and "\<not> cf_gate_priority cfg \<le> p \<Longrightarrow> sum_over (non_gate_mem_charge cfg) rs + m \<le> non_gate_mem_limit cfg"
    using assms u usage_mem [OF u] by (auto simp: core_and_memory_verdict_def Let_def)
qed

lemma core_inv_admit:
  assumes "core_inv cfg rs"
    and ok: "\<not> exceeded (core_and_memory_verdict cfg (usage rs cfg) (priority_of r) (cores_of r) m bc res)"
    and "sized r" "borrow_marked r" "\<not> is_floor r"
    and room: "\<not> is_gate_record r cfg \<Longrightarrow> \<not> is_borrowed r \<Longrightarrow>
      sum_over (non_gate_charge cfg) rs + cores_of r \<le> guaranteed_limit cfg"
  shows "core_inv cfg (rs @ [r])"
proof -
  have "sum_over (gate_charge cfg) (rs @ [r])
      + min (sum_over (non_gate_charge cfg) (rs @ [r])) (guaranteed_limit cfg) \<le> cf_total cfg"
  proof (cases "is_gate_record r cfg")
    case True
    with ok have "sum_over (gate_charge cfg) rs + min (sum_over (non_gate_charge cfg) rs) (guaranteed_limit cfg)
        + cores_of r \<le> cf_total cfg"
      by (intro gate_verdict) (auto simp: exceeded_def is_gate_record_def)
    with True assms(5) show ?thesis by (simp add: charge_defs)
  next
    case False
    with ok have "sum_over (gate_charge cfg) rs + sum_over (non_gate_charge cfg) rs + cores_of r \<le> cf_total cfg"
      by (intro non_gate_verdict) (auto simp: is_gate_record_def)
    with False assms(5) show ?thesis by (simp add: charge_defs)
  qed
  moreover have "sum_over (guaranteed_charge cfg) (rs @ [r]) \<le> guaranteed_limit cfg"
  proof (cases "is_gate_record r cfg \<or> is_borrowed r")
    case True
    with assms(1) show ?thesis by (auto simp: core_inv_def charge_defs)
  next
    case False
    have "guaranteed_charge cfg x \<le> non_gate_charge cfg x" if "x \<in> set rs" for x
      using that assms(1) by (auto simp: core_inv_def list_all_iff charge_defs sized_def)
    then have "sum_over (guaranteed_charge cfg) rs \<le> sum_over (non_gate_charge cfg) rs"
      unfolding sum_over_def by (rule sum_list_mono)
    with False room assms(5) show ?thesis by (simp add: charge_defs)
  qed
  ultimately show ?thesis using assms by (simp add: core_inv_def)
qed

lemma mem_inv_admit:
  assumes "mem_inv cfg rs"
    and "\<not> exceeded (core_and_memory_verdict cfg (usage rs cfg) (priority_of r) n m bc res)"
    and "record_mem_mb r (cf_per_job_mem_mb cfg) = m" "\<not> is_floor r"
  shows "mem_inv cfg (rs @ [r])"
  using assms mem_verdict [of cfg rs "priority_of r" n m bc res]
  by (auto simp: mem_inv_def exceeded_def charge_defs is_gate_record_def)

text \<open>A floor lease is charged to nobody else.\<close>

lemma floor_charges:
  assumes "is_floor r"
  shows "gate_charge cfg r = 0" "non_gate_charge cfg r = 0" "guaranteed_charge cfg r = 0"
    "mem_charge cfg r = 0" "non_gate_mem_charge cfg r = 0"
  using assms by (simp_all add: charge_defs)

lemma core_inv_floor:
  "core_inv cfg rs \<Longrightarrow> sized r \<Longrightarrow> borrow_marked r \<Longrightarrow> is_floor r \<Longrightarrow> core_inv cfg (rs @ [r])"
  by (simp add: core_inv_def floor_charges)

lemma mem_inv_floor: "mem_inv cfg rs \<Longrightarrow> is_floor r \<Longrightarrow> mem_inv cfg (rs @ [r])"
  by (simp add: mem_inv_def floor_charges)

lemma floor_grant_SomeD:
  assumes "floor_grant allow kind cfg rs p n m = Some (k, mem)"
  shows "allow \<and> \<not> cf_gate_priority cfg \<le> p \<and> \<not> is_vm_kind kind
    \<and> k = min (min n (cf_agent_floor_cores cfg)) (cf_agent_floor_pool_cores cfg - sum_over floor_charge rs)
    \<and> 1 \<le> k \<and> mem = max 1 (m * k div n)
    \<and> (0 < cf_total_mem_mb cfg \<longrightarrow>
        sum_over (\<lambda>r. record_mem_mb r (cf_per_job_mem_mb cfg)) rs + mem \<le> cf_total_mem_mb cfg)"
proof -
  define k' where "k' = min (min n (cf_agent_floor_cores cfg))
    (cf_agent_floor_pool_cores cfg - sum_over floor_charge rs)"
  define q where "q = max 1 (m * k' div n)"
  show ?thesis
    using assms
    unfolding floor_grant_def Let_def floor_used k'_def [symmetric] q_def [symmetric]
    by (auto simp: k'_def [symmetric] q_def split: if_splits)
qed

lemma floor_grant_bounds:
  assumes "floor_grant allow kind cfg rs p n m = Some (k, mem)"
  shows "1 \<le> k" "k \<le> n" "k \<le> cf_agent_floor_cores cfg" "1 \<le> mem"
    "sum_over floor_charge rs + k \<le> cf_agent_floor_pool_cores cfg"
proof -
  note k = floor_grant_SomeD [OF assms]
  then have "k \<le> n \<and> k \<le> cf_agent_floor_cores cfg \<and> k \<le> cf_agent_floor_pool_cores cfg - sum_over floor_charge rs"
    by (metis min.cobounded1 min.cobounded2 order_trans)
  with k show "1 \<le> k" "k \<le> n" "k \<le> cf_agent_floor_cores cfg" "1 \<le> mem"
    "sum_over floor_charge rs + k \<le> cf_agent_floor_pool_cores cfg" by (simp_all only: max.cobounded1) linarith
qed

subsection \<open>The gate's guarantee\<close>

lemma no_borrowers_guaranteed:
  assumes "\<not> lending_active rs cfg"
  shows "sum_over (guaranteed_charge cfg) rs = sum_over (non_gate_charge cfg) rs"
  using assms by (intro sum_over_cong) (auto simp: lending_active_def list_ex_iff charge_defs)

lemma gate_counted:
  assumes "core_inv cfg rs"
  shows "us_used_cores (usage rs cfg) - cu_lent_cores (us_classes (usage rs cfg))
    = sum_over (gate_charge cfg) rs + min (sum_over (non_gate_charge cfg) rs) (guaranteed_limit cfg)"
  using assms no_borrowers_guaranteed [of rs cfg]
  by (auto simp: usage_cores usage_lent core_inv_def)

lemma gate_cores_fit:
  assumes "config_ok cfg" and "core_inv cfg rs" and "cf_gate_priority cfg \<le> p"
    and "sum_over (gate_charge cfg) rs + n \<le> cf_reserved_gate_cores cfg"
  shows "\<not> vd_total_exceeded (core_and_memory_verdict cfg (usage rs cfg) p n m bc res)
    \<and> \<not> vd_class_exceeded (core_and_memory_verdict cfg (usage rs cfg) p n m bc res)"
proof -
  have "min (sum_over (non_gate_charge cfg) rs) (guaranteed_limit cfg) \<le> guaranteed_limit cfg" by simp
  moreover have "guaranteed_limit cfg + cf_reserved_gate_cores cfg = cf_total cfg"
    using assms(1) by (simp add: config_ok_def)
  ultimately have "us_used_cores (usage rs cfg) - cu_lent_cores (us_classes (usage rs cfg)) + n \<le> cf_total cfg"
    using assms(4) gate_counted [OF assms(2)] by linarith
  with assms(3) show ?thesis by (simp add: core_and_memory_verdict_def Let_def)
qed

lemma gate_memory_fits:
  assumes "config_ok cfg" and "mem_inv cfg rs" and "cf_gate_priority cfg \<le> p"
    and "cf_per_job_mem_mb cfg \<le> cf_total_mem_mb cfg"
    and "sum_over (mem_charge cfg) rs - sum_over (non_gate_mem_charge cfg) rs + m
           \<le> cf_reserved_gate_mem_mb cfg"
  shows "\<not> vd_mem_exceeded (core_and_memory_verdict cfg (usage rs cfg) p n m bc res)"
proof (cases "us_mem (usage rs cfg)")
  case None
  then show ?thesis by (simp add: core_and_memory_verdict_def Let_def usage_mem_on)
next
  case (Some u)
  moreover from Some have "0 < cf_total_mem_mb cfg" using usage_mem_on [of rs cfg] by fastforce
  ultimately show ?thesis
    using assms usage_mem [OF Some]
    by (simp add: core_and_memory_verdict_def Let_def config_ok_def mem_inv_def)
qed

text \<open>the gate always finds its reserve. In every store that satisfies the core invariant, with
  lending on or off and whatever interactive builds have borrowed, a gate request that fits the
  gate reserve beside the gate leases already held is not refused for cores.\<close>

theorem gate_reserve_guaranteed:
  "config_ok cfg \<Longrightarrow> core_inv cfg rs \<Longrightarrow> cf_gate_priority cfg \<le> p \<Longrightarrow>
     sum_over (gate_charge cfg) rs + n \<le> cf_reserved_gate_cores cfg \<Longrightarrow>
     \<not> vd_total_exceeded (core_and_memory_verdict cfg (usage rs cfg) p n m bc res)
     \<and> \<not> vd_class_exceeded (core_and_memory_verdict cfg (usage rs cfg) p n m bc res)"
  by (rule gate_cores_fit)

text \<open>the memory reserve protects the gate the same way: when the host has room for a compile
  job, a gate request that fits the gate's memory reserve beside the gate leases' memory is not
  refused for memory.\<close>

theorem gate_memory_guaranteed:
  "config_ok cfg \<Longrightarrow> mem_inv cfg rs \<Longrightarrow> cf_gate_priority cfg \<le> p \<Longrightarrow>
     cf_per_job_mem_mb cfg \<le> cf_total_mem_mb cfg \<Longrightarrow>
     sum_over (mem_charge cfg) rs - sum_over (non_gate_mem_charge cfg) rs + m
       \<le> cf_reserved_gate_mem_mb cfg \<Longrightarrow>
     \<not> vd_mem_exceeded (core_and_memory_verdict cfg (usage rs cfg) p n m bc res)"
  by (rule gate_memory_fits)

subsection \<open>Borrowers yield\<close>

lemma borrowers_mset:
  "mset (borrowers rs) = mset (filter (\<lambda>r. dget r ''build_class'' = PStr ''interactive'') rs)"
proof -
  have "mset (borrowers rs) = image_mset snd
      (filter_mset (\<lambda>x. dget (snd x) ''build_class'' = PStr ''interactive'') (mset (List.enumerate 0 rs)))"
    by (simp add: borrowers_def multiset.map_comp comp_def case_prod_beta)
  also have "\<dots> = filter_mset (\<lambda>r. dget r ''build_class'' = PStr ''interactive'')
      (image_mset snd (mset (List.enumerate 0 rs)))"
    by (simp add: filter_mset_image_mset case_prod_beta)
  also have "image_mset snd (mset (List.enumerate 0 rs)) = mset rs"
    by (metis map_snd_enumerate mset_map)
  finally show ?thesis by simp
qed

lemma to_preempt_covers:
  assumes "\<forall>r \<in> set rs. sized r" and "overlap \<le> lent" and "lent \<le> sum_over cores_of rs"
  shows "overlap \<le> sum_over (\<lambda>r. if id_str r \<in> set (to_preempt lent overlap rs) then cores_of r else 0) rs"
  using assms
proof (induction lent overlap rs rule: to_preempt.induct)
  case (2 lent overlap r rs)
  show ?case
  proof (cases "lent \<le> 0 \<or> overlap \<le> 0")
    case True
    then have "overlap \<le> 0" using 2 by auto
    then show ?thesis
      using True by (simp add: sum_over_def)
  next
    case False
    let ?share = "min (cores_of r) lent"
    let ?sel = "\<lambda>ids x. if id_str x \<in> set ids then cores_of x else 0"
    have sz: "\<forall>x \<in> set rs. sized x" "0 \<le> cores_of r" using "2.prems"(1) by (auto simp: sized_def)
    have mono: "sum_over (?sel ids) rs \<le> sum_over (?sel (i # ids)) rs" for i ids
      unfolding sum_over_def using sz by (intro sum_list_mono) (auto simp: sized_def)
    show ?thesis
    proof (cases "0 < ?share")
      case share: True
      let ?ids = "to_preempt (lent - ?share) (overlap - ?share) rs"
      have "overlap - ?share \<le> sum_over (?sel ?ids) rs"
      proof (cases "cores_of r \<le> lent")
        case True
        then show ?thesis using "2.IH"(1) [OF False refl share sz(1)] "2.prems" by simp
      next
        case False
        then have "overlap - ?share \<le> 0" using "2.prems"(2) by simp
        also have "0 \<le> sum_over (?sel ?ids) rs"
          unfolding sum_over_def using sz by (intro sum_list_nonneg) (auto simp: sized_def)
        finally show ?thesis .
      qed
      also have "\<dots> \<le> sum_over (?sel (id_str r # ?ids)) rs" by (rule mono)
      finally show ?thesis using False share by (simp add: Let_def)
    next
      case share: False
      then have "cores_of r = 0" using sz False by auto
      then show ?thesis using "2.IH"(2) [OF False refl share sz(1)] "2.prems" False by (simp add: Let_def)
    qed
  qed
qed simp

text \<open>Two records with the same accounting fields are charged the same.\<close>

definition accounting_keys :: "string set" where
  "accounting_keys = {''id'', ''floor'', ''borrowed'', ''build_class'', ''priority'',
     ''lease_size_cores'', ''lease_size_mem_mb''}"

definition same_accounting :: "pydict \<Rightarrow> pydict \<Rightarrow> bool" where
  "same_accounting r s = (\<forall>k \<in> accounting_keys. r k = s k)"

lemma same_reads:
  assumes "same_accounting r s" and "k \<in> accounting_keys"
  shows "dget r k = dget s k" "has_key r k = has_key s k" "record_int r k d = record_int s k d"
  using assms by (simp_all add: same_accounting_def dget_def has_key_def record_int_def)

lemma same_accountingD:
  assumes "same_accounting r s"
  shows "dget r ''id'' = dget s ''id''" "is_floor r = is_floor s" "is_borrowed r = is_borrowed s"
    "dget r ''build_class'' = dget s ''build_class''" "priority_of r = priority_of s"
    "cores_of r = cores_of s" "record_mem_mb r j = record_mem_mb s j"
    "is_gate_record r cfg = is_gate_record s cfg" "sized r = sized s" "borrow_marked r = borrow_marked s"
  using same_reads [OF assms]
  by (simp_all add: accounting_keys_def is_floor_def is_borrowed_def record_mem_mb_def
      is_gate_record_def sized_def borrow_marked_def Let_def)

lemma same_charges:
  assumes "same_accounting r s"
  shows "gate_charge cfg r = gate_charge cfg s" "non_gate_charge cfg r = non_gate_charge cfg s"
    "guaranteed_charge cfg r = guaranteed_charge cfg s" "floor_charge r = floor_charge s"
    "mem_charge cfg r = mem_charge cfg s" "non_gate_mem_charge cfg r = non_gate_mem_charge cfg s"
  using same_accountingD [OF assms] by (simp_all add: charge_defs)

lemma same_accounting_sums:
  assumes "list_all2 same_accounting rs ss"
  shows "sum_over (gate_charge cfg) rs = sum_over (gate_charge cfg) ss"
    "sum_over (non_gate_charge cfg) rs = sum_over (non_gate_charge cfg) ss"
    "sum_over (guaranteed_charge cfg) rs = sum_over (guaranteed_charge cfg) ss"
    "sum_over floor_charge rs = sum_over floor_charge ss"
    "sum_over (mem_charge cfg) rs = sum_over (mem_charge cfg) ss"
    "sum_over (non_gate_mem_charge cfg) rs = sum_over (non_gate_mem_charge cfg) ss"
    "list_all sized rs = list_all sized ss" "list_all borrow_marked rs = list_all borrow_marked ss"
    "map id_str rs = map id_str ss"
  using assms
  by (induction rs ss rule: list_all2_induct) (simp_all add: same_charges same_accountingD)

lemma same_accounting_inv:
  assumes "list_all2 same_accounting rs ss"
  shows "core_inv cfg rs = core_inv cfg ss" "mem_inv cfg rs = mem_inv cfg ss"
    "floor_inv cfg rs = floor_inv cfg ss"
  by (simp_all add: core_inv_def mem_inv_def floor_inv_def same_accounting_sums [OF assms])

lemma mark_borrower_same: "same_accounting (mark_borrower now ids r) r"
  by (simp add: same_accounting_def accounting_keys_def mark_borrower_def)

lemma mark_borrower_preempted:
  "\<not> is_floor r \<Longrightarrow> is_preempted (mark_borrower now ids r) = (id_str r \<in> set ids)"
  by (auto simp: mark_borrower_def is_preempted_def)

lemma reconcile_same:
  "list_all2 same_accounting (fst (reconcile_borrowers h rs cfg)) rs"
  by (simp add: reconcile_borrowers_def Let_def list.rel_map list.rel_refl_strong mark_borrower_same)

text \<open>The cores of the leases that run at normal priority.\<close>

definition running_charge :: "pydict \<Rightarrow> int" where
  "running_charge r = (if is_floor r \<or> is_preempted r then 0 else cores_of r)"

lemma interactive_covers_lent:
  assumes "core_inv cfg rs"
  shows "sum_over (non_gate_charge cfg) rs - guaranteed_limit cfg
    \<le> sum_over cores_of (filter (\<lambda>r. dget r ''build_class'' = PStr ''interactive'')
        (filter (\<lambda>r. \<not> is_gate_record r cfg) (filter (\<lambda>r. \<not> is_floor r) rs)))"
proof -
  have "sum_over (non_gate_charge cfg) rs \<le> sum_over (guaranteed_charge cfg) rs
    + sum_over cores_of (filter (\<lambda>r. dget r ''build_class'' = PStr ''interactive'')
        (filter (\<lambda>r. \<not> is_gate_record r cfg) (filter (\<lambda>r. \<not> is_floor r) rs)))"
    if "list_all sized rs" "list_all borrow_marked rs"
    using that by (induction rs) (auto simp: charge_defs sized_def borrow_marked_def)
  with assms show ?thesis by (simp add: core_inv_def)
qed

lemma preempt_ids_cover:
  assumes "core_inv cfg rs"
  shows "sum_over (gate_charge cfg) rs + sum_over (non_gate_charge cfg) rs - cf_total cfg
    \<le> sum_over (\<lambda>r. if \<not> is_floor r \<and> id_str r \<in> set (preempt_ids rs cfg) then cores_of r else 0) rs"
    (is "?overlap \<le> _")
proof -
  let ?live = "filter (\<lambda>r. \<not> is_floor r) rs"
  let ?ng = "filter (\<lambda>r. \<not> is_gate_record r cfg) ?live"
  let ?inter = "filter (\<lambda>r. dget r ''build_class'' = PStr ''interactive'') ?ng"
  let ?sel = "\<lambda>r. if id_str r \<in> set (preempt_ids rs cfg) then cores_of r else 0"
  define lent where "lent = cu_lent_cores (us_classes (usage rs cfg))"
  have sz: "\<forall>r \<in> set rs. sized r" using assms by (simp add: core_inv_def list_all_iff)
  have sums: "sum_over cores_of ?live = sum_over (gate_charge cfg) rs + sum_over (non_gate_charge cfg) rs"
    "sum_over cores_of ?ng = sum_over (non_gate_charge cfg) rs"
    by (induction rs) (auto simp: charge_defs)
  have act: "lending_active ?live cfg = lending_active rs cfg" by (simp add: lending_active_def)
  have ids: "preempt_ids rs cfg = to_preempt lent ?overlap (borrowers ?ng)"
    unfolding preempt_ids_def Let_def sums act lent_def usage_lent by simp
  have "0 \<le> sum_over cores_of ?inter"
    unfolding sum_over_def using sz by (intro sum_list_nonneg) (auto simp: sized_def)
  then have "lent \<le> sum_over cores_of ?inter"
    using interactive_covers_lent [OF assms] by (simp add: lent_def usage_lent)
  moreover have "?overlap \<le> lent"
    using gate_counted [OF assms] assms by (simp add: lent_def core_inv_def usage_cores)
  moreover have bs: "set (borrowers ?ng) = set ?inter"
    by (metis borrowers_mset set_mset_mset)
  ultimately have "?overlap \<le> sum_over ?sel (borrowers ?ng)"
    unfolding ids using sz sum_over_mset [OF borrowers_mset, of cores_of ?ng]
    by (intro to_preempt_covers) auto
  also have "\<dots> = sum_over ?sel ?inter" by (rule sum_over_mset [OF borrowers_mset])
  also have "\<dots> \<le> sum_over (\<lambda>r. if \<not> is_floor r \<and> id_str r \<in> set (preempt_ids rs cfg) then cores_of r else 0) rs"
    unfolding sum_over_filter_if unfolding sum_over_def using sz by (intro sum_list_mono) (auto simp: sized_def)
  finally show ?thesis .
qed

text \<open>C27: preemption restores the capacity. After \<open>reconcile_borrowers\<close> the leases that still run
  at normal priority fit the host's total, however far gate grants and borrowed leases together
  exceed it.\<close>

theorem reconcile_restores_capacity:
  assumes "core_inv cfg rs"
  shows "sum_over running_charge (fst (reconcile_borrowers h rs cfg)) \<le> cf_total cfg"
proof -
  define w where "w = preempt_ids rs cfg"
  have "running_charge (mark_borrower now w r) =
      gate_charge cfg r + non_gate_charge cfg r
      - (if \<not> is_floor r \<and> id_str r \<in> set w then cores_of r else 0)" for now r
    using same_accountingD [OF mark_borrower_same [of now w r]] mark_borrower_preempted [of r now w]
    by (auto simp: running_charge_def charge_defs)
  then have "sum_over running_charge (map (mark_borrower now w) rs) =
      sum_over (gate_charge cfg) rs + sum_over (non_gate_charge cfg) rs
      - sum_over (\<lambda>r. if \<not> is_floor r \<and> id_str r \<in> set w then cores_of r else 0) rs" for now
    by (induction rs) simp_all
  with preempt_ids_cover [OF assms] show ?thesis
    by (simp add: reconcile_borrowers_def Let_def w_def)
qed

lemma to_preempt_borrower: "i \<in> set (to_preempt lent overlap rs) \<Longrightarrow>
    0 < overlap \<and> (\<exists>r \<in> set rs. id_str r = i)"
  by (induction lent overlap rs rule: to_preempt.induct)
    (auto simp: Let_def split: if_splits)

text \<open>nobody else yields. A lease is marked as preempted only while the host is
  oversubscribed, and it is an interactive build below the gate priority: a gate, a background
  build, a VM or a class-less lease is never preempted.\<close>

theorem reconcile_preempts_interactive_only:
  assumes "distinct (map id_str rs)" and "r \<in> set (fst (reconcile_borrowers h rs cfg))"
    and "\<not> is_floor r" and "is_preempted r"
  shows "dget r ''build_class'' = PStr ''interactive'' \<and> \<not> is_gate_record r cfg
    \<and> cf_total cfg < us_used_cores (usage rs cfg)"
proof -
  let ?w = "preempt_ids rs cfg"
  let ?ng = "filter (\<lambda>r. \<not> is_gate_record r cfg) (filter (\<lambda>r. \<not> is_floor r) rs)"
  obtain r0 where r0: "r0 \<in> set rs" "r = mark_borrower (iso (utcnow h)) ?w r0"
    using assms(2) by (auto simp: reconcile_borrowers_def Let_def)
  note same = same_accountingD [OF mark_borrower_same [of "iso (utcnow h)" ?w r0], folded r0(2)]
  have "id_str r0 \<in> set ?w" using assms(3,4) r0 same mark_borrower_preempted by auto
  then obtain b where b: "b \<in> set (borrowers ?ng)" "id_str b = id_str r0"
    and over: "0 < sum_over cores_of (filter (\<lambda>r. \<not> is_floor r) rs) - cf_total cfg"
    unfolding preempt_ids_def Let_def by (blast dest: to_preempt_borrower)
  have "set (borrowers ?ng) = set (filter (\<lambda>r. dget r ''build_class'' = PStr ''interactive'') ?ng)"
    by (metis borrowers_mset set_mset_mset)
  with b have "b \<in> set rs" "dget b ''build_class'' = PStr ''interactive''" "\<not> is_gate_record b cfg"
    by auto
  moreover have "b = r0"
    using assms(1) r0(1) b(2) \<open>b \<in> set rs\<close> by (metis distinct_map inj_onD)
  ultimately show ?thesis using same over by (simp add: usage_def Let_def)
qed

end
