(* ===== verification/LeaseDisk.thy ===== *)
theory LeaseDisk
  imports Prelude
begin

section \<open>The disk axis of a lease\<close>

text \<open>
  \<open>scripts/lease_disk.py\<close>: the probe of a storage root, the reservations live
  leases hold on a device, the identity conflicts that show a volume was
  swapped under them, and the bytes a new lease needs. The file system is the
  record \<open>volume_fs\<close>: what \<open>os.path.abspath\<close>, \<open>Path.resolve\<close>, \<open>stat\<close>,
  \<open>Path.parent\<close> and \<open>shutil.disk_usage\<close> answer during the probe, where \<open>None\<close>
  is an \<open>OSError\<close>, and whether the probe thread was still alive at its deadline.
\<close>

record volume_fs =
  fs_logical :: "string \<Rightarrow> string"
  fs_resolve :: "string \<Rightarrow> string option"
  fs_is_dir :: "string \<Rightarrow> bool"
  fs_st_dev :: "string \<Rightarrow> int option"
  fs_ancestors :: "string \<Rightarrow> string list"
  fs_free :: "string \<Rightarrow> int option"
  fs_stalled :: bool

record disk_info =
  dk_device_id :: string
  dk_mount_path :: string
  dk_reservation_path :: string
  dk_logical_path :: string
  dk_free_bytes :: int

datatype probe_error = ProbeValueError string | ProbeOSError string | ProbeTimeout

text \<open>The walk up from the resolved root while the parent is on the same device. The ancestors
  are the successive parents, nearest first, up to the file system root.\<close>

fun climb :: "(string \<Rightarrow> int option) \<Rightarrow> int \<Rightarrow> string \<Rightarrow> string list \<Rightarrow> string" where
  "climb st_dev device mount [] = mount"
| "climb st_dev device mount (parent # parents) =
     (if st_dev parent = Some device then climb st_dev device parent parents else mount)"

definition disk_probe_impl ::
  "volume_fs \<Rightarrow> string \<Rightarrow> string \<Rightarrow> string \<Rightarrow> probe_error + disk_info" where
  "disk_probe_impl fs path_text expected_device_id expected_mount_path =
     (let logical = fs_logical fs path_text in
      case fs_resolve fs logical of
        None \<Rightarrow> Inl (ProbeValueError ''configured disk reservation root does not exist'')
      | Some requested \<Rightarrow>
          if \<not> fs_is_dir fs requested
          then Inl (ProbeValueError ''configured disk reservation root is not a directory'')
          else case fs_st_dev fs requested of
            None \<Rightarrow> Inl (ProbeOSError requested)
          | Some device \<Rightarrow>
              let mount = climb (fs_st_dev fs) device requested (fs_ancestors fs requested) in
              if expected_device_id \<noteq> [] \<and> int_str device \<noteq> expected_device_id
              then Inl (ProbeValueError ''disk device mismatch'')
              else if expected_mount_path \<noteq> [] \<and> fs_resolve fs expected_mount_path = None
              then Inl (ProbeValueError ''expected disk mount does not exist'')
              else if expected_mount_path \<noteq> [] \<and> fs_resolve fs expected_mount_path \<noteq> Some mount
              then Inl (ProbeValueError ''disk mount mismatch'')
              else case fs_free fs requested of
                None \<Rightarrow> Inl (ProbeOSError requested)
              | Some free \<Rightarrow>
                  Inr \<lparr>dk_device_id = int_str device, dk_mount_path = mount,
                    dk_reservation_path = requested, dk_logical_path = logical,
                    dk_free_bytes = free\<rparr>)"

definition disk_probe ::
  "volume_fs \<Rightarrow> string \<Rightarrow> string \<Rightarrow> string \<Rightarrow> probe_error + disk_info" where
  "disk_probe fs path_text expected_device_id expected_mount_path =
     (if fs_stalled fs then Inl ProbeTimeout
      else disk_probe_impl fs path_text expected_device_id expected_mount_path)"

text \<open>\<open>_record_int\<close> of this module: only a missing key takes the default.\<close>

definition disk_record_int :: "pydict \<Rightarrow> string \<Rightarrow> int \<Rightarrow> int" where
  "disk_record_int record key dflt =
     (case record key of
        None \<Rightarrow> dflt
      | Some v \<Rightarrow> (case py_int v of Some n \<Rightarrow> n | None \<Rightarrow> dflt))"

definition record_disk_bytes :: "pydict \<Rightarrow> int" where
  "record_disk_bytes record = max 0 (disk_record_int record ''disk_growth_bytes'' 0)"

definition record_has_complete_disk_accounting :: "pydict \<Rightarrow> bool" where
  "record_has_complete_disk_accounting record =
     (truthy (dget record ''disk_device_id'') \<and> truthy (dget record ''disk_reservation_path'')
      \<and> has_key record ''disk_growth_bytes'' \<and> has_key record ''disk_floor_bytes'')"

record disk_conflict =
  dc_id :: string
  dc_recorded_device_id :: string
  dc_current_device_id :: string
  dc_reservation_path :: string
  dc_logical_path :: string
  dc_mount_path :: string

definition moved_reservation :: "disk_info \<Rightarrow> pydict \<Rightarrow> bool" where
  "moved_reservation probe record =
     (let recorded_device = text_field record ''disk_device_id'';
          same_path = (text_field record ''disk_reservation_path'' = dk_reservation_path probe);
          same_logical_path = (text_field record ''disk_logical_path'' = dk_logical_path probe);
          same_mount = (text_field record ''disk_mount_path'' = dk_mount_path probe)
      in recorded_device \<noteq> [] \<and> recorded_device \<noteq> dk_device_id probe
         \<and> (same_path \<or> same_logical_path \<or> same_mount))"

definition disk_identity_conflicts :: "pydict list \<Rightarrow> disk_info \<Rightarrow> disk_conflict list" where
  "disk_identity_conflicts records probe =
     sort_key dc_id
       (map (\<lambda>record. \<lparr>dc_id = text_field record ''id'',
           dc_recorded_device_id = text_field record ''disk_device_id'',
           dc_current_device_id = dk_device_id probe,
           dc_reservation_path = text_field record ''disk_reservation_path'',
           dc_logical_path = text_field record ''disk_logical_path'',
           dc_mount_path = text_field record ''disk_mount_path''\<rparr>)
         (filter (moved_reservation probe) records))"

record disk_state =
  ds_device_id :: string
  ds_mount_path :: string
  ds_reservation_path :: string
  ds_free_bytes :: int
  ds_floor_bytes :: int
  ds_reserved_bytes :: int
  ds_requested_bytes :: int
  ds_required_bytes :: int
  ds_available_after_reservations_bytes :: int
  ds_reservation_count :: int

definition on_device :: "string \<Rightarrow> pydict \<Rightarrow> bool" where
  "on_device device record = (text_field record ''disk_device_id'' = device)"

definition max_floor :: "pydict list \<Rightarrow> int" where
  "max_floor records = fold max (map (\<lambda>r. disk_record_int r ''disk_floor_bytes'' 0) records) 0"

definition disk_capacity :: "pydict list \<Rightarrow> disk_info \<Rightarrow> int \<Rightarrow> int \<Rightarrow> disk_state" where
  "disk_capacity records probe requested_bytes floor_bytes =
     (let same_device = filter (on_device (dk_device_id probe)) records;
          reserved = sum_over record_disk_bytes same_device;
          active_floor = max_floor same_device;
          effective_floor = max floor_bytes active_floor;
          required = effective_floor + reserved + requested_bytes
      in \<lparr>ds_device_id = dk_device_id probe, ds_mount_path = dk_mount_path probe,
          ds_reservation_path = dk_reservation_path probe, ds_free_bytes = dk_free_bytes probe,
          ds_floor_bytes = effective_floor, ds_reserved_bytes = reserved,
          ds_requested_bytes = requested_bytes, ds_required_bytes = required,
          ds_available_after_reservations_bytes = max 0 (dk_free_bytes probe - reserved),
          ds_reservation_count = int (length same_device)\<rparr>)"

definition disk_exceeded :: "disk_state \<Rightarrow> bool" where
  "disk_exceeded st = (ds_free_bytes st < ds_required_bytes st)"

subsection \<open>Reservations on one device\<close>

definition disk_charge :: "string \<Rightarrow> pydict \<Rightarrow> int" where
  "disk_charge device record = (if on_device device record then record_disk_bytes record else 0)"

interpretation disk_axis: budget "disk_charge device" "\<lambda>r. True" for device
  by unfold_locales (simp add: disk_charge_def record_disk_bytes_def)

lemma fold_max_ge: "(b::int) \<le> fold max xs b"
  by (induction xs arbitrary: b) (auto intro: order_trans [OF max.cobounded2])

lemma fold_max_member: "x \<in> set xs \<Longrightarrow> x \<le> fold max xs (b::int)"
proof (induction xs arbitrary: b)
  case (Cons y xs)
  show ?case
  proof (cases "x = y")
    case True
    then show ?thesis using fold_max_ge [of "max y b" xs] by simp
  next
    case False
    with Cons.prems show ?thesis using Cons.IH [of "max y b"] by simp
  qed
qed simp

lemma max_floor_bounds:
  "0 \<le> max_floor rs" "r \<in> set rs \<Longrightarrow> disk_record_int r ''disk_floor_bytes'' 0 \<le> max_floor rs"
  by (auto simp: max_floor_def fold_max_ge intro: fold_max_member)

text \<open>C35: what a disk verdict that is not exceeded promises of every lease on the probed device: with
  the request added, the growth all of them have reserved and the largest floor any of them
  keeps still fit the free bytes.\<close>

theorem disk_capacity_covers_floors:
  assumes "\<not> disk_exceeded (disk_capacity rs probe req floor)"
  shows "sum_over (disk_charge (dk_device_id probe)) rs + req + floor \<le> dk_free_bytes probe
    \<and> (\<forall>r. r \<in> set rs \<and> on_device (dk_device_id probe) r \<longrightarrow>
        sum_over (disk_charge (dk_device_id probe)) rs + req + disk_record_int r ''disk_floor_bytes'' 0
          \<le> dk_free_bytes probe)"
proof -
  let ?dev = "filter (on_device (dk_device_id probe)) rs"
  have "sum_over record_disk_bytes ?dev = sum_over (disk_charge (dk_device_id probe)) rs"
    unfolding sum_over_filter_if by (rule sum_over_cong) (simp add: disk_charge_def)
  then have "sum_over (disk_charge (dk_device_id probe)) rs + req + max floor (max_floor ?dev)
      \<le> dk_free_bytes probe"
    using assms by (simp add: disk_exceeded_def disk_capacity_def Let_def)
  moreover have "disk_record_int r ''disk_floor_bytes'' 0 \<le> max_floor ?dev"
    if "r \<in> set rs" "on_device (dk_device_id probe) r" for r
    using that by (intro max_floor_bounds) simp
  ultimately show ?thesis by force
qed

text \<open>The mount the probe reports: every directory between the root and it is on the probed
  device, and the walk stopped at the file system root or at a parent on another device.\<close>

definition mount_of :: "volume_fs \<Rightarrow> int \<Rightarrow> string \<Rightarrow> string \<Rightarrow> bool" where
  "mount_of fs device requested mount =
     (\<exists>below above. requested # fs_ancestors fs requested = below @ mount # above
        \<and> (\<forall>d \<in> set (below @ [mount]). fs_st_dev fs d = Some device)
        \<and> (above = [] \<or> fs_st_dev fs (hd above) \<noteq> Some device))"

lemma climb_mount:
  "st_dev m = Some device \<Longrightarrow>
     \<exists>below above. m # ps = below @ climb st_dev device m ps # above
       \<and> (\<forall>d \<in> set (below @ [climb st_dev device m ps]). st_dev d = Some device)
       \<and> (above = [] \<or> st_dev (hd above) \<noteq> Some device)"
proof (induction ps arbitrary: m)
  case (Cons p ps)
  show ?case
  proof (cases "st_dev p = Some device")
    case True
    then have up: "climb st_dev device m (p # ps) = climb st_dev device p ps" by simp
    from Cons.IH [OF True] obtain below above where
      "p # ps = below @ climb st_dev device p ps # above"
      "\<forall>d \<in> set (below @ [climb st_dev device p ps]). st_dev d = Some device"
      "above = [] \<or> st_dev (hd above) \<noteq> Some device" by blast
    then show ?thesis
      unfolding up using Cons.prems
      by (intro exI [of _ "m # below"] exI [of _ above] conjI) auto
  next
    case False
    with Cons.prems show ?thesis by (intro exI [of _ "[]"] exI [of _ "p # ps"]) simp
  qed
next
  case Nil
  then show ?case by (intro exI [of _ "[]"]) simp
qed

text \<open>the probe fails closed and never misattributes. When it answers, the root exists and is
  a directory, the device is the root's own and the one that was expected, the mount is the
  topmost directory the root reaches without leaving that device and the one that was expected,
  and the free bytes are the root's. A stalled volume always raises.\<close>

theorem disk_probe_sound:
  assumes "disk_probe fs path dev mnt = Inr info"
  shows "\<not> fs_stalled fs \<and> fs_resolve fs (fs_logical fs path) = Some (dk_reservation_path info)
    \<and> fs_is_dir fs (dk_reservation_path info)
    \<and> (\<exists>d. fs_st_dev fs (dk_reservation_path info) = Some d \<and> dk_device_id info = int_str d
        \<and> mount_of fs d (dk_reservation_path info) (dk_mount_path info))
    \<and> (dev = [] \<or> dk_device_id info = dev)
    \<and> (mnt = [] \<or> fs_resolve fs mnt = Some (dk_mount_path info))
    \<and> fs_free fs (dk_reservation_path info) = Some (dk_free_bytes info)"
proof -
  obtain root d where "fs_st_dev fs root = Some d" "dk_reservation_path info = root"
    "dk_mount_path info = climb (fs_st_dev fs) d root (fs_ancestors fs root)"
    "dk_device_id info = int_str d"
    using assms by (auto simp: disk_probe_def disk_probe_impl_def Let_def split: option.splits if_splits)
  then have "mount_of fs d root (dk_mount_path info)"
    using climb_mount [of "fs_st_dev fs" root d "fs_ancestors fs root"] by (simp add: mount_of_def)
  with \<open>fs_st_dev fs root = Some d\<close> \<open>dk_reservation_path info = root\<close> \<open>dk_device_id info = int_str d\<close>
  show ?thesis
    using assms by (auto simp: disk_probe_def disk_probe_impl_def Let_def split: option.splits if_splits)
qed

end
