(* ===== verification/Waiters.thy ===== *)
theory Waiters
  imports Capacity LeaseDisk
begin

section \<open>The store's files and the VM lease waiters\<close>

text \<open>
  The files of the lease store and the waiter half of \<open>scripts/leases.py\<close>:
  \<open>leases.json\<close>, \<open>waiters.json\<close> and \<open>gate_hint.json\<close> as the states the code
  tells apart, the loaders and writers, liveness of a waiter, the ranking that
  defers a VM lease to a waiter it would displace, and the two waiter commands.
  Every command runs under the store lock from load to write, so a command is a
  function from a store to a store.
\<close>

subsection \<open>Files\<close>

text \<open>A JSON file: missing, not JSON, JSON but not a list, or a list whose entries are objects
  (\<open>Some\<close>) or not.\<close>

datatype rows_file = FileAbsent | FileGarbled | FileNotList | FileRows "pydict option list"

text \<open>\<open>gate_hint.json\<close>: missing or unreadable, or an object with its \<open>cores\<close> entry.\<close>

datatype hint_file = HintUnreadable | HintObject pyval

record store =
  st_dir :: string
  st_leases :: rows_file
  st_waiters :: rows_file
  st_hint :: hint_file
  st_events :: "lease_event list"

definition load_records :: "store \<Rightarrow> pydict list result" where
  "load_records st = (case st_leases st of
     FileAbsent \<Rightarrow> Inr []
   | FileGarbled \<Rightarrow> Inl (ValueError ''invalid lease store JSON'')
   | FileNotList \<Rightarrow> Inl (ValueError ''invalid lease store shape'')
   | FileRows rows \<Rightarrow>
       if list_all (\<lambda>row. \<not> Option.is_none row) rows then Inr (map the rows)
       else Inl (ValueError ''invalid lease record''))"

definition write_records :: "pydict list \<Rightarrow> store \<Rightarrow> store" where
  "write_records records st = st\<lparr>st_leases := FileRows (map Some records)\<rparr>"

definition load_waiters :: "store \<Rightarrow> pydict list \<times> string list" where
  "load_waiters st = (case st_waiters st of
     FileAbsent \<Rightarrow> ([], [])
   | FileRows rows \<Rightarrow> (List.map_filter (\<lambda>row. row) rows, [])
   | _ \<Rightarrow> ([], [''waiters_unreadable:'' @ st_dir st @ ''/waiters.json'']))"

definition write_waiters :: "pydict list \<Rightarrow> store \<Rightarrow> store" where
  "write_waiters waiters st = st\<lparr>st_waiters := FileRows (map Some waiters)\<rparr>"

text \<open>The interface both row files offer: what is read after a commit is what was committed.\<close>

locale row_store =
  fixes read :: "'s \<Rightarrow> pydict list"
    and commit :: "pydict list \<Rightarrow> 's \<Rightarrow> 's"
  assumes read_commit: "read (commit rs s) = rs"
    and commit_commit: "commit rs (commit ss s) = commit rs s"
begin

lemma commit_twice: "read (commit rs (commit ss s)) = rs"
  by (simp add: read_commit)

lemma update_rows: "read (commit (f (read s)) s) = f (read s)"
  by (simp add: read_commit)

lemma fold_updates: "read (fold (\<lambda>f s. commit (f (read s)) s) fs s) = fold (\<lambda>f rs. f rs) fs (read s)"
  by (induction fs arbitrary: s) (simp_all add: read_commit)

end

definition records_of :: "store \<Rightarrow> pydict list" where
  "records_of st = (case load_records st of Inr rs \<Rightarrow> rs | Inl e \<Rightarrow> [])"

definition waiters_of :: "store \<Rightarrow> pydict list" where
  "waiters_of st = fst (load_waiters st)"

lemma load_write_records [simp]: "load_records (write_records rs st) = Inr rs"
  by (simp add: load_records_def write_records_def list_all_iff comp_def)

lemma map_filter_Some [simp]: "List.map_filter (\<lambda>row. row) (map Some rs) = rs"
  by (induction rs) simp_all

lemma load_write_waiters [simp]: "load_waiters (write_waiters ws st) = (ws, [])"
  by (simp add: load_waiters_def write_waiters_def)

interpretation lease_rows: row_store records_of write_records
  by unfold_locales
    (simp_all add: records_of_def write_records_def load_records_def list_all_iff comp_def)

interpretation waiter_rows: row_store waiters_of write_waiters
  by unfold_locales (simp_all add: waiters_of_def write_waiters_def load_waiters_def)

lemma store_frames [simp]:
  "load_records (write_waiters ws st) = load_records st"
  "load_waiters (write_records rs st) = load_waiters st"
  "load_records (st\<lparr>st_hint := hf\<rparr>) = load_records st"
  "load_waiters (st\<lparr>st_hint := hf\<rparr>) = load_waiters st"
  "load_records (st\<lparr>st_events := ev\<rparr>) = load_records st"
  "load_waiters (st\<lparr>st_events := ev\<rparr>) = load_waiters st"
  by (simp_all add: load_records_def load_waiters_def write_waiters_def write_records_def
      split: rows_file.split)

subsection \<open>The gate hint and the prompt reserve\<close>

definition read_gate_hint :: "store \<Rightarrow> int" where
  "read_gate_hint st = (case st_hint st of
     HintUnreadable \<Rightarrow> 0
   | HintObject v \<Rightarrow> (case py_int (py_or v (PInt 0)) of Some n \<Rightarrow> max 0 n | None \<Rightarrow> 0))"

text \<open>The write is best effort: \<open>writable\<close> is whether the two file operations succeed.\<close>

definition write_gate_hint :: "bool \<Rightarrow> int \<Rightarrow> store \<Rightarrow> store" where
  "write_gate_hint writable cores st =
     (if cores \<le> 0 \<or> cores = read_gate_hint st then st
      else if writable then st\<lparr>st_hint := HintObject (PInt cores)\<rparr> else st)"

definition live_waiters :: "host \<Rightarrow> pydict list \<Rightarrow> int \<Rightarrow> pydict list \<times> pydict list" where
  "live_waiters h waiters fresh_secs =
     (let live = (\<lambda>waiter.
        (case parse_ts (dget waiter ''seen_at'') of
           None \<Rightarrow> False
         | Some seen \<Rightarrow> utcnow h - seen < fresh_secs * 1000000)
        \<and> identity_matches h waiter ''pid'' ''process_start_time'' ''host_boot_time''
            (host_boot_time h) True)
      in (filter live waiters, filter (\<lambda>w. \<not> live w) waiters))"

definition prompt_reserve :: "host \<Rightarrow> store \<Rightarrow> config \<Rightarrow> int \<times> string" where
  "prompt_reserve h st cfg =
     (let (reserve, source) =
        (if cf_gate_prompt_reserve_auto cfg \<and> cf_serves_gate cfg then
           (let hint = read_gate_hint st in
            if hint \<noteq> 0 then (hint, ''last_gate_lease'')
            else (cf_gate_prompt_reserve_cores cfg, ''profile_default''))
         else (cf_gate_prompt_reserve_cores cfg, ''configured''));
        (reserve, source) =
        (if cf_rank_vm_waiters cfg then
           (let waiting = sum_over cores_of
              (filter (\<lambda>row. priority_of row \<ge> cf_gate_priority cfg)
                (fst (live_waiters h (waiters_of st) (cf_waiter_fresh_secs cfg))))
            in if waiting > reserve then (waiting, ''gate_waiters'') else (reserve, source))
         else (reserve, source))
      in (min (max 0 reserve) (cf_reserved_gate_cores cfg), source))"

subsection \<open>Ranking\<close>

definition rank_key :: "string \<Rightarrow> pydict \<Rightarrow> int \<times> string \<times> string" where
  "rank_key since row = (- priority_of row, text_field row since, text_field row ''id'')"

text \<open>A waiter this grant would displace: it outranks the grant, fits without it and does not
  fit with it.\<close>

definition displaced ::
  "config \<Rightarrow> pydict list \<Rightarrow> pydict list \<Rightarrow> int \<Rightarrow> string \<Rightarrow> pydict \<Rightarrow> bool" where
  "displaced cfg before after priority self_waiter_id waiter =
     (\<not> (self_waiter_id \<noteq> [] \<and> id_str waiter = self_waiter_id)
      \<and> is_vm_kind (dget waiter ''command_kind'')
      \<and> \<not> priority_of waiter \<le> priority
      \<and> admits cfg before (priority_of waiter) (cores_of waiter) (record_int waiter ''lease_size_mem_mb'' 0)
      \<and> \<not> admits cfg after (priority_of waiter) (cores_of waiter) (record_int waiter ''lease_size_mem_mb'' 0))"

definition blocking_waiter ::
  "config \<Rightarrow> pydict list \<Rightarrow> pydict list \<Rightarrow> pydict list \<Rightarrow> int \<Rightarrow> string \<Rightarrow> pydict option" where
  "blocking_waiter cfg waiters before after priority self_waiter_id =
     find (displaced cfg before after priority self_waiter_id)
       (sort_key (rank_key ''waiting_since'') waiters)"

record waiter_row =
  wr_id :: pyval
  wr_lane :: pyval
  wr_priority :: int
  wr_priority_class :: pyval
  wr_cores :: int
  wr_mem_mb :: int
  wr_waiting_since :: pyval
  wr_seen_at :: pyval

definition waiter_summary :: "pydict \<Rightarrow> waiter_row" where
  "waiter_summary w =
     \<lparr>wr_id = dget w ''id'', wr_lane = dget w ''lane'', wr_priority = priority_of w,
      wr_priority_class = dget w ''priority_class'', wr_cores = cores_of w,
      wr_mem_mb = record_int w ''lease_size_mem_mb'' 0,
      wr_waiting_since = dget w ''waiting_since'', wr_seen_at = dget w ''seen_at''\<rparr>"

definition rank_check ::
  "host \<Rightarrow> config \<Rightarrow> pyval \<Rightarrow> int \<Rightarrow> pydict list \<Rightarrow> pydict list \<Rightarrow> string \<Rightarrow> store
    \<Rightarrow> store \<times> pydict option \<times> string list" where
  "rank_check h cfg kind priority before after waiter_id st =
     (if \<not> cf_rank_vm_waiters cfg \<or> \<not> is_vm_kind kind then (st, None, [])
      else let (waiters, problems) = load_waiters st;
               (live, expired) = live_waiters h waiters (cf_waiter_fresh_secs cfg)
           in (if \<not> List.null expired then write_waiters live st else st,
               blocking_waiter cfg live before after priority waiter_id, problems))"

fun refresh_first :: "string \<Rightarrow> string \<Rightarrow> pydict list \<Rightarrow> pydict list option" where
  "refresh_first waiter_id now [] = None"
| "refresh_first waiter_id now (row # rows) =
     (if id_str row = waiter_id then Some (row(''seen_at'' \<mapsto> PStr now) # rows)
      else map_option (Cons row) (refresh_first waiter_id now rows))"

definition settle_waiter :: "host \<Rightarrow> config \<Rightarrow> string \<Rightarrow> bool \<Rightarrow> store \<Rightarrow> store" where
  "settle_waiter h cfg waiter_id granted st =
     (if waiter_id = [] \<or> \<not> cf_rank_vm_waiters cfg then st
      else let (waiters, problems) = load_waiters st in
      if problems \<noteq> [] then st
      else if granted then
        (let kept = filter (\<lambda>row. id_str row \<noteq> waiter_id) waiters in
         if length kept \<noteq> length waiters then write_waiters kept st else st)
      else (case refresh_first waiter_id (iso (utcnow h)) waiters of
          Some rows \<Rightarrow> write_waiters rows st
        | None \<Rightarrow> st))"

definition sort_records :: "pydict list \<Rightarrow> pydict list" where
  "sort_records records = sort_key (rank_key ''created_at'') records"

definition reaped_summary :: "pydict list \<Rightarrow> (pyval \<times> pyval) list" where
  "reaped_summary records = map (\<lambda>r. (dget r ''id'', dget r ''_reap_reason'')) records"

definition problem_summary :: "string list \<Rightarrow> string list" where
  "problem_summary problems = sort (remdups problems)"

subsection \<open>The waiter commands\<close>

text \<open>What the process that runs a command asks of its surroundings besides \<open>host\<close>: the profile
  inputs, the file system, its pid, a fresh identifier, whether the hint file can be written, and
  whether \<open>home_volume_floor.judge\<close> answers that the home volume is below its floor.\<close>

record lease_env =
  le_host :: host
  le_profile :: profile_env
  le_fs :: volume_fs
  le_getpid :: int
  le_uuid4 :: string
  le_hint_writable :: bool
  le_home_below :: bool

definition owner_pid :: "lease_env \<Rightarrow> int option \<Rightarrow> int" where
  "owner_pid e pid = (case pid of Some p \<Rightarrow> if p \<noteq> 0 then p else le_getpid e | None \<Rightarrow> le_getpid e)"

record wait_args =
  wa_common :: common_args
  wa_id :: string
  wa_cores :: int
  wa_mem_mb :: "int option"
  wa_priority :: string
  wa_kind :: string
  wa_pid :: "int option"
  wa_lane :: string
  wa_label :: string

datatype wait_reply =
    WaitOff
  | WaitRequiresVm string
  | WaitOwnerNotAlive int
  | WaitRegistered waiter_row "waiter_row list" "string list"

definition waiter_record ::
  "lease_env \<Rightarrow> wait_args \<Rightarrow> int \<Rightarrow> int \<Rightarrow> string \<Rightarrow> identity \<Rightarrow> pyval \<Rightarrow> pydict" where
  "waiter_record e a mem priority priority_class ident waiting_since =
     dupdate Map.empty
      [(''id'', PStr (wa_id a)), (''lane'', PStr (wa_lane a)), (''label'', PStr (wa_label a)),
       (''command_kind'', PStr (wa_kind a)), (''lease_size_cores'', PInt (wa_cores a)),
       (''lease_size_mem_mb'', PInt mem), (''priority'', PInt priority),
       (''priority_class'', PStr priority_class), (''pid'', PInt (id_pid ident)),
       (''process_start_time'', PStr (id_process_start_time ident)),
       (''host_boot_time'', PStr (id_host_boot_time ident)),
       (''waiting_since'', waiting_since), (''seen_at'', PStr (iso (utcnow (le_host e))))]"

definition register_waiter ::
  "lease_env \<Rightarrow> wait_args \<Rightarrow> store \<Rightarrow> store \<times> (wait_reply \<times> int) result" where
  "register_waiter e a st =
     (case capacity_config (le_profile e) (wa_common a) of
        Inl err \<Rightarrow> (st, Inl err)
      | Inr cfg \<Rightarrow>
          if \<not> cf_rank_vm_waiters cfg then (st, Inr (WaitOff, 0))
          else if \<not> is_vm_kind (PStr (wa_kind a)) then (st, Inr (WaitRequiresVm (wa_kind a), 64))
          else if wa_cores a < 0 then (st, Inl (ValueError ''waiter cores must be non-negative''))
          else case parse_priority (Some (wa_priority a)) of
            Inl err \<Rightarrow> (st, Inl err)
          | Inr (priority, priority_class) \<Rightarrow>
              let h = le_host e;
                  mem = (case wa_mem_mb a of Some m \<Rightarrow> m | None \<Rightarrow> wa_cores a * cf_per_job_mem_mb cfg);
                  ident = process_identity h (owner_pid e (wa_pid a)) in
              if id_process_start_time ident = [] then (st, Inr (WaitOwnerNotAlive (id_pid ident), 64))
              else let (waiters, problems) = load_waiters st;
                  live = fst (live_waiters h waiters (cf_waiter_fresh_secs cfg));
                  waiting_since = (case find (\<lambda>row. id_str row = wa_id a) live of
                      Some previous \<Rightarrow>
                        if py_eq (dget previous ''pid'') (PInt (id_pid ident))
                           \<and> dget previous ''process_start_time'' = PStr (id_process_start_time ident)
                        then dget previous ''waiting_since'' else PStr (iso (utcnow h))
                    | None \<Rightarrow> PStr (iso (utcnow h)));
                  row = waiter_record e a mem priority priority_class ident waiting_since;
                  others = filter (\<lambda>row. id_str row \<noteq> wa_id a) live
              in (write_waiters (others @ [row]) st,
                  Inr (WaitRegistered (waiter_summary row)
                    (map waiter_summary (filter (\<lambda>r. priority_of r > priority) others))
                    (problem_summary problems), 0)))"

definition withdraw_waiter :: "string \<Rightarrow> store \<Rightarrow> store \<times> string option \<times> string list" where
  "withdraw_waiter waiter_id st =
     (if (case st_waiters st of FileAbsent \<Rightarrow> True | _ \<Rightarrow> False) then (st, None, [])
      else let (waiters, problems) = load_waiters st;
               kept = filter (\<lambda>row. id_str row \<noteq> waiter_id) waiters;
               removed = (length kept \<noteq> length waiters)
           in (if removed then write_waiters kept st else st,
               if removed then Some waiter_id else None, problem_summary problems))"

subsection \<open>Ranking is work-conserving\<close>

lemma find_sorted_least:
  assumes "find P (sort_key k xs) = Some x"
  shows "x \<in> set xs \<and> P x \<and> (\<forall>y. y \<in> set xs \<longrightarrow> P y \<longrightarrow> k x \<le> k y)"
proof -
  obtain i where i: "i < length (sort_key k xs)" "P (sort_key k xs ! i)" "x = sort_key k xs ! i"
    "\<forall>j<i. \<not> P (sort_key k xs ! j)"
    using assms by (auto simp: find_Some_iff)
  have "k x \<le> k y" if "y \<in> set xs" "P y" for y
  proof -
    from that(1) obtain j where j: "j < length (sort_key k xs)" "sort_key k xs ! j = y"
      by (metis in_set_conv_nth set_sort)
    with i(4) that(2) have "i \<le> j" by (meson not_less)
    then have "map k (sort_key k xs) ! i \<le> map k (sort_key k xs) ! j"
      using j(1) by (intro sorted_nth_mono) simp_all
    with i j show ?thesis by simp
  qed
  moreover have "x \<in> set xs" using i(1,3) by (metis nth_mem set_sort)
  ultimately show ?thesis using i by blast
qed

lemma find_sorted_None: "(find P (sort_key k xs) = None) = (\<forall>y. y \<in> set xs \<longrightarrow> \<not> P y)"
  by (auto simp: find_None_iff)

text \<open>C25: a VM lease is deferred to a waiter exactly when it would displace one. The waiter it is
  deferred to strictly outranks it, fits the host now and would not fit after the grant, and it is
  the first in rank order (priority, then waiting time, then id) of all such waiters. A lease
  that displaces nobody is never deferred.\<close>

theorem deferral_work_conserving:
  "case blocking_waiter cfg waiters before after p self of
     Some w \<Rightarrow> w \<in> set waiters \<and> p < priority_of w
       \<and> admits cfg before (priority_of w) (cores_of w) (record_int w ''lease_size_mem_mb'' 0)
       \<and> \<not> admits cfg after (priority_of w) (cores_of w) (record_int w ''lease_size_mem_mb'' 0)
       \<and> Min (rank_key ''waiting_since'' ` set (filter (displaced cfg before after p self) waiters))
           = rank_key ''waiting_since'' w
   | None \<Rightarrow> filter (displaced cfg before after p self) waiters = []"
proof (cases "blocking_waiter cfg waiters before after p self")
  case None
  then have "filter (displaced cfg before after p self) waiters = []"
    by (simp add: blocking_waiter_def find_sorted_None filter_empty_conv)
  with None show ?thesis by simp
next
  case (Some w)
  note least = find_sorted_least [OF Some [unfolded blocking_waiter_def]]
  then have "Min (rank_key ''waiting_since'' ` set (filter (displaced cfg before after p self) waiters))
      = rank_key ''waiting_since'' w"
    by (intro Min_eqI) auto
  with Some least show ?thesis by (simp add: displaced_def)
qed

text \<open>A waiter whose owner is gone or that was not refreshed in time counts for nothing.\<close>

lemma live_waitersD:
  assumes "w \<in> set (fst (live_waiters h waiters fresh))"
  shows "w \<in> set waiters"
    and "\<exists>seen. parse_ts (dget w ''seen_at'') = Some seen \<and> utcnow h - seen < fresh * 1000000"
    and "identity_matches h w ''pid'' ''process_start_time'' ''host_boot_time'' (host_boot_time h) True"
  using assms by (auto simp: live_waiters_def Let_def split: option.splits)

text \<open>the prompt reserve never exceeds the gate reserve, and it covers the demand of the live
  gate waiters as far as the gate reserve allows.\<close>

theorem prompt_reserve_bounds:
  "config_ok cfg \<Longrightarrow>
     0 \<le> fst (prompt_reserve h st cfg) \<and> fst (prompt_reserve h st cfg) \<le> cf_reserved_gate_cores cfg
     \<and> (cf_rank_vm_waiters cfg \<longrightarrow>
          min (cf_reserved_gate_cores cfg)
            (sum_over cores_of (filter (\<lambda>row. cf_gate_priority cfg \<le> priority_of row)
              (fst (live_waiters h (waiters_of st) (cf_waiter_fresh_secs cfg)))))
          \<le> fst (prompt_reserve h st cfg))"
  by (auto simp: prompt_reserve_def Let_def config_ok_def split: prod.splits if_splits)

subsection \<open>A refreshed waiter keeps its place\<close>

lemma waiter_record_fields:
  "dget (waiter_record e a mem p pc ident since) ''id'' = PStr (wa_id a)"
  "dget (waiter_record e a mem p pc ident since) ''pid'' = PInt (id_pid ident)"
  "dget (waiter_record e a mem p pc ident since) ''process_start_time'' = PStr (id_process_start_time ident)"
  "dget (waiter_record e a mem p pc ident since) ''host_boot_time'' = PStr (id_host_boot_time ident)"
  "dget (waiter_record e a mem p pc ident since) ''waiting_since'' = since"
  "dget (waiter_record e a mem p pc ident since) ''seen_at'' = PStr (iso (utcnow (le_host e)))"
  by (simp_all add: waiter_record_def)

text \<open>The process that registered is still the same one, on the same boot, and within the
  freshness window.\<close>

definition still_waiting :: "host \<Rightarrow> host \<Rightarrow> int \<Rightarrow> int \<Rightarrow> bool" where
  "still_waiting h0 h pid fresh =
     (0 < pid \<and> clock_range (utcnow h0) \<and> pid_start h pid = pid_start h0 pid
      \<and> host_boot_time h = host_boot_time h0
      \<and> utcnow h - (utcnow h0 - utcnow h0 mod 1000000) < fresh * 1000000)"

lemma registered_waiter_live:
  assumes "still_waiting (le_host e) h pid fresh" and "pid_start (le_host e) pid \<noteq> []"
    and "row = waiter_record e a mem p pc (process_identity (le_host e) pid) since"
  shows "fst (live_waiters h (ws @ [row]) fresh) = fst (live_waiters h ws fresh) @ [row]"
proof -
  have "squeeze (pid_start (le_host e) pid) = pid_start (le_host e) pid"
    by (simp add: pid_start_def split: option.split)
  moreover have "strip s = [] \<Longrightarrow> squeeze s = []" for s
    by (metis squeeze_Nil squeeze_strip)
  ultimately have "identity_matches h row ''pid'' ''process_start_time'' ''host_boot_time'' (host_boot_time h) True"
    using assms
    by (auto simp: identity_matches_def waiter_record_fields Let_def text_field_def py_or_def
        process_identity_def still_waiting_def boot_differs_def)
  then show ?thesis
    using assms by (simp add: live_waiters_def Let_def waiter_record_fields still_waiting_def parse_ts_iso
        del: parse_ts.simps)
qed

text \<open>When a lane that registers again is found to be the same process, its place is kept.\<close>

definition kept_place :: "host \<Rightarrow> pydict list \<Rightarrow> string \<Rightarrow> int \<Rightarrow> pyval" where
  "kept_place h live waiter_id pid =
     (case find (\<lambda>r. id_str r = waiter_id) live of
        Some previous \<Rightarrow>
          if py_eq (dget previous ''pid'') (PInt pid)
             \<and> dget previous ''process_start_time'' = PStr (pid_start h pid)
          then dget previous ''waiting_since'' else PStr (iso (utcnow h))
      | None \<Rightarrow> PStr (iso (utcnow h)))"

lemma process_identity_sel [simp]:
  "id_pid (process_identity h pid) = pid"
  "id_process_start_time (process_identity h pid) = pid_start h pid"
  "id_host_boot_time (process_identity h pid) = host_boot_time h"
  by (simp_all add: process_identity_def)

lemma register_waiter_Registered:
  assumes "register_waiter e a st = (st', Inr (WaitRegistered w ahead problems, rc))"
    and "owner_pid e (wa_pid a) = pid"
    and "capacity_config (le_profile e) (wa_common a) = Inr cfg"
    and live: "live = fst (live_waiters (le_host e) (waiters_of st) (cf_waiter_fresh_secs cfg))"
  obtains mem p pc row where
    "row = waiter_record e a mem p pc (process_identity (le_host e) pid) (kept_place (le_host e) live (wa_id a) pid)"
    "st' = write_waiters (filter (\<lambda>r. id_str r \<noteq> wa_id a) live @ [row]) st"
    "w = waiter_summary row" "pid_start (le_host e) pid \<noteq> []"
proof -
  obtain p pc where pp: "parse_priority (Some (wa_priority a)) = Inr (p, pc)"
    using assms by (auto simp: register_waiter_def Let_def split: sum.splits if_splits prod.splits)
  let ?mem = "case wa_mem_mb a of Some m \<Rightarrow> m | None \<Rightarrow> wa_cores a * cf_per_job_mem_mb cfg"
  let ?row = "waiter_record e a ?mem p pc (process_identity (le_host e) pid) (kept_place (le_host e) live (wa_id a) pid)"
  have "pid_start (le_host e) pid \<noteq> []"
    "st' = write_waiters (filter (\<lambda>r. id_str r \<noteq> wa_id a) live @ [?row]) st" "w = waiter_summary ?row"
    using assms(1,3) unfolding register_waiter_def live kept_place_def Let_def waiters_of_def
      assms(2) process_identity_sel
    by (auto simp: pp case_prod_beta split: if_splits)
  then show ?thesis using that [OF refl] by blast
qed

text \<open>a refresh keeps a waiter's place. When the process that registered a waiter registers it
  again within the freshness window, the new record carries the waiting time of the first, so
  first-come order among equal priorities survives refreshes.\<close>

theorem refreshed_waiter_keeps_place:
  assumes "register_waiter e1 a st = (st1, Inr (WaitRegistered w1 ahead1 problems1, rc1))"
    and "register_waiter e2 a st1 = (st2, Inr (WaitRegistered w2 ahead2 problems2, rc2))"
    and "owner_pid e1 (wa_pid a) = pid" and "owner_pid e2 (wa_pid a) = pid"
    and "capacity_config (le_profile e1) (wa_common a) = Inr cfg"
    and "capacity_config (le_profile e2) (wa_common a) = Inr cfg"
    and "still_waiting (le_host e1) (le_host e2) pid (cf_waiter_fresh_secs cfg)"
  shows "wr_waiting_since w2 = wr_waiting_since w1"
proof -
  obtain mem1 p1 pc1 row1 since1 ws where row1:
    "row1 = waiter_record e1 a mem1 p1 pc1 (process_identity (le_host e1) pid) since1"
    "st1 = write_waiters (filter (\<lambda>r. id_str r \<noteq> wa_id a) ws @ [row1]) st"
    "w1 = waiter_summary row1" "pid_start (le_host e1) pid \<noteq> []"
    using register_waiter_Registered [OF assms(1,3,5) refl] by metis
  define live2 where "live2 = fst (live_waiters (le_host e2) (waiters_of st1) (cf_waiter_fresh_secs cfg))"
  obtain mem2 p2 pc2 row2 where row2:
    "row2 = waiter_record e2 a mem2 p2 pc2 (process_identity (le_host e2) pid) (kept_place (le_host e2) live2 (wa_id a) pid)"
    "w2 = waiter_summary row2"
    using register_waiter_Registered [OF assms(2,4,6) live2_def] by metis
  have live2: "live2 = fst (live_waiters (le_host e2) (filter (\<lambda>r. id_str r \<noteq> wa_id a) ws) (cf_waiter_fresh_secs cfg)) @ [row1]"
    unfolding live2_def row1(2) waiter_rows.read_commit
    by (rule registered_waiter_live [OF assms(7) row1(4) row1(1)])
  have others: "\<forall>x \<in> set (fst (live_waiters (le_host e2) (filter (\<lambda>r. id_str r \<noteq> wa_id a) ws)
      (cf_waiter_fresh_secs cfg))). id_str x \<noteq> wa_id a"
    by (auto dest: live_waitersD(1))
  have id1: "id_str row1 = wa_id a" by (simp add: row1(1) waiter_record_fields)
  have found: "find (\<lambda>r. id_str r = wa_id a) (xs @ [row1]) = Some row1"
    if "\<forall>x \<in> set xs. id_str x \<noteq> wa_id a" for xs
    using that id1 by (induction xs) simp_all
  have "find (\<lambda>r. id_str r = wa_id a) live2 = Some row1"
    unfolding live2 by (rule found [OF others])
  then have "kept_place (le_host e2) live2 (wa_id a) pid = since1"
    using assms(7) by (simp add: kept_place_def row1(1) waiter_record_fields still_waiting_def)
  then show ?thesis by (simp add: row1 row2 waiter_summary_def waiter_record_fields)
qed

end
