(* ===== verification/LeaseStore.thy ===== *)
theory LeaseStore
  imports Waiters
begin

section \<open>The lease store: every command, whole\<close>

text \<open>
  The commands of \<open>scripts/leases.py\<close> that change the store: \<open>acquire\<close> (with
  partial and floor grants, the disk axis, ranking and borrowing), \<open>resize\<close>,
  \<open>release\<close>, \<open>heartbeat\<close>, \<open>status_digest\<close>, the guardian hand-over and the
  waiting loop. A command is a function from a store to a store and an answer:
  \<open>Inl\<close> is the exception it raises, \<open>Inr\<close> the reply it prints, with one
  constructor per \<open>reason\<close>. Exclusion is the store lock's: each command reads
  and writes the store as one step.
\<close>

subsection \<open>The start of every command\<close>

definition lock_reclaim ::
  "host \<Rightarrow> int \<Rightarrow> pyval \<Rightarrow> store
    \<Rightarrow> store \<times> (pydict list \<times> pydict list \<times> string list) result" where
  "lock_reclaim h stale_secs releasing_id st =
     (case load_records st of
        Inl err \<Rightarrow> (st, Inl err)
      | Inr records \<Rightarrow>
          let (active, reaped, problems, journal) = reclaim h stale_secs releasing_id records
          in (st\<lparr>st_events := st_events st @ journal\<rparr>, Inr (active, reaped, problems)))"

subsection \<open>Acquire\<close>

record acquire_args =
  aq_common :: common_args
  aq_cores :: int
  aq_mem_mb :: "int option"
  aq_priority :: string
  aq_allow_floor :: bool
  aq_build_class :: "string option"
  aq_min_cores :: int
  aq_wait_secs :: int
  aq_memory_only :: bool
  aq_pid :: "int option"
  aq_id :: "string option"
  aq_kind :: string
  aq_owner :: string
  aq_label :: string
  aq_job_id :: string
  aq_vm_name :: string
  aq_waiter_id :: string
  aq_disk_path :: string
  aq_disk_growth_mb :: int
  aq_disk_floor_mb :: int
  aq_disk_expected_device_id :: string
  aq_disk_expected_mount_path :: string
  aq_home_floor_path :: string
  aq_home_floor_mode :: string

record denial =
  dn_cores :: bool
  dn_memory :: bool
  dn_disk :: bool
  dn_requested_cores :: int
  dn_requested_mem_mb :: int
  dn_verdict :: verdict
  dn_reserve :: int
  dn_reserve_source :: string
  dn_capacity :: usage_figures
  dn_disk_state :: "disk_state option"

record grant =
  gr_lease :: pydict
  gr_floor :: bool
  gr_partial :: bool
  gr_requested_cores :: int
  gr_qos_actions :: "qos_action list"
  gr_capacity :: usage_figures
  gr_disk_state :: "disk_state option"

datatype acquire_outcome =
    VmDiskPathRequired string
  | DiskRootUnavailable probe_error
  | DuplicateLeaseId string
  | LegacyVmDiskAccountingUnknown "string list"
  | DiskDeviceChanged "disk_conflict list"
  | HomeVolumeBelowFloor
  | Exceeded denial
  | DeferredToWaiter waiter_row
  | Granted grant

text \<open>The exit code of an acquisition.\<close>

fun acquire_rc :: "acquire_outcome \<Rightarrow> int" where
  "acquire_rc (Granted g) = 0"
| "acquire_rc (DuplicateLeaseId i) = 73"
| "acquire_rc outcome = 75"

definition acquire_args_error :: "acquire_args \<Rightarrow> py_error option" where
  "acquire_args_error a =
     (if aq_memory_only a then
        (if aq_cores a \<noteq> 0 \<or> (case aq_mem_mb a of None \<Rightarrow> True | Some m \<Rightarrow> m \<le> 0)
         then Some (ValueError ''a memory-only lease takes --cores 0 and a positive --mem-mb'') else None)
      else if aq_cores a \<le> 0 then Some (ValueError ''lease cores must be positive'') else None)"

text \<open>The size that is granted: the request, or the largest partial size that fits.\<close>

definition size_mem :: "config \<Rightarrow> acquire_args \<Rightarrow> int \<Rightarrow> int" where
  "size_mem cfg a n =
     (case aq_mem_mb a of
        Some m \<Rightarrow> max 1 (m * n div aq_cores a)
      | None \<Rightarrow> n * cf_per_job_mem_mb cfg)"

definition requested_mem :: "config \<Rightarrow> acquire_args \<Rightarrow> int" where
  "requested_mem cfg a =
     (case aq_mem_mb a of Some m \<Rightarrow> m | None \<Rightarrow> aq_cores a * cf_per_job_mem_mb cfg)"

definition sized_request ::
  "config \<Rightarrow> usage_figures \<Rightarrow> acquire_args \<Rightarrow> int \<Rightarrow> int \<Rightarrow> int \<times> int \<times> verdict" where
  "sized_request cfg u a priority reserve =
     (let n = aq_cores a; req_mem = requested_mem cfg a;
          v = core_and_memory_verdict cfg u priority n req_mem (aq_build_class a) reserve
      in if aq_min_cores a > 0 \<and> n > aq_min_cores a \<and> \<not> aq_memory_only a \<and> exceeded v then
           (case partial_sizes cfg u priority (aq_build_class a) reserve (size_mem cfg a)
                   (rev [aq_min_cores a..n - 1]) of
              Some partial \<Rightarrow> partial
            | None \<Rightarrow> (n, req_mem, v))
         else (n, req_mem, v))"

text \<open>The record that is stored, with the fields in the order the code writes them.\<close>

definition base_fields ::
  "lease_env \<Rightarrow> acquire_args \<Rightarrow> string \<Rightarrow> int \<Rightarrow> int \<Rightarrow> int \<Rightarrow> string \<Rightarrow> (string \<times> pyval) list" where
  "base_fields e a lease_id n mem priority priority_class =
     (let h = le_host e; ident = process_identity h (owner_pid e (aq_pid a)); now = PStr (iso (utcnow h))
      in [(''id'', PStr lease_id), (''lease_size_cores'', PInt n), (''lease_size_mem_mb'', PInt mem),
          (''priority'', PInt priority), (''priority_class'', PStr priority_class),
          (''pid'', PInt (id_pid ident)),
          (''process_start_time'', PStr (id_process_start_time ident)),
          (''host_boot_time'', PStr (id_host_boot_time ident)),
          (''process_group_id'', id_process_group_id ident), (''session_id'', id_session_id ident),
          (''command_kind'', PStr (aq_kind a)), (''owner'', PStr (aq_owner a)),
          (''label'', PStr (aq_label a)), (''job_id'', PStr (aq_job_id a)),
          (''vm_name'', PStr (aq_vm_name a)), (''created_at'', now), (''heartbeat_at'', now)])"

definition floor_fields :: "config \<Rightarrow> bool \<Rightarrow> int \<Rightarrow> (string \<times> pyval) list" where
  "floor_fields cfg floor requested =
     (if floor then [(''floor'', PBool True), (''qos'', PStr (cf_agent_floor_qos cfg)),
        (''requested_cores'', PInt requested)] else [])"

definition class_fields ::
  "config \<Rightarrow> acquire_args \<Rightarrow> bool \<Rightarrow> int \<Rightarrow> int \<Rightarrow> (string \<times> pyval) list" where
  "class_fields cfg a floor non_gate_used n =
     (case aq_build_class a of
        None \<Rightarrow> []
      | Some build_class \<Rightarrow>
          if floor then []
          else [(''build_class'', PStr build_class)]
            @ (if n < aq_cores a then [(''requested_cores'', PInt (aq_cores a))] else [])
            @ (if build_class = ''interactive'' \<and> non_gate_used + n > guaranteed_limit cfg
               then [(''borrowed'', PBool True)] else []))"

definition disk_fields :: "acquire_args \<Rightarrow> disk_info option \<Rightarrow> (string \<times> pyval) list" where
  "disk_fields a disk = (case disk of
     None \<Rightarrow> []
   | Some d \<Rightarrow>
       [(''disk_device_id'', PStr (dk_device_id d)), (''disk_mount_path'', PStr (dk_mount_path d)),
        (''disk_reservation_path'', PStr (dk_reservation_path d)),
        (''disk_logical_path'', PStr (dk_logical_path d)),
        (''disk_growth_bytes'', PInt (aq_disk_growth_mb a * 1024 * 1024)),
        (''disk_floor_bytes'', PInt (aq_disk_floor_mb a * 1024 * 1024)),
        (''disk_expected_device_id'', PStr (aq_disk_expected_device_id a)),
        (''disk_expected_mount_path'', PStr (aq_disk_expected_mount_path a))])"

definition lease_record ::
  "lease_env \<Rightarrow> acquire_args \<Rightarrow> config \<Rightarrow> string \<Rightarrow> int \<Rightarrow> int \<Rightarrow> int \<Rightarrow> string \<Rightarrow> bool \<Rightarrow> int
    \<Rightarrow> disk_info option \<Rightarrow> pydict" where
  "lease_record e a cfg lease_id n mem priority priority_class floor non_gate_used disk =
     dupdate Map.empty
       (base_fields e a lease_id n mem priority priority_class
        @ floor_fields cfg floor (aq_cores a)
        @ (if aq_memory_only a then [(''memory_only'', PBool True)] else [])
        @ class_fields cfg a floor non_gate_used n
        @ disk_fields a disk)"

text \<open>The commit of a grant: append, remember a gate's size, mark the borrowers, write, settle.\<close>

definition commit_grant ::
  "lease_env \<Rightarrow> acquire_args \<Rightarrow> config \<Rightarrow> int \<Rightarrow> pydict list \<Rightarrow> pydict \<Rightarrow> int \<Rightarrow> bool
    \<Rightarrow> disk_state option \<Rightarrow> store \<Rightarrow> store \<times> grant" where
  "commit_grant e a cfg priority active record n floor disk_state st =
     (let h = le_host e;
          st1 = (if priority \<ge> cf_gate_priority cfg \<and> n > 0
            then write_gate_hint (le_hint_writable e) n st else st);
          (active', qos_actions) = reconcile_borrowers h (active @ [record]) cfg;
          st2 = settle_waiter h cfg (aq_waiter_id a) True (write_records active' st1)
      in (st2, \<lparr>gr_lease = last active', gr_floor = floor, gr_partial = (n < aq_cores a),
            gr_requested_cores = aq_cores a, gr_qos_actions = qos_actions,
            gr_capacity = usage active' cfg, gr_disk_state = disk_state\<rparr>))"

definition hypothetical :: "string \<Rightarrow> int \<Rightarrow> int \<Rightarrow> int \<Rightarrow> pydict" where
  "hypothetical lease_id n mem priority =
     dupdate Map.empty [(''id'', PStr lease_id), (''lease_size_cores'', PInt n),
       (''lease_size_mem_mb'', PInt mem), (''priority'', PInt priority)]"

definition legacy_vm_ids :: "pydict list \<Rightarrow> string list" where
  "legacy_vm_ids active = map (\<lambda>r. text_field r ''id'')
     (filter (\<lambda>r. is_vm_kind (dget r ''command_kind'') \<and> \<not> record_has_complete_disk_accounting r) active)"

text \<open>From the disk probe to the admission check: the refusals that precede it.\<close>

definition acquire_refusal ::
  "lease_env \<Rightarrow> acquire_args \<Rightarrow> string \<Rightarrow> pydict list \<Rightarrow> disk_info option \<Rightarrow> acquire_outcome option" where
  "acquire_refusal e a lease_id active disk =
     (if list_ex (\<lambda>r. id_str r = lease_id) active then Some (DuplicateLeaseId lease_id)
      else case disk of
        None \<Rightarrow> None
      | Some d \<Rightarrow>
          if legacy_vm_ids active \<noteq> []
          then Some (LegacyVmDiskAccountingUnknown (sort (legacy_vm_ids active)))
          else if disk_identity_conflicts active d \<noteq> []
          then Some (DiskDeviceChanged (disk_identity_conflicts active d))
          else if aq_home_floor_path a \<noteq> [] \<and> le_home_below e
               \<and> aq_home_floor_mode a \<noteq> [] \<and> aq_home_floor_mode a \<noteq> ''report''
          then Some HomeVolumeBelowFloor
          else None)"

definition probe_disk :: "lease_env \<Rightarrow> acquire_args \<Rightarrow> probe_error + disk_info option" where
  "probe_disk e a =
     (if aq_disk_path a = [] then Inr None
      else case disk_probe (le_fs e) (aq_disk_path a) (aq_disk_expected_device_id a)
                  (aq_disk_expected_mount_path a) of
          Inl err \<Rightarrow> Inl err | Inr d \<Rightarrow> Inr (Some d))"

text \<open>The admission itself: the size, the floor, the refusal on an axis, the ranking and the grant.\<close>

definition acquire_decide ::
  "lease_env \<Rightarrow> acquire_args \<Rightarrow> config \<Rightarrow> int \<Rightarrow> string \<Rightarrow> string \<Rightarrow> pydict list \<Rightarrow> disk_info option
    \<Rightarrow> store \<Rightarrow> store \<times> acquire_outcome \<times> string list" where
  "acquire_decide e a cfg priority priority_class lease_id active disk st =
     (let h = le_host e;
          u = usage active cfg;
          (reserve, reserve_source) = prompt_reserve h st cfg;
          (n, req_mem, v) = sized_request cfg u a priority reserve;
          disk_state = map_option (\<lambda>d. disk_capacity active d
            (aq_disk_growth_mb a * 1024 * 1024) (aq_disk_floor_mb a * 1024 * 1024)) disk;
          disk_over = (case disk_state of None \<Rightarrow> False | Some s \<Rightarrow> disk_exceeded s);
          core_axis = (vd_total_exceeded v \<or> vd_class_exceeded v);
          floor = (if core_axis \<and> \<not> disk_over \<and> aq_build_class a \<noteq> Some ''interactive''
            then floor_grant (aq_allow_floor a) (PStr (aq_kind a)) cfg active priority n req_mem
            else None)
      in case floor of
           Some (fn, fmem) \<Rightarrow>
             (let record = lease_record e a cfg lease_id fn fmem priority priority_class True
                    (us_non_gate_used_cores u) disk;
                  (st', g) = commit_grant e a cfg priority active record fn True disk_state st
              in (st', Granted g, []))
         | None \<Rightarrow>
             if exceeded v \<or> disk_over then
               (settle_waiter h cfg (aq_waiter_id a) False (write_records active st),
                Exceeded \<lparr>dn_cores = core_axis, dn_memory = vd_mem_exceeded v,
                  dn_disk = disk_over, dn_requested_cores = n, dn_requested_mem_mb = req_mem,
                  dn_verdict = v, dn_reserve = reserve, dn_reserve_source = reserve_source,
                  dn_capacity = u, dn_disk_state = disk_state\<rparr>, [])
             else
               let (st1, blocker, waiter_problems) = rank_check h cfg (PStr (aq_kind a)) priority
                     active (active @ [hypothetical lease_id n req_mem priority])
                     (aq_waiter_id a) st
               in case blocker of
                    Some w \<Rightarrow>
                      (settle_waiter h cfg (aq_waiter_id a) False (write_records active st1),
                       DeferredToWaiter (waiter_summary w), waiter_problems)
                  | None \<Rightarrow>
                      (let record = lease_record e a cfg lease_id n req_mem priority
                             priority_class False (us_non_gate_used_cores u) disk;
                           (st', g) = commit_grant e a cfg priority active record n False
                             disk_state st1
                       in (st', Granted g, waiter_problems)))"

definition acquire_locked ::
  "lease_env \<Rightarrow> acquire_args \<Rightarrow> config \<Rightarrow> int \<Rightarrow> string \<Rightarrow> string \<Rightarrow> pydict list \<Rightarrow> store
    \<Rightarrow> store \<times> (acquire_outcome \<times> string list) result" where
  "acquire_locked e a cfg priority priority_class lease_id active st =
     (let h = le_host e; keep = write_records active st in
      case probe_disk e a of
        Inl err \<Rightarrow> (keep, Inr (DiskRootUnavailable err, []))
      | Inr disk \<Rightarrow>
          (case acquire_refusal e a lease_id active disk of
             Some outcome \<Rightarrow>
               (case outcome of HomeVolumeBelowFloor \<Rightarrow> settle_waiter h cfg (aq_waiter_id a) False keep
                | _ \<Rightarrow> keep, Inr (outcome, []))
           | None \<Rightarrow>
               if aq_build_class a \<noteq> None \<and> priority \<ge> cf_gate_priority cfg
               then (st, Inl (ValueError ''--class applies to non-gate build leases only''))
               else (case acquire_decide e a cfg priority priority_class lease_id active disk st of
                   (st', answer) \<Rightarrow> (st', Inr answer))))"

text \<open>The whole command: outcome, reaped summary and problems.\<close>

type_synonym acquire_reply = "acquire_outcome \<times> (pyval \<times> pyval) list \<times> string list"

definition acquire :: "lease_env \<Rightarrow> acquire_args \<Rightarrow> store \<Rightarrow> store \<times> acquire_reply result" where
  "acquire e a st =
     (case capacity_config (le_profile e) (aq_common a) of
        Inl err \<Rightarrow> (st, Inl err)
      | Inr cfg \<Rightarrow>
      case parse_priority (Some (aq_priority a)) of
        Inl err \<Rightarrow> (st, Inl err)
      | Inr (priority, priority_class) \<Rightarrow>
      case acquire_args_error a of
        Some err \<Rightarrow> (st, Inl err)
      | None \<Rightarrow>
          let lease_id = (case aq_id a of
                Some i \<Rightarrow> if i \<noteq> [] then i else le_uuid4 e | None \<Rightarrow> le_uuid4 e) in
          if is_vm_kind (PStr (aq_kind a)) \<and> aq_disk_path a = []
          then (st, Inr (VmDiskPathRequired lease_id, [], []))
          else if aq_disk_path a \<noteq> [] \<and> (aq_disk_growth_mb a < 0 \<or> aq_disk_floor_mb a < 0)
          then (st, Inl (ValueError ''disk growth and floor must be non-negative''))
          else case lock_reclaim (le_host e) (ca_stale_secs (aq_common a)) PNone st of
              (st0, Inl err) \<Rightarrow> (st0, Inl err)
            | (st0, Inr (active, reaped, problems)) \<Rightarrow>
                (case acquire_locked e a cfg priority priority_class lease_id active st0 of
                   (st', Inl err) \<Rightarrow> (st', Inl err)
                 | (st', Inr (outcome, extra)) \<Rightarrow>
                     (st', Inr (outcome, reaped_summary reaped, problem_summary (problems @ extra)))))"

subsection \<open>Resize\<close>

fun update_first :: "('a \<Rightarrow> bool) \<Rightarrow> ('a \<Rightarrow> 'a) \<Rightarrow> 'a list \<Rightarrow> 'a list" where
  "update_first P f [] = []"
| "update_first P f (x # xs) = (if P x then f x # xs else x # update_first P f xs)"

definition has_id :: "string \<Rightarrow> pydict \<Rightarrow> bool" where
  "has_id lease_id record = (dget record ''id'' = PStr lease_id)"

record resize_args =
  rz_common :: common_args
  rz_id :: string
  rz_cores :: int
  rz_mem_mb :: "int option"
  rz_priority :: "string option"
  rz_label :: string
  rz_waiter_id :: string

datatype resize_outcome =
    UnknownLease
  | ResizeExceeded bool bool
  | ResizeDeferred waiter_row
  | Resized pydict "int \<times> int" "qos_action list" usage_figures

fun resize_rc :: "resize_outcome \<Rightarrow> int" where
  "resize_rc UnknownLease = 1"
| "resize_rc (ResizeExceeded c m) = 75"
| "resize_rc (ResizeDeferred w) = 75"
| "resize_rc (Resized r p q u) = 0"

definition resized_record ::
  "host \<Rightarrow> resize_args \<Rightarrow> int \<Rightarrow> int \<Rightarrow> string \<Rightarrow> pydict \<Rightarrow> pydict" where
  "resized_record h a req_mem priority priority_class record =
     (let r = dpop (dupdate record
            [(''lease_size_cores'', PInt (rz_cores a)), (''lease_size_mem_mb'', PInt req_mem),
             (''priority'', PInt priority), (''priority_class'', PStr priority_class),
             (''heartbeat_at'', PStr (iso (utcnow h)))]) [''memory_only'']
      in if rz_label a \<noteq> [] then r(''label'' \<mapsto> PStr (rz_label a)) else r)"

definition resize_priority :: "resize_args \<Rightarrow> pydict \<Rightarrow> (int \<times> string) result" where
  "resize_priority a record = (case rz_priority a of
     Some p \<Rightarrow> parse_priority (Some p)
   | None \<Rightarrow> Inr (priority_of record,
       py_str (py_or (dget record ''priority_class'') (PInt (priority_of record)))))"

definition resize_locked ::
  "lease_env \<Rightarrow> resize_args \<Rightarrow> config \<Rightarrow> pydict list \<Rightarrow> store
    \<Rightarrow> store \<times> (resize_outcome \<times> string list) result" where
  "resize_locked e a cfg active st =
     (let h = le_host e; keep = write_records active st in
      case find (has_id (rz_id a)) active of
        None \<Rightarrow> (keep, Inr (UnknownLease, []))
      | Some record \<Rightarrow>
      case resize_priority a record of
        Inl err \<Rightarrow> (st, Inl err)
      | Inr (priority, priority_class) \<Rightarrow>
          let req_mem = (case rz_mem_mb a of Some m \<Rightarrow> m
                | None \<Rightarrow> record_mem_mb record (cf_per_job_mem_mb cfg));
              others = filter (\<lambda>r. \<not> has_id (rz_id a) r) active;
              u = usage others cfg;
              v = core_and_memory_verdict cfg u priority (rz_cores a) req_mem None 0;
              core_axis = (vd_total_exceeded v \<or> vd_class_exceeded v)
          in if exceeded v then
               (settle_waiter h cfg (rz_waiter_id a) False keep,
                Inr (ResizeExceeded core_axis (vd_mem_exceeded v), []))
             else
               let resized = dupdate record [(''lease_size_cores'', PInt (rz_cores a)),
                     (''lease_size_mem_mb'', PInt req_mem), (''priority'', PInt priority)];
                   (st1, blocker, waiter_problems) = rank_check h cfg (dget record ''command_kind'')
                     priority active (others @ [resized]) (rz_waiter_id a) st
               in case blocker of
                    Some w \<Rightarrow>
                      (settle_waiter h cfg (rz_waiter_id a) False (write_records active st1),
                       Inr (ResizeDeferred (waiter_summary w), waiter_problems))
                  | None \<Rightarrow>
                      let previous = (cores_of record, record_mem_mb record (cf_per_job_mem_mb cfg));
                          updated = update_first (has_id (rz_id a))
                            (resized_record h a req_mem priority priority_class) active;
                          st2 = (if priority \<ge> cf_gate_priority cfg
                            then write_gate_hint (le_hint_writable e) (rz_cores a) st1 else st1);
                          (active', qos_actions) = reconcile_borrowers h updated cfg
                      in (settle_waiter h cfg (rz_waiter_id a) True (write_records active' st2),
                          Inr (Resized (the (find (has_id (rz_id a)) active')) previous qos_actions
                            (usage active' cfg), waiter_problems)))"

definition resize ::
  "lease_env \<Rightarrow> resize_args \<Rightarrow> store
    \<Rightarrow> store \<times> (resize_outcome \<times> (pyval \<times> pyval) list \<times> string list) result" where
  "resize e a st =
     (case capacity_config (le_profile e) (rz_common a) of
        Inl err \<Rightarrow> (st, Inl err)
      | Inr cfg \<Rightarrow>
          if rz_cores a \<le> 0 then (st, Inl (ValueError ''resize takes positive --cores''))
          else case lock_reclaim (le_host e) (ca_stale_secs (rz_common a)) PNone st of
              (st0, Inl err) \<Rightarrow> (st0, Inl err)
            | (st0, Inr (active, reaped, problems)) \<Rightarrow>
                (case resize_locked e a cfg active st0 of
                   (st', Inl err) \<Rightarrow> (st', Inl err)
                 | (st', Inr (outcome, extra)) \<Rightarrow>
                     (st', Inr (outcome, reaped_summary reaped, problem_summary (problems @ extra)))))"

subsection \<open>Release, heartbeat and status\<close>

record release_reply =
  rl_ok :: bool
  rl_released :: "string option"
  rl_already_reclaimed :: pyval
  rl_qos_actions :: "qos_action list"
  rl_capacity :: usage_figures
  rl_reaped :: "(pyval \<times> pyval) list"
  rl_problems :: "string list"

definition release ::
  "lease_env \<Rightarrow> common_args \<Rightarrow> string \<Rightarrow> store \<Rightarrow> store \<times> (release_reply \<times> int) result" where
  "release e c lease_id st =
     (case capacity_config (le_profile e) c of
        Inl err \<Rightarrow> (st, Inl err)
      | Inr cfg \<Rightarrow>
      case lock_reclaim (le_host e) (ca_stale_secs c) (PStr lease_id) st of
        (st0, Inl err) \<Rightarrow> (st0, Inl err)
      | (st0, Inr (active, reaped, problems)) \<Rightarrow>
          let kept = filter (\<lambda>r. \<not> has_id lease_id r) active;
              removed = (length kept \<noteq> length active);
              already = (case find (has_id lease_id) reaped of
                  Some row \<Rightarrow> dget row ''_reap_reason'' | None \<Rightarrow> PNone);
              (kept', actions) = reconcile_borrowers (le_host e) kept cfg;
              freed = map (\<lambda>r. \<lparr>qa_pid = record_int r ''pid'' 0, qa_qos = ''normal'', qa_id = lease_id\<rparr>)
                (filter (\<lambda>r. has_id lease_id r \<and> is_preempted r) active);
              ok = (removed \<or> already \<noteq> PNone)
          in (write_records kept' st0,
              Inr (\<lparr>rl_ok = ok, rl_released = (if removed then Some lease_id else None),
                rl_already_reclaimed = already, rl_qos_actions = actions @ freed,
                rl_capacity = usage kept' cfg, rl_reaped = reaped_summary reaped,
                rl_problems = problem_summary problems\<rparr>, if ok then 0 else 1)))"

definition heartbeat ::
  "lease_env \<Rightarrow> common_args \<Rightarrow> string \<Rightarrow> store \<Rightarrow> store \<times> (bool \<times> qos_action list \<times> usage_figures \<times> int) result" where
  "heartbeat e c lease_id st =
     (case capacity_config (le_profile e) c of
        Inl err \<Rightarrow> (st, Inl err)
      | Inr cfg \<Rightarrow>
      case lock_reclaim (le_host e) (ca_stale_secs c) PNone st of
        (st0, Inl err) \<Rightarrow> (st0, Inl err)
      | (st0, Inr (active, reaped, problems)) \<Rightarrow>
          let updated = list_ex (has_id lease_id) active;
              beaten = update_first (has_id lease_id)
                (\<lambda>r. r(''heartbeat_at'' \<mapsto> PStr (iso (utcnow (le_host e))))) active;
              (active', actions) = reconcile_borrowers (le_host e) beaten cfg
          in (write_records active' st0,
              Inr (updated, actions, usage active' cfg, if updated then 0 else 1)))"

text \<open>The disk rows of a status: one probe per device, in store order; a lease without complete
  accounting and a failed probe are problems.\<close>

fun status_disks ::
  "volume_fs \<Rightarrow> pydict list \<Rightarrow> string list \<Rightarrow> pydict list \<Rightarrow> disk_state list \<times> string list" where
  "status_disks fs active seen [] = ([], [])"
| "status_disks fs active seen (record # records) =
     (let device_id = text_field record ''disk_device_id'';
          path = text_field record ''disk_reservation_path'';
          legacy = (if is_vm_kind (dget record ''command_kind'')
              \<and> \<not> record_has_complete_disk_accounting record
            then [''legacy_vm_disk_accounting_unknown:'' @ id_str record] else [])
      in if device_id = [] \<or> path = [] \<or> device_id \<in> set seen then
           (let (vols, problems) = status_disks fs active seen records in (vols, legacy @ problems))
         else
           (let (vols, problems) = status_disks fs active (device_id # seen) records in
            case disk_probe fs path device_id (text_field record ''disk_mount_path'') of
              Inr probe \<Rightarrow> (disk_capacity active probe 0 0 # vols, legacy @ problems)
            | Inl err \<Rightarrow> (vols, legacy @ [''disk_probe_failed:'' @ device_id] @ problems)))"

record status_reply =
  sr_waiters :: "waiter_row list option"
  sr_capacity :: usage_figures
  sr_interactive_available :: int
  sr_background_available :: int
  sr_disk_volumes :: "disk_state list"
  sr_leases :: "pydict list"
  sr_reaped :: "(pyval \<times> pyval) list"
  sr_problems :: "string list"

definition status_digest :: "lease_env \<Rightarrow> common_args \<Rightarrow> store \<Rightarrow> store \<times> status_reply result" where
  "status_digest e c st =
     (case capacity_config (le_profile e) c of
        Inl err \<Rightarrow> (st, Inl err)
      | Inr cfg \<Rightarrow>
      case lock_reclaim (le_host e) (ca_stale_secs c) PNone st of
        (st0, Inl err) \<Rightarrow> (st0, Inl err)
      | (st0, Inr (active, reaped, problems)) \<Rightarrow>
          let st1 = (if \<not> List.null reaped then write_records active st0 else st0);
              (vols, disk_problems) = status_disks (le_fs e) active [] active;
              (waiters, waiter_problems) = load_waiters st1;
              live = fst (live_waiters (le_host e) waiters (cf_waiter_fresh_secs cfg));
              rows = map waiter_summary (sort_key (\<lambda>row. (- priority_of row, text_field row ''waiting_since'')) live);
              (interactive, background) = class_available active cfg (fst (prompt_reserve (le_host e) st1 cfg))
          in (st1, Inr \<lparr>sr_waiters = (if cf_rank_vm_waiters cfg then Some rows else None),
                sr_capacity = usage active cfg,
                sr_interactive_available = interactive, sr_background_available = background,
                sr_disk_volumes = sort_key ds_device_id vols,
                sr_leases = sort_records active, sr_reaped = reaped_summary reaped,
                sr_problems = problem_summary (problems @ disk_problems
                  @ (if cf_rank_vm_waiters cfg then waiter_problems else []))\<rparr>))"

subsection \<open>Guardians\<close>

definition GUARDIAN_FIELDS :: "string list" where
  "GUARDIAN_FIELDS =
     [''guardian_pid'', ''guardian_process_start_time'', ''guardian_host_boot_time'',
      ''guardian_process_group_id'', ''guardian_session_id'', ''guardian_mode'',
      ''guardian_writer_pid'', ''guardian_writer_process_start_time'',
      ''guardian_writer_host_boot_time'', ''guardian_writer_process_group_id'',
      ''guardian_writer_session_id'']"

text \<open>The five identity fields under a prefix.\<close>

definition identity_fields :: "string \<Rightarrow> identity \<Rightarrow> (string \<times> pyval) list" where
  "identity_fields prefix ident =
     [(prefix @ ''pid'', PInt (id_pid ident)),
      (prefix @ ''process_start_time'', PStr (id_process_start_time ident)),
      (prefix @ ''host_boot_time'', PStr (id_host_boot_time ident)),
      (prefix @ ''process_group_id'', id_process_group_id ident),
      (prefix @ ''session_id'', id_session_id ident)]"

definition guardian_identity_matches :: "pydict \<Rightarrow> identity \<Rightarrow> bool \<Rightarrow> bool" where
  "guardian_identity_matches record ident writer =
     (let prefix = (if writer then ''guardian_writer_'' else ''guardian_'') in
      py_eq (dget record (prefix @ ''pid'')) (PInt (id_pid ident))
      \<and> dget record (prefix @ ''process_start_time'') = PStr (id_process_start_time ident)
      \<and> dget record (prefix @ ''host_boot_time'') = PStr (id_host_boot_time ident))"

definition attach_guardian ::
  "lease_env \<Rightarrow> int \<Rightarrow> string \<Rightarrow> identity \<Rightarrow> string \<Rightarrow> store \<Rightarrow> store \<times> unit result" where
  "attach_guardian e stale_secs lease_id ident mode st =
     (if id_process_start_time ident = []
      then (st, Inl (RuntimeError ''cannot prove exact VM guardian process start identity''))
      else case lock_reclaim (le_host e) stale_secs PNone st of
        (st0, Inl err) \<Rightarrow> (st0, Inl err)
      | (st0, Inr (active, reaped, problems)) \<Rightarrow>
          (case find (has_id lease_id) active of
             None \<Rightarrow> (write_records active st0, Inl (ValueError ''cannot guard missing lease''))
           | Some target \<Rightarrow>
               if \<not> is_vm_kind (dget target ''command_kind'')
               then (st0, Inl (ValueError ''lease is not a VM lease''))
               else if has_key target ''guardian_pid''
               then (st0, Inl (ValueError ''lease already has an authoritative guardian''))
               else (write_records (update_first (has_id lease_id)
                       (\<lambda>r. dupdate r (identity_fields ''guardian_'' ident @ [(''guardian_mode'', PStr mode)]))
                       active) st0, Inr ())))"

definition attach_guardian_writer ::
  "string \<Rightarrow> identity \<Rightarrow> identity \<Rightarrow> store \<Rightarrow> store \<times> unit result" where
  "attach_guardian_writer lease_id guardian writer st =
     (if id_process_start_time writer = []
      then (st, Inl (RuntimeError ''cannot prove exact guarded writer process start identity''))
      else case load_records st of
        Inl err \<Rightarrow> (st, Inl err)
      | Inr records \<Rightarrow>
          (case find (has_id lease_id) records of
             None \<Rightarrow> (st, Inl (ValueError ''guardian lost ownership before writer start''))
           | Some target \<Rightarrow>
               if \<not> guardian_identity_matches target guardian False
               then (st, Inl (ValueError ''guardian lost ownership before writer start''))
               else if dget target ''guardian_mode'' \<noteq> PStr ''managed-child''
               then (st, Inl (ValueError ''lease is not a managed-child guardian''))
               else (write_records (update_first (has_id lease_id)
                       (\<lambda>r. dupdate r (identity_fields ''guardian_writer_'' writer)) records) st, Inr ())))"

text \<open>\<open>records.remove(target)\<close> removes the first record equal to the target, which is the first
  record with the target's id, since the target is the first such record.\<close>

fun remove_first :: "('a \<Rightarrow> bool) \<Rightarrow> 'a list \<Rightarrow> 'a list" where
  "remove_first P [] = []"
| "remove_first P (x # xs) = (if P x then xs else x # remove_first P xs)"

definition finish_guard_run ::
  "lease_env \<Rightarrow> string \<Rightarrow> identity \<Rightarrow> identity option \<Rightarrow> store \<Rightarrow> store \<times> unit result" where
  "finish_guard_run e lease_id guardian writer st =
     (case load_records st of
        Inl err \<Rightarrow> (st, Inl err)
      | Inr records \<Rightarrow>
          (case find (has_id lease_id) records of
             None \<Rightarrow> (st, Inr ())
           | Some target \<Rightarrow>
               if \<not> guardian_identity_matches target guardian False
               then (st, Inl (ValueError ''guardian lost ownership during writer run''))
               else if (case writer of None \<Rightarrow> False | Some w \<Rightarrow> \<not> guardian_identity_matches target w True)
               then (st, Inl (ValueError ''guarded writer identity changed''))
               else let h = le_host e;
                   (supervisor, evidence) = identity_verdict h target ''pid'' ''process_start_time''
                     ''host_boot_time'' (host_boot_time h) False
               in if supervisor = OwnerDead then
                    (write_records (remove_first (has_id lease_id) records)
                      (st\<lparr>st_events := st_events st @
                        [LeaseReaped (PStr lease_id) ''guard_run_finished_supervisor_dead'' evidence]\<rparr>), Inr ())
                  else (write_records (update_first (has_id lease_id)
                      (\<lambda>r. dpop r GUARDIAN_FIELDS) records) st, Inr ())))"

subsection \<open>Acquire, retried\<close>

text \<open>One round of the loop: the surroundings at the attempt, the monotonic clock after it (in
  milliseconds), and what other commands did to the store while it slept.\<close>

record attempt =
  at_env :: lease_env
  at_clock :: int
  at_meanwhile :: "store \<Rightarrow> store"

definition WAIT_POLL_MS :: int where
  "WAIT_POLL_MS = 2000"

text \<open>The loop of \<open>acquire_with_wait\<close> over the rounds it observes; \<open>None\<close> when they run out
  before it returns.\<close>

fun acquire_loop ::
  "acquire_args \<Rightarrow> int \<Rightarrow> nat \<Rightarrow> attempt list \<Rightarrow> store \<Rightarrow> (store \<times> acquire_reply result \<times> nat) option" where
  "acquire_loop a deadline attempts [] st = None"
| "acquire_loop a deadline attempts (t # ts) st =
     (let (st', reply) = acquire (at_env t) a st;
          retry = (case reply of Inr (outcome, x) \<Rightarrow> acquire_rc outcome = 75 | Inl err \<Rightarrow> False)
      in if \<not> retry \<or> at_clock t + WAIT_POLL_MS > deadline
         then Some (st', reply, Suc attempts)
         else acquire_loop a deadline (Suc attempts) ts (at_meanwhile t st'))"

definition acquire_with_wait ::
  "acquire_args \<Rightarrow> int \<Rightarrow> attempt list \<Rightarrow> store \<Rightarrow> (store \<times> acquire_reply result \<times> nat) option" where
  "acquire_with_wait a start ts st = acquire_loop a (start + max 0 (aq_wait_secs a) * 1000) 0 ts st"

subsection \<open>The store invariant\<close>

text \<open>What every store a lease command leaves behind satisfies: distinct ids, a positive memory
  charge for every lease, and the core, memory and floor axes within their limits.\<close>

definition charged :: "config \<Rightarrow> pydict \<Rightarrow> bool" where
  "charged cfg record = (0 < record_mem_mb record (cf_per_job_mem_mb cfg))"

definition rows_ok :: "config \<Rightarrow> pydict list \<Rightarrow> bool" where
  "rows_ok cfg rs =
     (distinct (map id_str rs) \<and> list_all (charged cfg) rs
      \<and> core_inv cfg rs \<and> mem_inv cfg rs \<and> floor_inv cfg rs)"

definition store_ok :: "config \<Rightarrow> store \<Rightarrow> bool" where
  "store_ok cfg st = (\<exists>rs. load_records st = Inr rs \<and> rows_ok cfg rs)"

lemma rows_ok_sized: "rows_ok cfg rs \<Longrightarrow> list_all sized rs"
  by (simp add: rows_ok_def core_inv_def)

lemma rows_ok_filter: "rows_ok cfg rs \<Longrightarrow> config_ok cfg \<Longrightarrow> rows_ok cfg (filter P rs)"
  using rows_ok_sized [of cfg rs]
  by (simp add: rows_ok_def core_inv_filter mem_inv_filter floor_inv_filter distinct_map_filter
      list_all_iff)

lemma charged_same: "list_all2 same_accounting rs ss \<Longrightarrow> list_all (charged cfg) rs = list_all (charged cfg) ss"
  by (induction rs ss rule: list_all2_induct) (simp_all add: charged_def same_accountingD)

lemma rows_ok_same: "list_all2 same_accounting rs ss \<Longrightarrow> rows_ok cfg rs = rows_ok cfg ss"
  by (simp add: rows_ok_def same_accounting_inv same_accounting_sums charged_same)

lemma rows_ok_mset:
  assumes "mset rs = mset ss"
  shows "rows_ok cfg rs = rows_ok cfg ss"
proof -
  have "mset (map id_str rs) = mset (map id_str ss)" using assms by simp
  then have "distinct (map id_str rs) = distinct (map id_str ss)"
    by (rule mset_eq_imp_distinct_iff)
  moreover have "set rs = set ss" using assms by (rule mset_eq_setD)
  ultimately show ?thesis
    using core_inv_mset [OF assms] mem_inv_mset [OF assms] floor_inv_mset [OF assms]
    by (simp add: rows_ok_def list_all_iff)
qed

text \<open>Adding an ordinary lease that the verdict admits, and a floor lease within the pool.\<close>

lemma rows_ok_admit:
  assumes "rows_ok cfg rs" and "id_str r \<notin> set (map id_str rs)"
    and ok: "\<not> exceeded (core_and_memory_verdict cfg (usage rs cfg) (priority_of r) (cores_of r)
      (record_mem_mb r (cf_per_job_mem_mb cfg)) bc res)"
    and "sized r" "borrow_marked r" "\<not> is_floor r" "charged cfg r"
    and room: "\<not> is_gate_record r cfg \<Longrightarrow> \<not> is_borrowed r \<Longrightarrow>
      sum_over (non_gate_charge cfg) rs + cores_of r \<le> guaranteed_limit cfg"
  shows "rows_ok cfg (rs @ [r])"
  using assms core_inv_admit [OF _ ok] mem_inv_admit [OF _ ok]
  by (auto simp: rows_ok_def floor_inv_def floor_charge_def)

lemma rows_ok_floor:
  assumes "rows_ok cfg rs" and "id_str r \<notin> set (map id_str rs)"
    and "is_floor r" "sized r" "borrow_marked r" "charged cfg r"
    and "sum_over floor_charge rs + cores_of r \<le> cf_agent_floor_pool_cores cfg"
  shows "rows_ok cfg (rs @ [r])"
  using assms by (auto simp: rows_ok_def core_inv_floor mem_inv_floor floor_inv_def floor_charge_def)

lemma rows_ok_reconcile: "rows_ok cfg (fst (reconcile_borrowers h rs cfg)) = rows_ok cfg rs"
  by (rule rows_ok_same) (rule reconcile_same)

lemma store_ok_write: "rows_ok cfg rs \<Longrightarrow> store_ok cfg (write_records rs st)"
  by (simp add: store_ok_def)

lemma load_settle [simp]: "load_records (settle_waiter h cfg w granted st) = load_records st"
  by (simp add: settle_waiter_def Let_def split: prod.split option.split)

lemma load_hint [simp]: "load_records (write_gate_hint wr n st) = load_records st"
  by (simp add: write_gate_hint_def)

lemma load_rank_check: "rank_check h cfg kind p before after w st = (st', blocker, problems) \<Longrightarrow>
    load_records st' = load_records st"
  by (auto simp: rank_check_def Let_def split: if_splits prod.splits)

lemma store_ok_settle [simp]: "store_ok cfg (settle_waiter h cfg' w granted st) = store_ok cfg st"
  by (simp add: store_ok_def)

lemma lock_reclaim_cases:
  assumes "store_ok cfg st" and "config_ok cfg"
  obtains active reaped problems st0 where
    "lock_reclaim h stale releasing st = (st0, Inr (active, reaped, problems))"
    "rows_ok cfg active" "store_ok cfg st0"
    "active = filter (\<lambda>r. \<not> reap_dead h releasing r) (records_of st)"
proof -
  obtain rs where rs: "load_records st = Inr rs" "rows_ok cfg rs"
    using assms(1) by (auto simp: store_ok_def)
  obtain active reaped problems journal where r:
    "reclaim h stale releasing rs = (active, reaped, problems, journal)" by (metis prod_cases4)
  have "rows_ok cfg active"
    unfolding reclaim_eqD(1) [OF r] using rs(2) assms(2) by (rule rows_ok_filter)
  moreover have "store_ok cfg (st\<lparr>st_events := st_events st @ journal\<rparr>)"
    using rs by (simp add: store_ok_def)
  ultimately show ?thesis
    using that reclaim_eqD(1) [OF r] rs(1) r by (simp add: lock_reclaim_def records_of_def)
qed

subsection \<open>Every grant keeps the invariant\<close>

lemma floor_fields_other:
  "k \<notin> {''floor'', ''qos'', ''requested_cores''} \<Longrightarrow> dupdate d (floor_fields cfg fl n) k = d k"
  by (cases fl) (simp_all add: floor_fields_def)

lemma memory_only_other:
  "k \<noteq> ''memory_only'' \<Longrightarrow> dupdate d (if b then [(''memory_only'', PBool True)] else []) k = d k"
  by simp

lemma class_fields_other:
  "k \<notin> {''build_class'', ''requested_cores'', ''borrowed''} \<Longrightarrow> dupdate d (class_fields cfg a fl ng n) k = d k"
  by (cases "aq_build_class a") (simp_all add: class_fields_def)

lemma disk_fields_other:
  "k \<notin> {''disk_device_id'', ''disk_mount_path'', ''disk_reservation_path'', ''disk_logical_path'',
     ''disk_growth_bytes'', ''disk_floor_bytes'', ''disk_expected_device_id'', ''disk_expected_mount_path''}
   \<Longrightarrow> dupdate d (disk_fields a disk) k = d k"
  by (cases disk) (simp_all add: disk_fields_def)

lemmas fields_other = floor_fields_other memory_only_other class_fields_other disk_fields_other

lemma base_fields_keys:
  "fst ` set (base_fields e a lease_id n mem priority pc) =
     {''id'', ''lease_size_cores'', ''lease_size_mem_mb'', ''priority'', ''priority_class'', ''pid'',
      ''process_start_time'', ''host_boot_time'', ''process_group_id'', ''session_id'', ''command_kind'',
      ''owner'', ''label'', ''job_id'', ''vm_name'', ''created_at'', ''heartbeat_at''}"
  by (simp add: base_fields_def Let_def)

lemma lease_record_base:
  "dget (lease_record e a cfg lease_id n mem priority pc floor ng disk) ''id'' = PStr lease_id"
  "dget (lease_record e a cfg lease_id n mem priority pc floor ng disk) ''lease_size_cores'' = PInt n"
  "dget (lease_record e a cfg lease_id n mem priority pc floor ng disk) ''lease_size_mem_mb'' = PInt mem"
  "has_key (lease_record e a cfg lease_id n mem priority pc floor ng disk) ''lease_size_mem_mb''"
  "dget (lease_record e a cfg lease_id n mem priority pc floor ng disk) ''priority'' = PInt priority"
  by (simp_all add: dget_def has_key_def lease_record_def fields_other)
    (simp_all add: base_fields_def Let_def)

lemma lease_record_floor:
  "is_floor (lease_record e a cfg lease_id n mem priority pc floor ng disk) = floor"
proof -
  have "lease_record e a cfg lease_id n mem priority pc floor ng disk ''floor'' =
      dupdate (dupdate Map.empty (base_fields e a lease_id n mem priority pc))
        (floor_fields cfg floor (aq_cores a)) ''floor''"
    by (simp add: lease_record_def fields_other)
  also have "\<dots> = (if floor then Some (PBool True) else None)"
    using dupdate_other [of "''floor''" "base_fields e a lease_id n mem priority pc" Map.empty]
    by (simp add: floor_fields_def base_fields_keys)
  finally show ?thesis by (simp add: is_floor_def dget_def)
qed

lemma class_fields_borrowed:
  "d ''borrowed'' = None \<Longrightarrow> dupdate d (class_fields cfg a fl ng n) ''borrowed'' =
     (if \<not> fl \<and> aq_build_class a = Some ''interactive'' \<and> ng + n > guaranteed_limit cfg
      then Some (PBool True) else None)"
  by (simp add: class_fields_def split: option.split)

lemma class_fields_build_class:
  "\<not> fl \<Longrightarrow> aq_build_class a = Some c \<Longrightarrow> dupdate d (class_fields cfg a fl ng n) ''build_class'' = Some (PStr c)"
  by (simp add: class_fields_def)

lemma lease_record_borrowed:
  "is_borrowed (lease_record e a cfg lease_id n mem priority pc floor ng disk) =
     (\<not> floor \<and> aq_build_class a = Some ''interactive'' \<and> ng + n > guaranteed_limit cfg)"
proof -
  let ?d = "dupdate (dupdate (dupdate Map.empty (base_fields e a lease_id n mem priority pc))
        (floor_fields cfg floor (aq_cores a))) (if aq_memory_only a then [(''memory_only'', PBool True)] else [])"
  have "lease_record e a cfg lease_id n mem priority pc floor ng disk ''borrowed'' =
      dupdate ?d (class_fields cfg a floor ng n) ''borrowed''"
    by (simp add: lease_record_def fields_other)
  moreover have "?d ''borrowed'' = None"
    using dupdate_other [of "''borrowed''" "base_fields e a lease_id n mem priority pc" Map.empty]
    by (simp add: fields_other base_fields_keys)
  ultimately show ?thesis by (simp add: is_borrowed_def dget_def class_fields_borrowed)
qed

lemma lease_record_build_class:
  "\<not> floor \<Longrightarrow> aq_build_class a = Some c \<Longrightarrow>
     dget (lease_record e a cfg lease_id n mem priority pc floor ng disk) ''build_class'' = PStr c"
  by (simp add: dget_def lease_record_def disk_fields_other class_fields_build_class)

lemma lease_record_marked: "borrow_marked (lease_record e a cfg lease_id n mem priority pc floor ng disk)"
  by (auto simp: borrow_marked_def lease_record_borrowed lease_record_build_class)

lemma record_int_PInt: "dget r k = PInt n \<Longrightarrow> record_int r k 0 = n"
  by (simp add: record_int_def py_or_def)

lemma record_mem_explicit:
  "dget r ''lease_size_mem_mb'' = PInt m \<Longrightarrow> has_key r ''lease_size_mem_mb'' \<Longrightarrow> 0 < m \<Longrightarrow> record_mem_mb r j = m"
  by (simp add: record_mem_mb_def record_int_def py_or_def Let_def)

lemma lease_record_charges:
  "cores_of (lease_record e a cfg lease_id n mem priority pc floor ng disk) = n"
  "priority_of (lease_record e a cfg lease_id n mem priority pc floor ng disk) = priority"
  "0 < mem \<Longrightarrow> record_mem_mb (lease_record e a cfg lease_id n mem priority pc floor ng disk) j = mem"
  by (auto intro!: record_int_PInt record_mem_explicit simp: lease_record_base)

text \<open>A request the code can charge as it was admitted: a positive size in memory.\<close>

definition chargeable_request :: "acquire_args \<Rightarrow> bool" where
  "chargeable_request a = (case aq_mem_mb a of Some m \<Rightarrow> 0 < m | None \<Rightarrow> True)"

lemma partial_sizes_Some:
  "partial_sizes cfg u p bc res mem ns = Some (n, m, v) \<Longrightarrow>
     n \<in> set ns \<and> m = mem n \<and> v = core_and_memory_verdict cfg u p n m bc res \<and> \<not> exceeded v"
  by (induction ns) (auto simp: Let_def split: if_splits)

lemma partial_sizes_None:
  "partial_sizes cfg u p bc res mem ns = None \<Longrightarrow>
     \<forall>n \<in> set ns. exceeded (core_and_memory_verdict cfg u p n (mem n) bc res)"
  by (induction ns) (auto simp: Let_def split: if_splits)

lemma sized_request_cases:
  assumes "sized_request cfg u a p res = (n, m, v)"
  shows "v = core_and_memory_verdict cfg u p n m (aq_build_class a) res"
    and "(n = aq_cores a \<and> m = requested_mem cfg a)
      \<or> (0 < aq_min_cores a \<and> aq_min_cores a \<le> n \<and> n < aq_cores a \<and> m = size_mem cfg a n \<and> \<not> exceeded v)"
  using assms
  by (auto simp: sized_request_def Let_def dest!: partial_sizes_Some split: if_splits option.splits)

lemma sized_request_pos:
  assumes "sized_request cfg u a p res = (n, m, v)" "config_ok cfg"
    "acquire_args_error a = None" "chargeable_request a"
  shows "0 \<le> n" "0 < m"
proof -
  have j: "1 \<le> cf_per_job_mem_mb cfg" using assms(2) by (simp add: config_ok_def)
  have cores: "0 \<le> aq_cores a" "aq_mem_mb a = None \<Longrightarrow> 0 < aq_cores a"
    using assms(3) by (auto simp: acquire_args_error_def split: if_splits option.splits)
  have req: "0 < requested_mem cfg a" "0 < k \<Longrightarrow> 0 < size_mem cfg a k" for k
    using assms(4) cores j by (auto simp: requested_mem_def size_mem_def chargeable_request_def split: option.splits)
  with sized_request_cases(2) [OF assms(1)] cores(1) show "0 \<le> n" "0 < m" by auto
qed

lemma grant_admitted:
  assumes "rows_ok cfg active" and "\<not> list_ex (\<lambda>r. id_str r = lease_id) active"
    and "\<not> exceeded (core_and_memory_verdict cfg (usage active cfg) priority n mem (aq_build_class a) res)"
    and "0 \<le> n" and "0 < mem"
    and r: "r = lease_record e a cfg lease_id n mem priority pc False (us_non_gate_used_cores (usage active cfg)) disk"
  shows "rows_ok cfg (active @ [r])"
proof -
  have fields: "priority_of r = priority" "cores_of r = n" "record_mem_mb r (cf_per_job_mem_mb cfg) = mem"
    "\<not> is_floor r" "borrow_marked r" "sized r" "id_str r = lease_id" "charged cfg r"
    using assms(4,5) by (simp_all add: r lease_record_charges lease_record_floor lease_record_marked
        lease_record_base sized_def charged_def)
  show ?thesis
  proof (rule rows_ok_admit [OF assms(1)])
    assume ng: "\<not> is_gate_record r cfg" and nb: "\<not> is_borrowed r"
    show "sum_over (non_gate_charge cfg) active + cores_of r \<le> guaranteed_limit cfg"
    proof (cases "aq_build_class a = Some ''interactive''")
      case True
      with nb show ?thesis unfolding fields(2) by (auto simp: r lease_record_borrowed usage_cores)
    next
      case False
      with ng assms(3) show ?thesis
        unfolding fields(2) by (intro non_gate_verdict(2)) (auto simp: is_gate_record_def fields)
    qed
  qed (use assms(2,3) fields in \<open>auto simp: list_ex_iff\<close>)
qed

lemma grant_floor:
  assumes "rows_ok cfg active" and "\<not> list_ex (\<lambda>r. id_str r = lease_id) active"
    and "floor_grant allow kind cfg active priority n0 m0 = Some (n, mem)"
    and r: "r = lease_record e a cfg lease_id n mem priority pc True ng disk"
  shows "rows_ok cfg (active @ [r])"
proof -
  note b = floor_grant_bounds [OF assms(3)]
  show ?thesis
    by (rule rows_ok_floor [OF assms(1)])
      (use assms(2) b in \<open>auto simp: r lease_record_charges lease_record_floor lease_record_marked
        lease_record_base sized_def charged_def list_ex_iff\<close>)
qed

lemma commit_grant_ok:
  assumes "rows_ok cfg (active @ [r])"
  shows "store_ok cfg (fst (commit_grant e a cfg priority active r n fl ds st))"
  using assms rows_ok_reconcile [of cfg "le_host e" "active @ [r]"]
  by (auto simp: commit_grant_def Let_def store_ok_def split: prod.splits)

text \<open>How an acquisition is admitted: the size and memory granted, as an ordinary or a floor lease.\<close>

definition disk_state_of :: "acquire_args \<Rightarrow> pydict list \<Rightarrow> disk_info option \<Rightarrow> disk_state option" where
  "disk_state_of a active disk = map_option (\<lambda>d. disk_capacity active d
     (aq_disk_growth_mb a * 1024 * 1024) (aq_disk_floor_mb a * 1024 * 1024)) disk"

definition disk_over :: "disk_state option \<Rightarrow> bool" where
  "disk_over ds = (case ds of None \<Rightarrow> False | Some s \<Rightarrow> disk_exceeded s)"

text \<open>The admission check of the size that is granted, as an ordinary or a floor lease.\<close>

definition fits ::
  "lease_env \<Rightarrow> acquire_args \<Rightarrow> config \<Rightarrow> int \<Rightarrow> pydict list \<Rightarrow> store \<Rightarrow> disk_info option
    \<Rightarrow> bool \<Rightarrow> int \<Rightarrow> int \<Rightarrow> bool" where
  "fits e a cfg priority active st disk floor n m =
     (\<not> disk_over (disk_state_of a active disk)
      \<and> (case sized_request cfg (usage active cfg) a priority (fst (prompt_reserve (le_host e) st cfg)) of
           (n0, m0, v) \<Rightarrow>
             if floor then (vd_total_exceeded v \<or> vd_class_exceeded v) \<and> aq_build_class a \<noteq> Some ''interactive''
               \<and> floor_grant (aq_allow_floor a) (PStr (aq_kind a)) cfg active priority n0 m0 = Some (n, m)
             else n = n0 \<and> m = m0 \<and> \<not> exceeded v))"

lemma acquire_decide_cases:
  assumes "acquire_decide e a cfg priority pc lease_id active disk st = (st', outcome, extra)"
  obtains (refused) "acquire_rc outcome \<noteq> 0" "load_records st' = Inr active"
  | (granted) floor n m g st1 where "outcome = Granted g" "fits e a cfg priority active st disk floor n m"
      "commit_grant e a cfg priority active
         (lease_record e a cfg lease_id n m priority pc floor (us_non_gate_used_cores (usage active cfg)) disk)
         n floor (disk_state_of a active disk) st1 = (st', g)"
proof -
  let ?ds = "disk_state_of a active disk"
  let ?rec = "\<lambda>n m floor. lease_record e a cfg lease_id n m priority pc floor
    (us_non_gate_used_cores (usage active cfg)) disk"
  obtain res src where res: "prompt_reserve (le_host e) st cfg = (res, src)" by fastforce
  obtain n m v where size: "sized_request cfg (usage active cfg) a priority res = (n, m, v)"
    by (metis prod_cases3)
  let ?floor = "if (vd_total_exceeded v \<or> vd_class_exceeded v) \<and> \<not> disk_over ?ds \<and> aq_build_class a \<noteq> Some ''interactive''
      then floor_grant (aq_allow_floor a) (PStr (aq_kind a)) cfg active priority n m else None"
  note body = assms [unfolded acquire_decide_def Let_def res size prod.case
      disk_state_of_def [symmetric] disk_over_def [symmetric]]
  show ?thesis
  proof (cases ?floor)
    case (Some f)
    obtain fn fm where f: "f = (fn, fm)" by fastforce
    obtain st2 g where cg: "commit_grant e a cfg priority active (?rec fn fm True) fn True ?ds st = (st2, g)"
      by fastforce
    have "fits e a cfg priority active st disk True fn fm"
      using Some size res unfolding fits_def f by (auto split: if_splits)
    with body cg granted show ?thesis unfolding Some f by auto
  next
    case nofloor: None
    obtain st1 blocker wp where rank: "rank_check (le_host e) cfg (PStr (aq_kind a)) priority active
        (active @ [hypothetical lease_id n m priority]) (aq_waiter_id a) st = (st1, blocker, wp)"
      by (metis prod_cases3)
    obtain st2 g where cg: "commit_grant e a cfg priority active (?rec n m False) n False ?ds st1 = (st2, g)"
      by fastforce
    note rest = body [unfolded nofloor option.case]
    consider "exceeded v \<or> disk_over ?ds" | w where "\<not> (exceeded v \<or> disk_over ?ds)" "blocker = Some w"
      | "\<not> (exceeded v \<or> disk_over ?ds)" "blocker = None" by fastforce
    then show ?thesis
    proof cases
      case 3
      then have "fits e a cfg priority active st disk False n m" using size res by (simp add: fits_def)
      with 3 rest cg rank granted show ?thesis by auto
    qed (use rest rank refused in auto)
  qed
qed

lemma acquire_locked_cases:
  assumes "acquire_locked e a cfg priority pc lease_id active st = (st', out)"
  obtains (refused) outcome extra where "out = Inr (outcome, extra)" "acquire_rc outcome \<noteq> 0"
      "load_records st' = Inr active"
  | (raised) err where "out = Inl err" "st' = st"
  | (granted) disk floor n m g extra st1 where "out = Inr (Granted g, extra)"
      "probe_disk e a = Inr disk" "acquire_refusal e a lease_id active disk = None"
      "fits e a cfg priority active st disk floor n m"
      "commit_grant e a cfg priority active
         (lease_record e a cfg lease_id n m priority pc floor (us_non_gate_used_cores (usage active cfg)) disk)
         n floor (disk_state_of a active disk) st1 = (st', g)"
proof (cases "probe_disk e a")
  case (Inl err)
  then show ?thesis using assms refused by (auto simp: acquire_locked_def Let_def)
next
  case disk: (Inr disk)
  note body = assms [unfolded acquire_locked_def Let_def disk sum.case]
  show ?thesis
  proof (cases "acquire_refusal e a lease_id active disk")
    case (Some outcome)
    moreover have "acquire_rc outcome \<noteq> 0"
      using Some by (auto simp: acquire_refusal_def split: if_splits option.splits)
    moreover have "load_records (case outcome of
        HomeVolumeBelowFloor \<Rightarrow> settle_waiter (le_host e) cfg (aq_waiter_id a) False (write_records active st)
      | _ \<Rightarrow> write_records active st) = Inr active" by (simp split: acquire_outcome.split)
    ultimately show ?thesis using body refused by auto
  next
    case ok: None
    obtain st2 outcome extra where dec:
      "acquire_decide e a cfg priority pc lease_id active disk st = (st2, outcome, extra)"
      by (metis prod_cases3)
    show ?thesis
    proof (cases "aq_build_class a \<noteq> None \<and> cf_gate_priority cfg \<le> priority")
      case True
      then show ?thesis using body ok raised by auto
    next
      case False
      then have out: "st' = st2" "out = Inr (outcome, extra)" using body ok dec by auto
      from dec show ?thesis
        by (cases rule: acquire_decide_cases) (use out disk ok refused granted in auto)
    qed
  qed
qed

lemma acquire_locked_ok:
  assumes "rows_ok cfg active" "store_ok cfg st" "config_ok cfg"
    "acquire_args_error a = None" "chargeable_request a"
    and "acquire_locked e a cfg priority pc lease_id active st = (st', out)"
  shows "store_ok cfg st'"
  using assms(6)
proof (cases rule: acquire_locked_cases)
  case refused
  then show ?thesis using assms(1) by (simp add: store_ok_def)
next
  case raised
  then show ?thesis using assms(2) by simp
next
  case (granted disk floor n m g extra st1)
  obtain n0 m0 v where size: "sized_request cfg (usage active cfg) a priority
      (fst (prompt_reserve (le_host e) st cfg)) = (n0, m0, v)" by (metis prod_cases3)
  have dup: "\<not> list_ex (\<lambda>r. id_str r = lease_id) active"
    using granted(3) by (auto simp: acquire_refusal_def split: if_splits)
  have "rows_ok cfg (active @ [lease_record e a cfg lease_id n m priority pc floor
      (us_non_gate_used_cores (usage active cfg)) disk])"
  proof (cases floor)
    case True
    with granted(4) size have "floor_grant (aq_allow_floor a) (PStr (aq_kind a)) cfg active priority n0 m0 = Some (n, m)"
      by (simp add: fits_def)
    from grant_floor [OF assms(1) dup this refl] show ?thesis using True by simp
  next
    case False
    with granted(4) size have "n = n0" "m = m0" "\<not> exceeded v" by (auto simp: fits_def)
    with False show ?thesis
      using grant_admitted [OF assms(1) dup _ sized_request_pos [OF size assms(3,4,5)] refl]
        sized_request_cases(1) [OF size] by simp
  qed
  with commit_grant_ok granted(5) show ?thesis by (metis fst_conv)
qed

subsection \<open>Every command keeps the invariant\<close>

lemma acquire_ok:
  assumes "store_ok cfg st" and "config_ok cfg"
    and "capacity_config (le_profile e) (aq_common a) = Inr cfg" and "chargeable_request a"
  shows "store_ok cfg (fst (acquire e a st))"
proof -
  obtain active reaped problems st0 where rc:
    "lock_reclaim (le_host e) (ca_stale_secs (aq_common a)) PNone st = (st0, Inr (active, reaped, problems))"
    "rows_ok cfg active" "store_ok cfg st0"
    using lock_reclaim_cases [OF assms(1,2)] by metis
  show ?thesis
    using assms(1) acquire_locked_ok [OF rc(2,3) assms(2) _ assms(4)]
    unfolding acquire_def assms(3) sum.case rc(1) prod.case Let_def
    by (auto split: sum.split prod.split option.split)
qed

lemma update_first_mset:
  assumes "distinct (map id_str rs)" and "find (has_id i) rs = Some r"
  shows "mset (update_first (has_id i) f rs) = mset (filter (\<lambda>r. \<not> has_id i r) rs @ [f r])"
  using assms
proof (induction rs)
  case (Cons x rs)
  show ?case
  proof (cases "has_id i x")
    case True
    then have "filter (\<lambda>r. \<not> has_id i r) rs = rs"
      using Cons.prems(1) by (force simp: filter_id_conv has_id_def image_iff)
    with True Cons.prems(2) show ?thesis by simp
  next
    case False
    with Cons show ?thesis by simp
  qed
qed simp

lemma update_first_same:
  "(\<And>r. same_accounting (f r) r) \<Longrightarrow> list_all2 same_accounting (update_first P f rs) rs"
  by (induction rs) (auto simp: list.rel_refl_strong same_accounting_def)

lemma rows_ok_update_first:
  assumes "rows_ok cfg rs" and "\<And>r. same_accounting (f r) r"
  shows "rows_ok cfg (update_first P f rs)"
  using assms(1) rows_ok_same [OF update_first_same [of f P rs], OF assms(2)] by simp

lemma find_SomeD: "find P xs = Some x \<Longrightarrow> P x \<and> x \<in> set xs"
  by (auto simp: find_Some_iff)

lemma dupdate_same: "fst ` set kvs \<inter> accounting_keys = {} \<Longrightarrow> same_accounting (dupdate r kvs) r"
  by (auto simp: same_accounting_def intro: dupdate_other)

lemma dpop_other: "k \<notin> set ks \<Longrightarrow> dpop d ks k = d k"
  by (induction ks arbitrary: d) auto

lemma dpop_same: "set ks \<inter> accounting_keys = {} \<Longrightarrow> same_accounting (dpop r ks) r"
  by (auto simp: same_accounting_def intro: dpop_other)

lemma resized_record_fields:
  "dget (resized_record h a m p pc r) ''id'' = dget r ''id''"
  "is_floor (resized_record h a m p pc r) = is_floor r"
  "is_borrowed (resized_record h a m p pc r) = is_borrowed r"
  "borrow_marked (resized_record h a m p pc r) = borrow_marked r"
  "cores_of (resized_record h a m p pc r) = rz_cores a"
  "priority_of (resized_record h a m p pc r) = p"
  "0 < m \<Longrightarrow> record_mem_mb (resized_record h a m p pc r) j = m"
  by (simp_all add: resized_record_def Let_def is_floor_def is_borrowed_def borrow_marked_def
      record_int_def py_or_def record_mem_mb_def)

text \<open>A resize that can be charged as it is admitted: a positive size in memory, and not of a floor
  lease, which would stay uncharged at its new size.\<close>

definition chargeable_resize :: "resize_args \<Rightarrow> pydict list \<Rightarrow> bool" where
  "chargeable_resize a rs =
     ((case rz_mem_mb a of Some m \<Rightarrow> 0 < m | None \<Rightarrow> True)
      \<and> list_all (\<lambda>r. has_id (rz_id a) r \<longrightarrow> \<not> is_floor r) rs)"

lemma resize_rows_ok:
  assumes "rows_ok cfg active" and "config_ok cfg" and "find (has_id (rz_id a)) active = Some r"
    and others: "others = filter (\<lambda>r. \<not> has_id (rz_id a) r) active"
    and ok: "\<not> exceeded (core_and_memory_verdict cfg (usage others cfg) p (rz_cores a) m None 0)"
    and "0 < rz_cores a" "0 < m" "\<not> is_floor r"
  shows "rows_ok cfg (update_first (has_id (rz_id a)) (resized_record h a m p pc) active)"
proof -
  let ?r = "resized_record h a m p pc r"
  note r = find_SomeD [OF assms(3)]
  have "borrow_marked r" using assms(1) r by (auto simp: rows_ok_def core_inv_def list_all_iff)
  moreover have "id_str r \<notin> set (map id_str others)"
  proof
    assume "id_str r \<in> set (map id_str others)"
    then obtain x where x: "x \<in> set active" "id_str x = id_str r" "\<not> has_id (rz_id a) x"
      by (auto simp: others)
    then have "x = r" using assms(1) r by (metis distinct_map inj_onD rows_ok_def)
    with x r show False by simp
  qed
  moreover have "rows_ok cfg others" unfolding others using assms(1,2) by (rule rows_ok_filter)
  moreover have "sum_over (non_gate_charge cfg) others + rz_cores a \<le> guaranteed_limit cfg"
    if "\<not> is_gate_record ?r cfg"
    using that ok by (intro non_gate_verdict(2)) (auto simp: is_gate_record_def resized_record_fields)
  ultimately have "rows_ok cfg (others @ [?r])"
    using assms(6-8) ok
    by (intro rows_ok_admit [where bc = None and res = 0])
      (auto simp: resized_record_fields sized_def charged_def)
  moreover have "mset (update_first (has_id (rz_id a)) (resized_record h a m p pc) active) = mset (others @ [?r])"
    unfolding others using assms(1,3) by (intro update_first_mset) (auto simp: rows_ok_def)
  ultimately show ?thesis using rows_ok_mset by blast
qed

text \<open>The possible ends of a resize under the lock.\<close>

lemma resize_locked_cases:
  assumes "resize_locked e a cfg active st = (st', out)"
  obtains (kept) outcome extra where "out = Inr (outcome, extra)" "resize_rc outcome \<noteq> 0" "load_records st' = Inr active"
  | (raised) err where "out = Inl err" "st' = st"
  | (resized) r p pc m x y q w extra where "find (has_id (rz_id a)) active = Some r"
      "m = (case rz_mem_mb a of Some m \<Rightarrow> m | None \<Rightarrow> record_mem_mb r (cf_per_job_mem_mb cfg))"
      "\<not> exceeded (core_and_memory_verdict cfg (usage (filter (\<lambda>r. \<not> has_id (rz_id a) r) active) cfg) p (rz_cores a) m None 0)"
      "load_records st' = Inr (fst (reconcile_borrowers (le_host e)
         (update_first (has_id (rz_id a)) (resized_record (le_host e) a m p pc) active) cfg))"
      "out = Inr (Resized x y q w, extra)"
proof (cases "find (has_id (rz_id a)) active")
  case None
  then show ?thesis using assms kept by (auto simp: resize_locked_def Let_def)
next
  case rec: (Some r)
  show ?thesis
  proof (cases "resize_priority a r")
    case (Inl err)
    then show ?thesis using assms rec raised by (auto simp: resize_locked_def Let_def)
  next
    case (Inr pp)
    obtain p pc where pp: "pp = (p, pc)" by fastforce
    define m where "m = (case rz_mem_mb a of Some m \<Rightarrow> m | None \<Rightarrow> record_mem_mb r (cf_per_job_mem_mb cfg))"
    define others where "others = filter (\<lambda>r. \<not> has_id (rz_id a) r) active"
    define v where "v = core_and_memory_verdict cfg (usage others cfg) p (rz_cores a) m None 0"
    define res where "res = dupdate r [(''lease_size_cores'', PInt (rz_cores a)),
      (''lease_size_mem_mb'', PInt m), (''priority'', PInt p)]"
    obtain st1 blocker wp where rank: "rank_check (le_host e) cfg (dget r ''command_kind'') p active
        (others @ [res]) (rz_waiter_id a) st = (st1, blocker, wp)" by (metis prod_cases3)
    obtain act' qa where rb: "reconcile_borrowers (le_host e)
        (update_first (has_id (rz_id a)) (resized_record (le_host e) a m p pc) active) cfg = (act', qa)" by fastforce
    note body = assms [unfolded resize_locked_def Let_def rec option.case Inr sum.case pp prod.case
        m_def [symmetric] others_def [symmetric] v_def [symmetric] res_def [symmetric] rank rb]
    consider "exceeded v" | w where "\<not> exceeded v" "blocker = Some w" | "\<not> exceeded v" "blocker = None"
      by fastforce
    then show ?thesis
    proof cases
      case 3
      then obtain x y q w where "load_records st' = Inr act'" "out = Inr (Resized x y q w, wp)"
        using body by auto
      with 3 show ?thesis
        by (intro resized [OF rec m_def, of p pc x y q w wp]) (simp_all add: rb v_def others_def)
    qed (use body kept in auto)
  qed
qed

lemma resize_ok:
  assumes "store_ok cfg st" and "config_ok cfg"
    and "capacity_config (le_profile e) (rz_common a) = Inr cfg" and "chargeable_resize a (records_of st)"
  shows "store_ok cfg (fst (resize e a st))"
proof -
  obtain active reaped problems st0 where rc:
    "lock_reclaim (le_host e) (ca_stale_secs (rz_common a)) PNone st = (st0, Inr (active, reaped, problems))"
    "rows_ok cfg active" "store_ok cfg st0"
    "active = filter (\<lambda>r. \<not> reap_dead (le_host e) PNone r) (records_of st)"
    using lock_reclaim_cases [OF assms(1,2)] by metis
  have "store_ok cfg st'" if run: "resize_locked e a cfg active st0 = (st', out)" and pos: "0 < rz_cores a" for st' out
    using run
  proof (cases rule: resize_locked_cases)
    case (resized r p pc m x y q w extra)
    note r = find_SomeD [OF resized(1)]
    have "0 < m" "\<not> is_floor r"
      using resized(2) r rc(2,4) assms(4)
      by (auto simp: chargeable_resize_def rows_ok_def charged_def list_all_iff split: option.splits)
    from resize_rows_ok [OF rc(2) assms(2) resized(1) refl resized(3) pos this] resized(4)
    show ?thesis by (auto simp: store_ok_def rows_ok_reconcile)
  qed (use rc in \<open>auto simp: store_ok_def\<close>)
  then show ?thesis
    using assms(1) unfolding resize_def assms(3) sum.case rc(1) prod.case
    by (auto split: sum.split prod.split)
qed

lemma release_ok:
  assumes "store_ok cfg st" and "config_ok cfg" and "capacity_config (le_profile e) c = Inr cfg"
  shows "store_ok cfg (fst (release e c lease_id st))"
proof -
  obtain active reaped problems st0 where rc:
    "lock_reclaim (le_host e) (ca_stale_secs c) (PStr lease_id) st = (st0, Inr (active, reaped, problems))"
    "rows_ok cfg active"
    using lock_reclaim_cases [OF assms(1,2)] by metis
  have "rows_ok cfg (fst (reconcile_borrowers (le_host e) (filter (\<lambda>r. \<not> has_id lease_id r) active) cfg))"
    using rc(2) assms(2) by (simp add: rows_ok_reconcile rows_ok_filter)
  then show ?thesis
    unfolding release_def assms(3) sum.case rc(1) prod.case Let_def
    by (auto simp: store_ok_def split: prod.split)
qed

lemma heartbeat_ok:
  assumes "store_ok cfg st" and "config_ok cfg" and "capacity_config (le_profile e) c = Inr cfg"
  shows "store_ok cfg (fst (heartbeat e c lease_id st))"
proof -
  obtain active reaped problems st0 where rc:
    "lock_reclaim (le_host e) (ca_stale_secs c) PNone st = (st0, Inr (active, reaped, problems))"
    "rows_ok cfg active"
    using lock_reclaim_cases [OF assms(1,2)] by metis
  have "rows_ok cfg (update_first (has_id lease_id)
      (\<lambda>r. r(''heartbeat_at'' \<mapsto> PStr (iso (utcnow (le_host e))))) active)"
    using rc(2) by (rule rows_ok_update_first) (simp add: same_accounting_def accounting_keys_def)
  then have "rows_ok cfg (fst (reconcile_borrowers (le_host e) (update_first (has_id lease_id)
      (\<lambda>r. r(''heartbeat_at'' \<mapsto> PStr (iso (utcnow (le_host e))))) active) cfg))"
    by (simp add: rows_ok_reconcile)
  then show ?thesis
    unfolding heartbeat_def assms(3) sum.case rc(1) prod.case Let_def
    by (auto simp: store_ok_def split: prod.split)
qed

lemma status_ok:
  assumes "store_ok cfg st" and "config_ok cfg" and "capacity_config (le_profile e) c = Inr cfg"
  shows "store_ok cfg (fst (status_digest e c st))"
proof -
  obtain active reaped problems st0 where rc:
    "lock_reclaim (le_host e) (ca_stale_secs c) PNone st = (st0, Inr (active, reaped, problems))"
    "rows_ok cfg active" "store_ok cfg st0"
    using lock_reclaim_cases [OF assms(1,2)] by metis
  then show ?thesis
    unfolding status_digest_def assms(3) sum.case rc(1) prod.case Let_def
    by (auto simp: store_ok_write split: prod.split)
qed

lemma identity_fields_same:
  "same_accounting (dupdate r (identity_fields ''guardian_'' ident)) r"
  "same_accounting (dupdate r (identity_fields ''guardian_'' ident @ [(''guardian_mode'', PStr mode)])) r"
  "same_accounting (dupdate r (identity_fields ''guardian_writer_'' ident)) r"
  by (rule dupdate_same; simp add: identity_fields_def accounting_keys_def)+

lemma attach_guardian_ok:
  assumes "store_ok cfg st" and "config_ok cfg"
  shows "store_ok cfg (fst (attach_guardian e stale lease_id ident mode st))"
proof -
  obtain active reaped problems st0 where rc:
    "lock_reclaim (le_host e) stale PNone st = (st0, Inr (active, reaped, problems))"
    "rows_ok cfg active" "store_ok cfg st0"
    using lock_reclaim_cases [OF assms(1,2)] by metis
  have "rows_ok cfg (update_first (has_id lease_id)
      (\<lambda>r. dupdate r (identity_fields ''guardian_'' ident @ [(''guardian_mode'', PStr mode)])) active)"
    using rc(2) by (intro rows_ok_update_first identity_fields_same)
  then show ?thesis
    unfolding attach_guardian_def rc(1) prod.case sum.case
    by (simp add: assms(1) rc(2,3) store_ok_write del: dupdate_append split: option.split)
qed

lemma attach_writer_ok:
  assumes "store_ok cfg st"
  shows "store_ok cfg (fst (attach_guardian_writer lease_id g w st))"
proof -
  obtain rs where rs: "load_records st = Inr rs" "rows_ok cfg rs" using assms by (auto simp: store_ok_def)
  have "rows_ok cfg (update_first (has_id lease_id) (\<lambda>r. dupdate r (identity_fields ''guardian_writer_'' w)) rs)"
    using rs(2) by (intro rows_ok_update_first identity_fields_same)
  then show ?thesis
    unfolding attach_guardian_writer_def rs(1) sum.case
    by (simp add: assms store_ok_write split: option.split)
qed

lemma remove_first_filter: "distinct (map id_str rs) \<Longrightarrow>
    remove_first (has_id i) rs = filter (\<lambda>x. \<not> has_id i x) rs"
proof (induction rs)
  case (Cons r rs)
  have "filter (\<lambda>x. \<not> has_id i x) rs = rs" if "has_id i r"
    using Cons.prems that by (force simp: filter_id_conv has_id_def image_iff)
  with Cons show ?case by simp
qed simp

lemma finish_guard_run_ok:
  assumes "store_ok cfg st" and "config_ok cfg"
  shows "store_ok cfg (fst (finish_guard_run e lease_id g w st))"
proof -
  obtain rs where rs: "load_records st = Inr rs" "rows_ok cfg rs" using assms by (auto simp: store_ok_def)
  have same: "same_accounting (dpop r GUARDIAN_FIELDS) r" for r
    by (rule dpop_same) (simp add: GUARDIAN_FIELDS_def accounting_keys_def)
  have "rows_ok cfg (update_first (has_id lease_id) (\<lambda>r. dpop r GUARDIAN_FIELDS) rs)"
    using rs(2) by (intro rows_ok_update_first same)
  moreover have "rows_ok cfg (remove_first (has_id lease_id) rs)"
    using rows_ok_filter [OF rs(2) assms(2)] rs(2) by (simp add: remove_first_filter rows_ok_def)
  ultimately show ?thesis
    using assms(1) unfolding finish_guard_run_def rs(1) sum.case Let_def
    by (auto simp: store_ok_write split: option.split prod.split)
qed

lemma register_waiter_ok: "store_ok cfg st \<Longrightarrow> store_ok cfg (fst (register_waiter e a st))"
  by (auto simp: register_waiter_def Let_def store_ok_def split: sum.split prod.split)

lemma withdraw_waiter_ok: "store_ok cfg st \<Longrightarrow> store_ok cfg (fst (withdraw_waiter w st))"
  by (auto simp: withdraw_waiter_def Let_def store_ok_def split: prod.split)

end
