(* ===== verification/LeaseMachine.thy ===== *)
theory LeaseMachine
  imports LeaseStore
begin

section \<open>The lease store as a machine\<close>

text \<open>
  Any interleaving of the lease commands of one host is a list of operations,
  since each holds the store lock from its load to its write. This theory
  interprets the \<open>machine\<close> interface on the store and states what every
  reachable store satisfies, what each command does on every branch, and that
  the retry loop returns.
\<close>

datatype store_op =
    OpAcquire lease_env acquire_args
  | OpResize lease_env resize_args
  | OpRelease lease_env common_args string
  | OpHeartbeat lease_env common_args string
  | OpStatus lease_env common_args
  | OpWait lease_env wait_args
  | OpWithdraw string
  | OpAttachGuardian lease_env int string identity string
  | OpAttachWriter string identity identity
  | OpFinishGuardRun lease_env string identity "identity option"

text \<open>One command's effect on the store, as \<open>main\<close> dispatches it.\<close>

fun store_step :: "store_op \<Rightarrow> store \<Rightarrow> store" where
  "store_step (OpAcquire e a) st = fst (acquire e a st)"
| "store_step (OpResize e a) st = fst (resize e a st)"
| "store_step (OpRelease e c i) st = fst (release e c i st)"
| "store_step (OpHeartbeat e c i) st = fst (heartbeat e c i st)"
| "store_step (OpStatus e c) st = fst (status_digest e c st)"
| "store_step (OpWait e a) st = fst (register_waiter e a st)"
| "store_step (OpWithdraw w) st = fst (withdraw_waiter w st)"
| "store_step (OpAttachGuardian e n i g m) st = fst (attach_guardian e n i g m st)"
| "store_step (OpAttachWriter i g w) st = fst (attach_guardian_writer i g w st)"
| "store_step (OpFinishGuardRun e i g w) st = fst (finish_guard_run e i g w st)"

text \<open>Commands issued under one configuration, with memory sizes the accounting can represent.\<close>

fun store_legal :: "config \<Rightarrow> store_op \<Rightarrow> store \<Rightarrow> bool" where
  "store_legal cfg (OpAcquire e a) st =
     (capacity_config (le_profile e) (aq_common a) = Inr cfg \<and> chargeable_request a)"
| "store_legal cfg (OpResize e a) st =
     (capacity_config (le_profile e) (rz_common a) = Inr cfg \<and> chargeable_resize a (records_of st))"
| "store_legal cfg (OpRelease e c i) st = (capacity_config (le_profile e) c = Inr cfg)"
| "store_legal cfg (OpHeartbeat e c i) st = (capacity_config (le_profile e) c = Inr cfg)"
| "store_legal cfg (OpStatus e c) st = (capacity_config (le_profile e) c = Inr cfg)"
| "store_legal cfg op st = True"

definition empty_store :: "config \<Rightarrow> store \<Rightarrow> bool" where
  "empty_store cfg st = (config_ok cfg \<and> load_records st = Inr [])"

definition safe_store :: "config \<Rightarrow> store \<Rightarrow> bool" where
  "safe_store cfg st = (config_ok cfg \<and> store_ok cfg st)"

lemma step_safe_store:
  "store_legal cfg op st \<Longrightarrow> safe_store cfg st \<Longrightarrow> safe_store cfg (store_step op st)"
  by (cases op) (simp_all add: safe_store_def acquire_ok resize_ok release_ok heartbeat_ok status_ok
      register_waiter_ok withdraw_waiter_ok attach_guardian_ok attach_writer_ok finish_guard_run_ok)

lemma empty_store_safe: "empty_store cfg st \<Longrightarrow> safe_store cfg st"
  by (auto simp: empty_store_def safe_store_def store_ok_def rows_ok_def core_inv_def mem_inv_def
      floor_inv_def config_ok_def)

interpretation lease_machine: machine "empty_store cfg" "store_legal cfg" store_step "safe_store cfg" for cfg
  by unfold_locales (simp_all add: empty_store_safe step_safe_store)

subsection \<open>A concrete host\<close>

text \<open>The sample host of the witnesses: a 16-core, 64 GB machine that serves gate lanes, with six
  cores guaranteed to the gate and lending on. Process 100 is alive; every other pid is denied.\<close>

definition sample_host :: "int \<Rightarrow> host" where
  "sample_host now =
     \<lparr>utcnow = now,
      ps_lstart = (\<lambda>pid. if pid = 100 \<or> pid = 200 then Some ''Thu Oct  1 10:00:00 2026'' else None),
      kill0 = (\<lambda>pid. if pid = 100 \<or> pid = 200 then KillDelivered else NoSuchProcess),
      kill0_again = (\<lambda>pid. if pid = 100 \<or> pid = 200 then KillDelivered else NoSuchProcess),
      sysctl_boottime = Some ''{ sec = 1 }'', proc_boot_id = None, proc_stat = None,
      os_getpgid = (\<lambda>pid. Some pid), os_getsid = (\<lambda>pid. Some pid),
      tart_list = TartRows [Some [''Name'' \<mapsto> PStr ''ci-vm'', ''State'' \<mapsto> PStr ''running'']]\<rparr>"

definition sample_fs :: volume_fs where
  "sample_fs =
     \<lparr>fs_logical = (\<lambda>p. p), fs_resolve = Some, fs_is_dir = (\<lambda>p. True), fs_st_dev = (\<lambda>p. Some 7),
      fs_ancestors = (\<lambda>p. [''/'']), fs_free = (\<lambda>p. Some 500000000000), fs_stalled = False\<rparr>"

definition sample_lease_env :: "int \<Rightarrow> lease_env" where
  "sample_lease_env now =
     \<lparr>le_host = sample_host now, le_profile = sample_env, le_fs = sample_fs, le_getpid = 100,
      le_uuid4 = ''uuid'', le_hint_writable = True, le_home_below = False\<rparr>"

definition sample_common :: common_args where
  "sample_common =
     \<lparr>ca_capacity = None, ca_capacity_mem_mb = None, ca_reserved_gate_cores = None,
      ca_reserved_gate_mem_mb = None, ca_agent_floor_cores = None, ca_agent_floor_pool_cores = None,
      ca_agent_floor_qos = None, ca_gate_priority = 100, ca_stale_secs = 300, ca_role = None,
      ca_host_cores = None, ca_model = None, ca_rank_vm_waiters = Some ''on'',
      ca_waiter_fresh_secs = None, ca_dynamic_lending = None, ca_gate_prompt_reserve_cores = Some 0,
      ca_interactive_share_cores = None, ca_background_share_cores = None\<rparr>"

definition sample_request :: "string \<Rightarrow> int \<Rightarrow> string \<Rightarrow> string option \<Rightarrow> acquire_args" where
  "sample_request i n priority cls =
     \<lparr>aq_common = sample_common, aq_cores = n, aq_mem_mb = Some 2048, aq_priority = priority,
      aq_allow_floor = False, aq_build_class = cls, aq_min_cores = 0, aq_wait_secs = 0,
      aq_memory_only = False, aq_pid = None, aq_id = Some i, aq_kind = ''build'', aq_owner = ''ci'',
      aq_label = [], aq_job_id = [], aq_vm_name = [], aq_waiter_id = [], aq_disk_path = [],
      aq_disk_growth_mb = 0, aq_disk_floor_mb = 0, aq_disk_expected_device_id = [],
      aq_disk_expected_mount_path = [], aq_home_floor_path = [], aq_home_floor_mode = ''report''\<rparr>"

definition new_store :: store where
  "new_store = \<lparr>st_dir = ''/leases'', st_leases = FileAbsent, st_waiters = FileAbsent,
     st_hint = HintUnreadable, st_events = []\<rparr>"

definition sample_config :: config where
  "sample_config =
     \<lparr>cf_total = 12, cf_dynamic_lending = True, cf_serves_gate = True,
      cf_gate_prompt_reserve_cores = 0, cf_gate_prompt_reserve_auto = False,
      cf_interactive_share_cores = 12, cf_background_share_cores = 4, cf_rank_vm_waiters = True,
      cf_waiter_fresh_secs = 90, cf_agent_floor_cores = 2, cf_agent_floor_pool_cores = 2,
      cf_agent_floor_qos = ''background'', cf_reserved_gate_cores = 6, cf_gate_priority = 100,
      cf_total_mem_mb = 53248, cf_reserved_gate_mem_mb = 26624, cf_per_job_mem_mb = 1536\<rparr>"

lemma sample_capacity_config: "capacity_config sample_env sample_common = Inr sample_config"
  by code_simp

lemma sample_config_ok: "config_ok sample_config"
  by (rule capacity_config_ok [OF sample_capacity_config])

text \<open>An interactive build borrows, then a gate is granted over the lent cores.\<close>

definition sample_ops :: "store_op list" where
  "sample_ops =
     [OpAcquire (sample_lease_env 1000000) (sample_request ''dev'' 10 ''build'' (Some ''interactive'')),
      OpAcquire (sample_lease_env 2000000) (sample_request ''gate'' 6 ''gate'' None)]"

lemma sample_run_result:
  "map (\<lambda>r. (id_str r, cores_of r, is_borrowed r, is_preempted r))
     (records_of (fold store_step sample_ops new_store)) =
   [(''dev'', 10, True, True), (''gate'', 6, False, False)]"
  by code_simp

subsection \<open>What every reachable store satisfies\<close>

text \<open>C1: the capacity invariant of every store that legal lease commands reach. Start from an empty store
  and run any sequence of lease commands of one host, in any order, under one capacity configuration,
  where no acquisition or resize asks for an explicit memory size that is not positive and no floor
  lease is resized (the code accepts both; \<open>zero_memory_request_overcommits\<close> and
  \<open>resized_floor_lease_uncharged\<close> in \<open>Samples\<close> show what they break). Then lease ids are distinct; the
  gate's cores and the non-gate cores up to the guaranteed budget never exceed the capacity; leases
  that are not marked as borrowed stay within the guaranteed budget; the memory of all leases and of
  the non-gate leases stays within its limit when the memory axis is on; and floor leases stay within
  their pool.\<close>

theorem reachable_store_within_capacity:
  assumes "empty_store cfg st" and "legal_run (store_legal cfg) store_step ops st"
  shows "\<exists>rs. load_records (fold store_step ops st) = Inr rs \<and> distinct (map id_str rs)
    \<and> sum_over (gate_charge cfg) rs + min (sum_over (non_gate_charge cfg) rs) (guaranteed_limit cfg)
        \<le> cf_total cfg
    \<and> sum_over (guaranteed_charge cfg) rs \<le> guaranteed_limit cfg
    \<and> (0 < cf_total_mem_mb cfg \<longrightarrow> sum_over (mem_charge cfg) rs \<le> cf_total_mem_mb cfg
         \<and> sum_over (non_gate_mem_charge cfg) rs \<le> non_gate_mem_limit cfg)
    \<and> sum_over floor_charge rs \<le> cf_agent_floor_pool_cores cfg"
  using lease_machine.run_safe [OF assms]
  by (auto simp: safe_store_def store_ok_def rows_ok_def core_inv_def mem_inv_def floor_inv_def)

lemma sample_start: "empty_store sample_config new_store"
  by (simp add: empty_store_def sample_config_ok new_store_def load_records_def)

lemma sample_ops_legal: "legal_run (store_legal sample_config) store_step sample_ops new_store"
  by (simp add: sample_ops_def sample_lease_env_def sample_request_def sample_capacity_config
      chargeable_request_def)

theorem reachable_store_within_capacity_witness:
  "\<exists>rs. load_records (fold store_step sample_ops new_store) = Inr rs \<and> length rs = 2
    \<and> sum_over (gate_charge sample_config) rs
        + min (sum_over (non_gate_charge sample_config) rs) (guaranteed_limit sample_config)
      \<le> cf_total sample_config"
proof -
  obtain rs where rs: "load_records (fold store_step sample_ops new_store) = Inr rs"
    "sum_over (gate_charge sample_config) rs
        + min (sum_over (non_gate_charge sample_config) rs) (guaranteed_limit sample_config)
      \<le> cf_total sample_config"
    using reachable_store_within_capacity [OF sample_start sample_ops_legal] by blast
  have "length rs = 2"
    using sample_run_result rs(1) by (simp add: records_of_def map_eq_Cons_conv) auto
  with rs show ?thesis by blast
qed

subsection \<open>What a command does on each branch\<close>

lemma lock_reclaim_Inr:
  assumes "lock_reclaim h stale rel st = (st0, Inr (active, reaped, problems))"
  shows "active = filter (\<lambda>r. \<not> reap_dead h rel r) (records_of st)"
    and "reaped = map mark_reaped (filter (reap_dead h rel) (records_of st))"
    and "load_records st0 = load_records st" and "load_records st = Inr (records_of st)"
  using assms reclaim_eqD
  by (auto simp: lock_reclaim_def records_of_def split: sum.splits prod.splits)

lemma acquire_Inr:
  assumes "acquire e a st = (st', Inr (outcome, reaped, problems))"
  obtains (no_disk) i where "outcome = VmDiskPathRequired i" "st' = st"
  | (locked) cfg priority pc lease_id st0 active rd pr extra where
      "capacity_config (le_profile e) (aq_common a) = Inr cfg"
      "parse_priority (Some (aq_priority a)) = Inr (priority, pc)" "acquire_args_error a = None"
      "lock_reclaim (le_host e) (ca_stale_secs (aq_common a)) PNone st = (st0, Inr (active, rd, pr))"
      "acquire_locked e a cfg priority pc lease_id active st0 = (st', Inr (outcome, extra))"
  using assms unfolding acquire_def Let_def
  by (auto split: sum.splits prod.splits option.splits if_splits)

text \<open>C19: a refused acquisition changes no lease. Whatever the reason (capacity, memory, disk, a
  duplicate id, a ranked waiter, an unavailable volume), the leases left in the store are the
  ones that were there, in order, less those whose owner is proven dead.\<close>

theorem refused_acquire_keeps_leases:
  assumes "acquire e a st = (st', Inr (outcome, reaped, problems))" and "acquire_rc outcome \<noteq> 0"
  shows "records_of st' = records_of st
    \<or> records_of st' = filter (\<lambda>r. fst (reclaim_verdict (le_host e) PNone r) \<noteq> OwnerDead) (records_of st)"
  using assms(1)
proof (cases rule: acquire_Inr)
  case no_disk
  then show ?thesis by simp
next
  case (locked cfg priority pc lease_id st0 active rd pr extra)
  from locked(5) have "load_records st' = Inr active"
    by (cases rule: acquire_locked_cases) (use assms(2) in auto)
  then show ?thesis using lock_reclaim_Inr(1) [OF locked(4)] by (simp add: records_of_def)
qed

lemma sample_refused:
  "case acquire (sample_lease_env 1000000) (sample_request ''big'' 40 ''build'' None) new_store of
     (st', Inr (outcome, reaped, problems)) \<Rightarrow> acquire_rc outcome = 75
   | (st', Inl err) \<Rightarrow> False"
  by code_simp

theorem refused_acquire_keeps_leases_witness:
  "\<exists>st' outcome reaped problems.
     acquire (sample_lease_env 1000000) (sample_request ''big'' 40 ''build'' None) new_store
       = (st', Inr (outcome, reaped, problems))
     \<and> acquire_rc outcome = 75 \<and> records_of st' = []"
proof -
  obtain st' outcome reaped problems where run:
    "acquire (sample_lease_env 1000000) (sample_request ''big'' 40 ''build'' None) new_store
       = (st', Inr (outcome, reaped, problems))" "acquire_rc outcome = 75"
    using sample_refused by (auto split: prod.splits sum.splits)
  moreover have "records_of new_store = []" by (simp add: records_of_def new_store_def load_records_def)
  ultimately show ?thesis using refused_acquire_keeps_leases [OF run(1)] by auto
qed

lemma commit_grant_records:
  assumes "commit_grant e a cfg priority active r n fl ds st = (st', g)"
  shows "list_all2 same_accounting (records_of st') (active @ [r])" and "gr_lease g = last (records_of st')"
    and "gr_floor g = fl" and "gr_partial g = (n < aq_cores a)"
proof -
  obtain act qa where rb: "reconcile_borrowers (le_host e) (active @ [r]) cfg = (act, qa)" by fastforce
  have "records_of st' = act" "gr_lease g = last act" "gr_floor g = fl" "gr_partial g = (n < aq_cores a)"
    using assms by (auto simp: commit_grant_def Let_def rb records_of_def)
  with reconcile_same [of "le_host e" "active @ [r]" cfg] rb
  show "list_all2 same_accounting (records_of st') (active @ [r])" "gr_lease g = last (records_of st')"
    "gr_floor g = fl" "gr_partial g = (n < aq_cores a)" by simp_all
qed

lemma acquire_locked_Granted:
  assumes "acquire_locked e a cfg priority pc lease_id active st = (st', Inr (Granted g, extra))"
  obtains disk floor n m st1 where "fits e a cfg priority active st disk floor n m"
      "acquire_refusal e a lease_id active disk = None"
      "commit_grant e a cfg priority active
         (lease_record e a cfg lease_id n m priority pc floor (us_non_gate_used_cores (usage active cfg)) disk)
         n floor (disk_state_of a active disk) st1 = (st', g)"
  using assms by (cases rule: acquire_locked_cases) auto

lemma fits_size:
  assumes "fits e a cfg priority active st disk floor n m"
  shows "n \<le> aq_cores a" and "floor \<Longrightarrow> 1 \<le> n \<and> n \<le> cf_agent_floor_cores cfg"
    and "\<not> floor \<Longrightarrow> n < aq_cores a \<Longrightarrow> 0 < aq_min_cores a \<and> aq_min_cores a \<le> n"
proof -
  obtain n0 m0 v where size: "sized_request cfg (usage active cfg) a priority
      (fst (prompt_reserve (le_host e) st cfg)) = (n0, m0, v)" by (metis prod_cases3)
  have le: "n0 \<le> aq_cores a" using sized_request_cases(2) [OF size] by auto
  have fl: "floor \<Longrightarrow> floor_grant (aq_allow_floor a) (PStr (aq_kind a)) cfg active priority n0 m0 = Some (n, m)"
    and pl: "\<not> floor \<Longrightarrow> n = n0" using assms size by (auto simp: fits_def split: if_splits)
  show "n \<le> aq_cores a"
    using le fl pl floor_grant_bounds(2) by (cases floor) (force+)
  show "floor \<Longrightarrow> 1 \<le> n \<and> n \<le> cf_agent_floor_cores cfg"
    using fl floor_grant_bounds(1,3) by blast
  show "\<not> floor \<Longrightarrow> n < aq_cores a \<Longrightarrow> 0 < aq_min_cores a \<and> aq_min_cores a \<le> n"
    using pl sized_request_cases(2) [OF size] by auto
qed

text \<open>C8: what a granted acquisition leaves behind. Exactly one lease was added, at the end of the store;
  every lease that was kept is charged as before; the new lease never has more cores than were
  asked for, at least the minimum that was accepted when it has fewer, and at most the agent
  floor when it is a floor lease.\<close>

theorem granted_acquire_adds_one_lease:
  assumes "acquire e a st = (st', Inr (Granted g, reaped, problems))"
  shows "length (records_of st') =
      Suc (length (filter (\<lambda>r. fst (reclaim_verdict (le_host e) PNone r) \<noteq> OwnerDead) (records_of st)))
    \<and> list_all2 same_accounting (butlast (records_of st'))
        (filter (\<lambda>r. fst (reclaim_verdict (le_host e) PNone r) \<noteq> OwnerDead) (records_of st))
    \<and> gr_lease g = last (records_of st')
    \<and> is_floor (gr_lease g) = gr_floor g
    \<and> cores_of (gr_lease g) \<le> aq_cores a
    \<and> (cores_of (gr_lease g) < aq_cores a \<and> \<not> gr_floor g \<longrightarrow>
         0 < aq_min_cores a \<and> aq_min_cores a \<le> cores_of (gr_lease g))
    \<and> (\<exists>cfg. capacity_config (le_profile e) (aq_common a) = Inr cfg
         \<and> (gr_floor g \<longrightarrow> cores_of (gr_lease g) \<le> cf_agent_floor_cores cfg))"
  using assms
proof (cases rule: acquire_Inr)
  case (locked cfg priority pc lease_id st0 active rd pr extra)
  note active = lock_reclaim_Inr(1) [OF locked(4)]
  from locked(5) obtain disk floor n m st1 where fits: "fits e a cfg priority active st0 disk floor n m"
    and cg: "commit_grant e a cfg priority active
         (lease_record e a cfg lease_id n m priority pc floor (us_non_gate_used_cores (usage active cfg)) disk)
         n floor (disk_state_of a active disk) st1 = (st', g)" (is "commit_grant _ _ _ _ _ ?r _ _ _ _ = _")
    by (rule acquire_locked_Granted)
  note recs = commit_grant_records [OF cg]
  obtain xs x where xs: "records_of st' = xs @ [x]" "list_all2 same_accounting xs active" "same_accounting x ?r"
    using recs(1) by (auto simp: list_all2_append2 list_all2_Cons2)
  have "cores_of x = n" "is_floor x = floor"
    using same_accountingD [OF xs(3)] by (simp_all add: lease_record_charges lease_record_floor)
  with xs recs(2,3) fits_size [OF fits] locked(1) show ?thesis
    unfolding active [symmetric] by (auto dest: list_all2_lengthD)
qed simp

lemma acquire_rc_0: "acquire_rc outcome = 0 \<Longrightarrow> \<exists>g. outcome = Granted g"
  by (cases outcome) auto

lemma sample_granted:
  "case acquire (sample_lease_env 1000000) (sample_request ''dev'' 10 ''build'' (Some ''interactive'')) new_store of
     (st', Inr (outcome, reaped, problems)) \<Rightarrow> acquire_rc outcome = 0
   | (st', Inl err) \<Rightarrow> False"
  by code_simp

theorem granted_acquire_adds_one_lease_witness:
  "\<exists>st' g reaped problems.
     acquire (sample_lease_env 1000000) (sample_request ''dev'' 10 ''build'' (Some ''interactive'')) new_store
       = (st', Inr (Granted g, reaped, problems))
     \<and> length (records_of st') = 1 \<and> gr_lease g = last (records_of st')"
proof -
  obtain st' g reaped problems where run:
    "acquire (sample_lease_env 1000000) (sample_request ''dev'' 10 ''build'' (Some ''interactive'')) new_store
       = (st', Inr (Granted g, reaped, problems))"
    using sample_granted acquire_rc_0 by (fastforce split: prod.splits sum.splits)
  have "records_of new_store = []" by (simp add: records_of_def new_store_def load_records_def)
  with run granted_acquire_adds_one_lease [OF run] show ?thesis by auto
qed

lemma partial_sizes_first:
  assumes "partial_sizes cfg u p bc res mem (rev [lo..hi]) = Some (n, m, v)" and "n < k" and "k \<le> hi"
  shows "exceeded (core_and_memory_verdict cfg u p k (mem k) bc res)"
proof -
  have "\<forall>k \<in> set ns. n \<notin> set (takeWhile (\<lambda>x. x \<noteq> n) ns) \<longrightarrow> k \<in> set (takeWhile (\<lambda>x. x \<noteq> n) ns) \<longrightarrow>
      exceeded (core_and_memory_verdict cfg u p k (mem k) bc res)"
    if "partial_sizes cfg u p bc res mem ns = Some (n, m, v)" for ns
    using that by (induction ns) (auto simp: Let_def split: if_splits)
  then have first: "k \<in> set (takeWhile (\<lambda>x. x \<noteq> n) (rev [lo..hi])) \<Longrightarrow>
      exceeded (core_and_memory_verdict cfg u p k (mem k) bc res)"
    using assms(1) by (auto dest: set_takeWhileD)
  have n: "lo \<le> n" "n \<le> hi" using partial_sizes_Some [OF assms(1)] by auto
  then have "rev [lo..hi] = rev [n + 1..hi] @ n # rev [lo..n - 1]"
    by (simp add: upto_split2 [of lo n hi] upto_rec2 [of lo n])
  moreover have "takeWhile (\<lambda>x. x \<noteq> n) (rev [n + 1..hi] @ n # rev [lo..n - 1]) = rev [n + 1..hi]"
    by (subst takeWhile_append2) auto
  ultimately have "takeWhile (\<lambda>x. x \<noteq> n) (rev [lo..hi]) = rev [n + 1..hi]" by (simp only:)
  with first assms(2,3) show ?thesis by simp
qed

text \<open>C7: a partial grant is the largest that fits. When the size that is decided on is smaller than the
  request, the whole request exceeds an axis, and so does every size between the two with the memory
  scaled to it, while the size that was chosen exceeds none.\<close>

theorem partial_grant_largest:
  assumes "sized_request cfg u a p res = (n, m, v)" and "n < aq_cores a"
  shows "exceeded (core_and_memory_verdict cfg u p (aq_cores a) (requested_mem cfg a) (aq_build_class a) res)
    \<and> (\<forall>k. n < k \<and> k < aq_cores a \<longrightarrow>
         exceeded (core_and_memory_verdict cfg u p k (size_mem cfg a k) (aq_build_class a) res))
    \<and> v = core_and_memory_verdict cfg u p n m (aq_build_class a) res \<and> m = size_mem cfg a n
    \<and> \<not> exceeded v \<and> 0 < aq_min_cores a \<and> aq_min_cores a \<le> n"
  using assms partial_sizes_first [of cfg u p "aq_build_class a" res "size_mem cfg a" "aq_min_cores a" "aq_cores a - 1" n m v]
  by (auto simp: sized_request_def Let_def dest: partial_sizes_Some split: if_splits option.splits)

subsection \<open>Resize and release\<close>

lemma resize_Inr:
  assumes "resize e a st = (st', Inr (outcome, reaped, problems))"
  obtains cfg st0 active rd pr extra where
      "capacity_config (le_profile e) (rz_common a) = Inr cfg" "0 < rz_cores a"
      "lock_reclaim (le_host e) (ca_stale_secs (rz_common a)) PNone st = (st0, Inr (active, rd, pr))"
      "resize_locked e a cfg active st0 = (st', Inr (outcome, extra))"
  using assms unfolding resize_def
  by (auto split: sum.splits prod.splits if_splits)

text \<open>a denied resize leaves every lease exactly as it was, the resized one included, so a parked
  VM stays parked.\<close>

theorem denied_resize_unchanged:
  assumes "resize e a st = (st', Inr (outcome, reaped, problems))" and "resize_rc outcome \<noteq> 0"
  shows "records_of st' =
    filter (\<lambda>r. fst (reclaim_verdict (le_host e) PNone r) \<noteq> OwnerDead) (records_of st)"
proof -
  obtain cfg st0 active rd pr extra where
      rc: "lock_reclaim (le_host e) (ca_stale_secs (rz_common a)) PNone st = (st0, Inr (active, rd, pr))"
      and run: "resize_locked e a cfg active st0 = (st', Inr (outcome, extra))"
    using assms(1) by (rule resize_Inr)
  from run have "load_records st' = Inr active"
    by (cases rule: resize_locked_cases) (use assms(2) in auto)
  then show ?thesis using lock_reclaim_Inr(1) [OF rc] by (simp add: records_of_def)
qed

lemma mark_reaped_fields:
  "has_id i (mark_reaped r) = has_id i r" "dget (mark_reaped r) ''_reap_reason'' = PStr ''identity_mismatch''"
  by (simp_all add: mark_reaped_def has_id_def)

lemma reap_reason_found:
  "((case find (has_id i) (map mark_reaped (filter P rs)) of
       Some row \<Rightarrow> dget row ''_reap_reason'' | None \<Rightarrow> PNone) \<noteq> PNone) = (\<exists>r \<in> set rs. has_id i r \<and> P r)"
  by (induction rs) (auto simp: mark_reaped_fields)

text \<open>a release frees exactly its lease. Afterwards no lease has the released id, every other lease
  that is still owned is charged as before, and the command succeeds exactly when the lease was
  there, held or found dead by this very pass.\<close>

theorem release_frees_its_lease:
  assumes "release e c i st = (st', Inr (reply, rc))"
  shows "list_all2 same_accounting (records_of st')
      (filter (\<lambda>r. dget r ''id'' \<noteq> PStr i \<and> fst (reclaim_verdict (le_host e) (PStr i) r) \<noteq> OwnerDead)
        (records_of st))
    \<and> PStr i \<notin> (\<lambda>r. dget r ''id'') ` set (records_of st')
    \<and> (rc = 0) = (PStr i \<in> (\<lambda>r. dget r ''id'') ` set (records_of st))"
proof -
  obtain cfg st0 active reaped problems where cfg: "capacity_config (le_profile e) c = Inr cfg"
    and lock: "lock_reclaim (le_host e) (ca_stale_secs c) (PStr i) st = (st0, Inr (active, reaped, problems))"
    using assms by (auto simp: release_def split: sum.splits prod.splits)
  let ?kept = "filter (\<lambda>r. \<not> has_id i r) active"
  obtain kept' qa where rb: "reconcile_borrowers (le_host e) ?kept cfg = (kept', qa)" by fastforce
  have st': "records_of st' = kept'"
    and ok: "(rc = 0) = (length ?kept \<noteq> length active \<or>
      (case find (has_id i) reaped of Some row \<Rightarrow> dget row ''_reap_reason'' | None \<Rightarrow> PNone) \<noteq> PNone)"
    using assms by (auto simp: release_def cfg lock Let_def rb records_of_def split: if_splits)
  note active = lock_reclaim_Inr(1,2) [OF lock]
  have same: "list_all2 same_accounting kept' ?kept"
    using reconcile_same [of "le_host e" ?kept cfg] rb by simp
  have kept: "?kept = filter (\<lambda>r. dget r ''id'' \<noteq> PStr i \<and> fst (reclaim_verdict (le_host e) (PStr i) r) \<noteq> OwnerDead)
        (records_of st)" unfolding active by (simp add: has_id_def conj_commute cong: filter_cong)
  have ids: "map (\<lambda>r. dget r ''id'') kept' = map (\<lambda>r. dget r ''id'') ?kept"
    using same by (induction rule: list_all2_induct) (simp_all add: same_accountingD(1))
  then have "(\<lambda>r. dget r ''id'') ` set kept' = (\<lambda>r. dget r ''id'') ` set ?kept"
    by (metis list.set_map)
  then have "PStr i \<notin> (\<lambda>r. dget r ''id'') ` set kept'" by (auto simp: has_id_def)
  moreover have "(length ?kept \<noteq> length active) = (\<exists>r \<in> set active. has_id i r)"
    by (metis (mono_tags, lifting) filter_id_conv filter_True length_filter_less less_irrefl)
  moreover have "((case find (has_id i) reaped of Some row \<Rightarrow> dget row ''_reap_reason'' | None \<Rightarrow> PNone) \<noteq> PNone)
      = (\<exists>r \<in> set (records_of st). has_id i r \<and> reap_dead (le_host e) (PStr i) r)"
    unfolding active(2) by (rule reap_reason_found)
  ultimately have gone: "PStr i \<notin> (\<lambda>r. dget r ''id'') ` set kept'"
    and "(rc = 0) = ((\<exists>r \<in> set active. has_id i r)
      \<or> (\<exists>r \<in> set (records_of st). has_id i r \<and> reap_dead (le_host e) (PStr i) r))"
    unfolding ok by simp_all
  then have "(rc = 0) = (\<exists>r \<in> set (records_of st). has_id i r)"
    unfolding active(1) by auto
  then have "(rc = 0) = (PStr i \<in> (\<lambda>r. dget r ''id'') ` set (records_of st))"
    by (auto simp: has_id_def image_iff eq_commute [of "PStr i"])
  with gone same show ?thesis unfolding st' kept by blast
qed

text \<open>C37: a store file that does not parse is never overwritten. Whatever lease command runs on it, the
  file stays as it is, so no lease record is lost to a half-written or foreign file.\<close>

theorem corrupt_store_never_overwritten:
  assumes "load_records st = Inl err"
  shows "st_leases (store_step op st) = st_leases st"
proof -
  have lock: "lock_reclaim h stale rel st = (st, Inl err)" for h stale rel
    using assms by (simp add: lock_reclaim_def)
  show ?thesis
    by (cases op) (auto simp: acquire_def resize_def release_def heartbeat_def status_digest_def lock assms
        register_waiter_def withdraw_waiter_def write_waiters_def attach_guardian_def
        attach_guardian_writer_def finish_guard_run_def Let_def
        split: sum.split prod.split option.split)
qed

text \<open>an admission never sees a floor lease. With a floor lease added anywhere in the store, every
  core and memory verdict for every later request is the same, so floor leases take nothing from
  the gate, from VMs or from ordinary builds.\<close>

theorem floor_lease_invisible:
  assumes "is_floor r"
  shows "core_and_memory_verdict cfg (usage (rs @ r # ss) cfg) p n m bc res
    = core_and_memory_verdict cfg (usage (rs @ ss) cfg) p n m bc res"
proof -
  let ?u = "usage (rs @ r # ss) cfg" and ?w = "usage (rs @ ss) cfg"
  have cores: "us_used_cores ?u = us_used_cores ?w" "us_non_gate_used_cores ?u = us_non_gate_used_cores ?w"
    "us_classes ?u = us_classes ?w"
    by (simp_all add: usage_def Let_def assms)
  then have used: "class_used ?u = class_used ?w" by (simp add: class_used_def fun_eq_iff)
  have mem: "(case us_mem ?u of Some x \<Rightarrow> mu_used_mem_mb x | None \<Rightarrow> 0)
      = (case us_mem ?w of Some x \<Rightarrow> mu_used_mem_mb x | None \<Rightarrow> 0)"
    "(case us_mem ?u of Some x \<Rightarrow> mu_non_gate_used_mem_mb x | None \<Rightarrow> 0)
      = (case us_mem ?w of Some x \<Rightarrow> mu_non_gate_used_mem_mb x | None \<Rightarrow> 0)"
    using usage_mem [of "rs @ r # ss" cfg] usage_mem [of "rs @ ss" cfg]
      usage_mem_on [of "rs @ r # ss" cfg] usage_mem_on [of "rs @ ss" cfg]
    by (cases "us_mem ?u"; cases "us_mem ?w"; simp add: floor_charges [OF assms])+
  show ?thesis
    unfolding core_and_memory_verdict_def Let_def cores used mem by (rule refl)
qed

subsection \<open>Guardians\<close>

text \<open>guarding a lease and finishing the run is a round trip: when the supervisor is not proven
  dead, the lease gets back exactly the fields it had before its guardian and writer were attached.\<close>

theorem guardian_round_trip:
  assumes "list_all (\<lambda>k. record k = None) GUARDIAN_FIELDS"
  shows "dpop (dupdate (dupdate record (identity_fields ''guardian_'' g @ [(''guardian_mode'', PStr mode)]))
      (identity_fields ''guardian_writer_'' w)) GUARDIAN_FIELDS = record"
proof
  fix k
  show "dpop (dupdate (dupdate record (identity_fields ''guardian_'' g @ [(''guardian_mode'', PStr mode)]))
      (identity_fields ''guardian_writer_'' w)) GUARDIAN_FIELDS k = record k"
  proof (cases "k \<in> set GUARDIAN_FIELDS")
    case True
    have "dpop d ks k = None" if "k \<in> set ks" for d ks
      using that by (induction ks arbitrary: d) (auto, metis dpop_other fun_upd_same)
    with True assms show ?thesis by (auto simp: list_all_iff)
  next
    case False
    then have "k \<notin> fst ` set (identity_fields ''guardian_writer_'' w)"
      "k \<notin> fst ` set (identity_fields ''guardian_'' g @ [(''guardian_mode'', PStr mode)])"
      by (auto simp: GUARDIAN_FIELDS_def identity_fields_def)
    with False show ?thesis by (simp only: dpop_other dupdate_other not_False_eq_True)
  qed
qed

theorem guardian_round_trip_witness:
  "dpop (dupdate (dupdate [''id'' \<mapsto> PStr ''vm'']
      (identity_fields ''guardian_'' (process_identity (sample_host 0) 100) @ [(''guardian_mode'', PStr ''managed-child'')]))
      (identity_fields ''guardian_writer_'' (process_identity (sample_host 0) 200))) GUARDIAN_FIELDS
   = [''id'' \<mapsto> PStr ''vm'']"
  by (rule guardian_round_trip) (simp add: GUARDIAN_FIELDS_def)

lemma guarded_record_fields:
  assumes "g = dupdate record (identity_fields ''guardian_'' ident @ [(''guardian_mode'', PStr mode)])"
  shows "dget g ''guardian_pid'' = PInt (id_pid ident)" "has_key g ''guardian_pid''"
    "dget g ''guardian_process_start_time'' = PStr (id_process_start_time ident)"
    "dget g ''command_kind'' = dget record ''command_kind''" "dget g ''id'' = dget record ''id''"
  by (simp_all add: assms identity_fields_def)

lemma update_first_member: "find P xs = Some x \<Longrightarrow> f x \<in> set (update_first P f xs)"
  by (induction xs) (auto split: if_splits)

text \<open>a guarded VM lease follows its guardian. Once a guardian is attached, the lease survives every
  later reclaim pass in which the guardian process is still there, even when the process that
  acquired it is long dead.\<close>

theorem guardian_keeps_lease:
  assumes "attach_guardian e stale i ident mode st = (st', Inr ())"
    and "0 < id_pid ident" and "squeeze (id_process_start_time ident) = id_process_start_time ident"
    and "kill0 h (id_pid ident) \<noteq> NoSuchProcess" and "kill0_again h (id_pid ident) \<noteq> NoSuchProcess"
    and "pid_start h (id_pid ident) \<in> {[], id_process_start_time ident}"
  shows "\<exists>r \<in> set (fst (reclaim h stale' releasing (records_of st'))). has_id i r \<and> has_key r ''guardian_pid''"
proof -
  define att where "att = (\<lambda>r. dupdate r (identity_fields ''guardian_'' ident @ [(''guardian_mode'', PStr mode)]))"
  obtain st0 active reaped problems target where lock:
    "lock_reclaim (le_host e) stale PNone st = (st0, Inr (active, reaped, problems))"
    and target: "find (has_id i) active = Some target" "is_vm_kind (dget target ''command_kind'')"
    and start: "id_process_start_time ident \<noteq> []"
    and st': "st' = write_records (update_first (has_id i) att active) st0"
    using assms(1) unfolding att_def
    by (auto simp: attach_guardian_def simp del: dupdate_append split: if_splits sum.splits prod.splits option.splits)
  let ?r = "att target"
  note f = guarded_record_fields [OF att_def [THEN fun_cong, of target]]
  have "?r \<in> set (records_of st')"
    by (simp add: st' records_of_def update_first_member [OF target(1)])
  moreover have "same_process h ?r ''guardian_pid'' ''guardian_process_start_time''"
    using assms(2-6) start by (auto simp: same_process_def f text_field_def py_or_def)
  then have "owner_running h ?r"
    using target(2) by (simp add: owner_running_def f)
  then have "\<not> reap_dead h releasing ?r"
    using owner_running_not_dead reap_dead_owner_dead by blast
  ultimately have "?r \<in> set (fst (reclaim h stale' releasing (records_of st')))"
    by (simp add: reclaim_active)
  moreover have "has_id i ?r" using find_SomeD [OF target(1)] by (simp add: has_id_def f)
  ultimately show ?thesis using f(2) by blast
qed

subsection \<open>A gate request is granted\<close>

definition gate_mem_charge :: "config \<Rightarrow> pydict \<Rightarrow> int" where
  "gate_mem_charge cfg record = (if is_gate_record record cfg then mem_charge cfg record else 0)"

interpretation gate_mem_axis: budget "gate_mem_charge cfg" "\<lambda>r. sized r \<and> 0 \<le> cf_per_job_mem_mb cfg" for cfg
  by unfold_locales (simp add: gate_mem_charge_def charge_defs record_mem_nonneg)

lemma gate_mem_split:
  "sum_over (mem_charge cfg) rs - sum_over (non_gate_mem_charge cfg) rs = sum_over (gate_mem_charge cfg) rs"
  by (induction rs) (auto simp: gate_mem_charge_def non_gate_mem_charge_def)

text \<open>What a gate request asks for: gate priority, a fresh id, no build class (the code refuses one on a
  gate lease), any kind, and any disk axis with sizes that are not negative.\<close>

definition gate_request :: "config \<Rightarrow> acquire_args \<Rightarrow> store \<Rightarrow> bool" where
  "gate_request cfg a st =
     ((case parse_priority (Some (aq_priority a)) of Inr (p, pc) \<Rightarrow> cf_gate_priority cfg \<le> p | Inl e \<Rightarrow> False)
      \<and> acquire_args_error a = None \<and> aq_build_class a = None
      \<and> (aq_disk_path a \<noteq> [] \<longrightarrow> 0 \<le> aq_disk_growth_mb a \<and> 0 \<le> aq_disk_floor_mb a)
      \<and> (case aq_id a of Some i \<Rightarrow> i \<noteq> [] \<and> i \<notin> set (map id_str (records_of st)) | None \<Rightarrow> False))"

text \<open>The answers that leave the cores and the memory out of it: the whole request is granted; a VM
  yields to a VM that waits and ranks above it; a VM names no disk; or the disk has no room or cannot
  be judged.\<close>

fun gate_answer :: "acquire_args \<Rightarrow> acquire_outcome \<Rightarrow> bool" where
  "gate_answer a (Granted g) = (cores_of (gr_lease g) = aq_cores a)"
| "gate_answer a (DeferredToWaiter w) = is_vm_kind (PStr (aq_kind a))"
| "gate_answer a (VmDiskPathRequired i) = (is_vm_kind (PStr (aq_kind a)) \<and> aq_disk_path a = [])"
| "gate_answer a (Exceeded d) = (aq_disk_path a \<noteq> [] \<and> dn_disk d \<and> \<not> dn_cores d \<and> \<not> dn_memory d)"
| "gate_answer a (DuplicateLeaseId i) = False"
| "gate_answer a outcome = (aq_disk_path a \<noteq> [])"

lemma commit_grant_cores:
  assumes "commit_grant e a cfg priority active (lease_record e a cfg i n m priority pc fl used disk) n fl ds st = (st', g)"
  shows "cores_of (gr_lease g) = n"
proof -
  obtain xs x where "records_of st' = xs @ [x]" "same_accounting x (lease_record e a cfg i n m priority pc fl used disk)"
    using commit_grant_records(1) [OF assms] by (auto simp: list_all2_append2 list_all2_Cons2)
  then show ?thesis
    using commit_grant_records(2) [OF assms] by (simp add: same_accountingD(6) lease_record_charges)
qed

lemma acquire_decide_gate:
  assumes "\<not> exceeded (core_and_memory_verdict cfg (usage active cfg) p (aq_cores a) (requested_mem cfg a)
      (aq_build_class a) (fst (prompt_reserve (le_host e) st cfg)))" (is "\<not> exceeded ?v")
    and "probe_disk e a = Inr disk"
  shows "\<exists>st' outcome extra. acquire_decide e a cfg p pc i active disk st = (st', outcome, extra) \<and> gate_answer a outcome"
proof -
  let ?n = "aq_cores a" and ?m = "requested_mem cfg a" and ?ds = "disk_state_of a active disk"
  let ?rec = "lease_record e a cfg i ?n ?m p pc False (us_non_gate_used_cores (usage active cfg)) disk"
  obtain res src where res: "prompt_reserve (le_host e) st cfg = (res, src)" by fastforce
  let ?w = "core_and_memory_verdict cfg (usage active cfg) p ?n ?m (aq_build_class a) res"
  have fit: "\<not> exceeded ?w" using assms(1) res by simp
  then have ok: "\<not> vd_total_exceeded ?w" "\<not> vd_class_exceeded ?w" "\<not> vd_mem_exceeded ?w"
    by (auto simp: exceeded_def)
  have size: "sized_request cfg (usage active cfg) a p res = (?n, ?m, ?w)"
    using fit by (simp add: sized_request_def Let_def)
  obtain st1 blocker wp where rank: "rank_check (le_host e) cfg (PStr (aq_kind a)) p active
      (active @ [hypothetical i ?n ?m p]) (aq_waiter_id a) st = (st1, blocker, wp)" by (metis prod_cases3)
  have vm: "blocker \<noteq> None \<Longrightarrow> is_vm_kind (PStr (aq_kind a))"
    using rank by (auto simp: rank_check_def split: if_splits)
  obtain st2 g where cg: "commit_grant e a cfg p active ?rec ?n False ?ds st1 = (st2, g)" by fastforce
  have disk: "disk_over ?ds \<Longrightarrow> aq_disk_path a \<noteq> []"
    using assms(2) by (auto simp: disk_over_def disk_state_of_def probe_disk_def split: if_splits)
  note run = acquire_decide_def [of e a cfg p pc i active disk st, unfolded Let_def res size prod.case
      disk_state_of_def [symmetric] disk_over_def [symmetric]]
  show ?thesis
    using ok vm disk commit_grant_cores [OF cg] fit
    by (cases "disk_over ?ds"; cases blocker) (simp_all add: run rank cg)
qed

lemma acquire_locked_gate:
  assumes "\<And>res. \<not> exceeded (core_and_memory_verdict cfg (usage active cfg) p (aq_cores a) (requested_mem cfg a)
      (aq_build_class a) res)"
    and "aq_build_class a = None" and "\<not> list_ex (\<lambda>r. id_str r = i) active"
  shows "\<exists>st' outcome extra. acquire_locked e a cfg p pc i active st = (st', Inr (outcome, extra)) \<and> gate_answer a outcome"
proof (cases "probe_disk e a")
  case (Inl err)
  then have "aq_disk_path a \<noteq> []" by (auto simp: probe_disk_def split: if_splits)
  with Inl show ?thesis by (simp add: acquire_locked_def Let_def)
next
  case (Inr disk)
  have path: "disk \<noteq> None \<Longrightarrow> aq_disk_path a \<noteq> []" using Inr by (auto simp: probe_disk_def split: if_splits)
  show ?thesis
  proof (cases "acquire_refusal e a i active disk")
    case None
    with Inr assms(2) acquire_decide_gate [OF assms(1) Inr, where pc = pc and i = i and st = st] show ?thesis
      by (auto simp: acquire_locked_def Let_def)
  next
    case (Some outcome)
    then have "gate_answer a outcome"
      using path assms(3) by (auto simp: acquire_refusal_def split: option.splits if_splits)
    with Some Inr show ?thesis by (simp add: acquire_locked_def Let_def)
  qed
qed

lemma gate_request_answered:
  assumes "safe_store cfg st" and "capacity_config (le_profile e) (aq_common a) = Inr cfg" and "gate_request cfg a st"
    and "sum_over (gate_charge cfg) (records_of st) + aq_cores a \<le> cf_reserved_gate_cores cfg"
    and "cf_per_job_mem_mb cfg \<le> cf_total_mem_mb cfg"
    and "sum_over (gate_mem_charge cfg) (records_of st) + requested_mem cfg a \<le> cf_reserved_gate_mem_mb cfg"
  shows "\<exists>st' outcome reaped problems. acquire e a st = (st', Inr (outcome, reaped, problems)) \<and> gate_answer a outcome"
proof -
  have cfg: "config_ok cfg" and ok: "store_ok cfg st" using assms(1) by (simp_all add: safe_store_def)
  obtain active reaped problems st0 where lock:
    "lock_reclaim (le_host e) (ca_stale_secs (aq_common a)) PNone st = (st0, Inr (active, reaped, problems))"
    "rows_ok cfg active" "active = filter (\<lambda>r. \<not> reap_dead (le_host e) PNone r) (records_of st)"
    using lock_reclaim_cases [OF ok cfg] by metis
  have sized: "\<forall>r \<in> set (records_of st). sized r"
    using ok by (auto simp: store_ok_def records_of_def dest!: rows_ok_sized simp: list_all_iff)
  have "sum_over (gate_charge cfg) active + aq_cores a \<le> cf_reserved_gate_cores cfg"
    "sum_over (gate_mem_charge cfg) active + requested_mem cfg a \<le> cf_reserved_gate_mem_mb cfg"
    using assms(4,6) cfg sized gate_axis.spent_filter_le [of "records_of st" cfg "\<lambda>r. \<not> reap_dead (le_host e) PNone r"]
      gate_mem_axis.spent_filter_le [of "records_of st" cfg "\<lambda>r. \<not> reap_dead (le_host e) PNone r"]
    unfolding lock(3) by (auto simp: config_ok_def)
  moreover obtain p pc where p: "parse_priority (Some (aq_priority a)) = Inr (p, pc)" "cf_gate_priority cfg \<le> p"
    using assms(3) by (auto simp: gate_request_def split: sum.splits)
  ultimately have fit: "\<not> exceeded (core_and_memory_verdict cfg (usage active cfg) p (aq_cores a) (requested_mem cfg a)
      (aq_build_class a) res)" for res
    using gate_cores_fit [OF cfg _ p(2)] gate_memory_fits [OF cfg _ p(2) assms(5)] lock(2)
    by (simp add: exceeded_def rows_ok_def gate_mem_split)
  obtain i where i: "aq_id a = Some i" "i \<noteq> []" "\<not> list_ex (\<lambda>r. id_str r = i) active"
    using assms(3) by (auto simp: gate_request_def lock(3) list_ex_iff split: option.splits)
  obtain st' outcome extra where run: "acquire_locked e a cfg p pc i active st0 = (st', Inr (outcome, extra))"
    "gate_answer a outcome"
    using acquire_locked_gate [OF fit _ i(3), where e = e and pc = pc and st = st0] assms(3)
    by (auto simp: gate_request_def)
  show ?thesis
  proof (cases "is_vm_kind (PStr (aq_kind a)) \<and> aq_disk_path a = []")
    case True
    with assms(2,3) p i show ?thesis by (simp add: acquire_def gate_request_def)
  next
    case False
    then show ?thesis
      using assms(2,3) p lock(1) i run by (auto simp: acquire_def gate_request_def not_less)
  qed
qed

text \<open>C6: the promise of the gate reserve, end to end. In a store with the invariant of the lease machine,
  on a host whose memory holds at least one job, a gate request of a fresh id whose cores and memory
  fit the gate's reserves beside the gate leases already held is never refused for cores or memory,
  whatever else is running or borrowed. A request without a VM and a disk axis is granted at its full
  size. One with them is granted too, unless its disk has no room or cannot be judged, or, for a VM,
  a waiting VM ranks above it.\<close>

theorem gate_request_granted:
  assumes "safe_store cfg st" and "capacity_config (le_profile e) (aq_common a) = Inr cfg" and "gate_request cfg a st"
    and "sum_over (gate_charge cfg) (records_of st) + aq_cores a \<le> cf_reserved_gate_cores cfg"
    and "cf_per_job_mem_mb cfg \<le> cf_total_mem_mb cfg"
    and "sum_over (gate_mem_charge cfg) (records_of st) + requested_mem cfg a \<le> cf_reserved_gate_mem_mb cfg"
  shows "\<exists>st' outcome reaped problems. acquire e a st = (st', Inr (outcome, reaped, problems)) \<and> gate_answer a outcome
    \<and> (aq_disk_path a = [] \<and> \<not> is_vm_kind (PStr (aq_kind a)) \<longrightarrow>
         (\<exists>g. outcome = Granted g \<and> cores_of (gr_lease g) = aq_cores a))"
proof -
  obtain st' outcome reaped problems where "acquire e a st = (st', Inr (outcome, reaped, problems))" "gate_answer a outcome"
    using gate_request_answered [OF assms] by blast
  then show ?thesis by (cases outcome) auto
qed

subsection \<open>The retry loop returns\<close>

lemma acquire_loop_returns:
  assumes "\<forall>i < length ts. start + int i * WAIT_POLL_MS \<le> at_clock (ts ! i)"
    and "deadline < start + int (length ts) * WAIT_POLL_MS" and "ts \<noteq> []"
  shows "\<exists>st' reply k. acquire_loop a deadline n ts st = Some (st', reply, k) \<and> k \<le> n + length ts"
  using assms
proof (induction ts arbitrary: start n st)
  case (Cons t ts)
  obtain st1 reply where run: "acquire (at_env t) a st = (st1, reply)" by fastforce
  show ?case
  proof (cases "(case reply of Inr (outcome, x) \<Rightarrow> acquire_rc outcome = 75 | Inl err \<Rightarrow> False)
      \<and> at_clock t + WAIT_POLL_MS \<le> deadline")
    case False
    then show ?thesis by (auto simp: run Let_def)
  next
    case True
    have clock: "start + WAIT_POLL_MS + int i * WAIT_POLL_MS \<le> at_clock (ts ! i)" if "i < length ts" for i
      using Cons.prems(1) [rule_format, of "Suc i"] that by (simp add: algebra_simps)
    have "start \<le> at_clock t" using Cons.prems(1) [rule_format, of 0] by simp
    then have "ts \<noteq> []" using Cons.prems(2) True by auto
    with Cons.IH [of "start + WAIT_POLL_MS" "Suc n" "at_meanwhile t st1"] clock Cons.prems(2) True
    show ?thesis by (simp add: run algebra_simps)
  qed
qed simp

text \<open>C26: a waiting acquisition always returns. When the clock advances by the poll interval between
  attempts, \<open>acquire_with_wait\<close> answers after at most one attempt per two seconds of
  \<open>--wait-secs\<close> and one more, whatever other commands do in between.\<close>

theorem acquire_with_wait_returns:
  assumes "\<forall>i < length ts. start + int i * WAIT_POLL_MS \<le> at_clock (ts ! i)"
    and "length ts = nat (max 0 (aq_wait_secs a)) div 2 + 1"
  shows "\<exists>st' reply k. acquire_with_wait a start ts st = Some (st', reply, k)
    \<and> k \<le> nat (max 0 (aq_wait_secs a)) div 2 + 1"
proof -
  have "start + max 0 (aq_wait_secs a) * 1000 < start + int (length ts) * WAIT_POLL_MS"
    using assms(2) by (simp add: WAIT_POLL_MS_def)
  moreover have "ts \<noteq> []" using assms(2) by auto
  ultimately show ?thesis
    using acquire_loop_returns [OF assms(1), of "start + max 0 (aq_wait_secs a) * 1000" a 0 st] assms(2)
    by (auto simp: acquire_with_wait_def)
qed

end
