(* ===== verification/Samples.thy ===== *)
theory Samples
  imports LeaseMachine
begin

section \<open>The theorems at concrete inputs\<close>

text \<open>
  Each conditional theorem of the lease theories applied on the sample host:
  live, dead and VM-backed leases for the owner rules, the two-lease run of
  \<open>sample_ops\<close> for the accounting rules, and single commands for the rest. The
  definitions are evaluated by the simplifier on the concrete records.
\<close>

definition live_lease :: pydict where
  "live_lease = [''id'' \<mapsto> PStr ''live'', ''pid'' \<mapsto> PInt 100, ''command_kind'' \<mapsto> PStr ''build'',
     ''process_start_time'' \<mapsto> PStr ''Thu Oct 1 10:00:00 2026'', ''lease_size_cores'' \<mapsto> PInt 4]"

definition dead_lease :: pydict where
  "dead_lease = [''id'' \<mapsto> PStr ''dead'', ''pid'' \<mapsto> PInt 999, ''command_kind'' \<mapsto> PStr ''build'',
     ''lease_size_cores'' \<mapsto> PInt 2]"

definition vm_lease :: pydict where
  "vm_lease = [''id'' \<mapsto> PStr ''vm'', ''pid'' \<mapsto> PInt 999, ''command_kind'' \<mapsto> PStr ''tart-macos-vm'',
     ''vm_name'' \<mapsto> PStr ''ci-vm'', ''lease_size_cores'' \<mapsto> PInt 4]"

lemmas sample_leases = live_lease_def dead_lease_def vm_lease_def

theorem running_owner_kept_witness:
  "live_lease \<in> set (fst (reclaim (sample_host 0) 300 PNone [dead_lease, live_lease]))"
proof -
  have "owner_running (sample_host 0) live_lease" by code_simp
  then show ?thesis using running_owner_kept [of live_lease "[dead_lease, live_lease]"] by simp
qed

theorem running_vm_kept_witness:
  "vm_lease \<in> set (fst (reclaim (sample_host 0) 300 PNone [dead_lease, vm_lease]))"
proof -
  have "dget vm_lease ''command_kind'' \<in> set tart_vm_kinds" "\<not> py_eq (dget vm_lease ''id'') PNone"
    "record_vm_name vm_lease \<noteq> []" by code_simp+
  moreover have "case running_tart_vms (sample_host 0) of
      Some vms \<Rightarrow> record_vm_name vm_lease \<in> set vms | None \<Rightarrow> False" by code_simp
  ultimately show ?thesis
    using running_vm_kept [of vm_lease "[dead_lease, vm_lease]" PNone "sample_host 0"]
    by (simp split: option.splits)
qed

theorem crashed_owner_reaped_witness:
  "dead_lease \<notin> set (fst (reclaim (sample_host 0) 300 PNone [dead_lease, live_lease]))"
proof -
  have "py_int (dget dead_lease ''pid'') = Some 999" "kill0 (sample_host 0) 999 = NoSuchProcess"
    "\<not> is_vm_kind (dget dead_lease ''command_kind'')"
    by (code_simp, simp add: sample_host_def, code_simp)
  then show ?thesis by (rule crashed_owner_reaped)
qed

theorem reclaim_partition_witness:
  "\<exists>active reaped problems journal.
     reclaim (sample_host 0) 300 PNone [dead_lease, live_lease] = (active, reaped, problems, journal)
     \<and> length active + length reaped = 2
     \<and> [i. LeaseReaped i _ _ \<leftarrow> journal] = [PStr ''dead'']"
proof -
  obtain active reaped problems journal where r:
    "reclaim (sample_host 0) 300 PNone [dead_lease, live_lease] = (active, reaped, problems, journal)"
    by (metis prod_cases4)
  have "map (\<lambda>r. dget r ''id'') (filter (reap_dead (sample_host 0) PNone) [dead_lease, live_lease]) = [PStr ''dead'']"
    by code_simp
  with r reclaim_partition [OF r] show ?thesis by auto
qed

subsection \<open>Accounting\<close>

theorem capacity_config_consistent_witness:
  "capacity_config sample_env sample_common = Inr sample_config \<and> config_ok sample_config"
  using sample_capacity_config capacity_config_consistent [OF sample_capacity_config] by simp

text \<open>An interactive lease that borrowed four cores, alone and beside a gate lease granted over them.\<close>

definition sample_row :: "string \<Rightarrow> int \<Rightarrow> int \<Rightarrow> bool \<Rightarrow> pydict" where
  "sample_row i n p borrowed =
     dupdate [''id'' \<mapsto> PStr i, ''lease_size_cores'' \<mapsto> PInt n, ''lease_size_mem_mb'' \<mapsto> PInt 2048,
        ''priority'' \<mapsto> PInt p]
      (if borrowed then [(''build_class'', PStr ''interactive''), (''borrowed'', PBool True)] else [])"

definition sample_rows :: "pydict list" where
  "sample_rows = [sample_row ''dev'' 10 40 True]"

definition sample_overlap :: "pydict list" where
  "sample_overlap = [sample_row ''dev'' 10 40 True, sample_row ''gate'' 6 100 False]"

lemma sample_rows_ok: "rows_ok sample_config sample_rows" "rows_ok sample_config sample_overlap"
  by code_simp+

lemma sample_gate_room:
  "sum_over (gate_charge sample_config) sample_rows + 6 \<le> cf_reserved_gate_cores sample_config"
  "sum_over (mem_charge sample_config) sample_rows - sum_over (non_gate_mem_charge sample_config) sample_rows + 2048
     \<le> cf_reserved_gate_mem_mb sample_config"
  "cf_gate_priority sample_config \<le> 100" "cf_per_job_mem_mb sample_config \<le> cf_total_mem_mb sample_config"
  "sum_over (non_gate_charge sample_config) sample_rows = 10"
  by code_simp+

theorem gate_reserve_guaranteed_witness:
  "sum_over (non_gate_charge sample_config) sample_rows = 10
   \<and> \<not> vd_total_exceeded (core_and_memory_verdict sample_config (usage sample_rows sample_config) 100 6 2048 None 0)"
  using sample_gate_room(5) sample_rows_ok(1)
    gate_reserve_guaranteed [OF sample_config_ok _ sample_gate_room(3,1), of 2048 None 0]
  by (simp add: rows_ok_def)

theorem gate_memory_guaranteed_witness:
  "\<not> vd_mem_exceeded (core_and_memory_verdict sample_config (usage sample_rows sample_config) 100 6 2048 None 0)"
  using sample_rows_ok(1)
  by (intro gate_memory_guaranteed [OF sample_config_ok _ sample_gate_room(3,4,2)]) (simp add: rows_ok_def)

theorem reconcile_restores_capacity_witness:
  "sum_over cores_of sample_overlap = 16 \<and> cf_total sample_config = 12
   \<and> sum_over running_charge (fst (reconcile_borrowers (sample_host 0) sample_overlap sample_config)) \<le> 12"
proof -
  have "sum_over cores_of sample_overlap = 16" "cf_total sample_config = 12" by code_simp+
  then show ?thesis
    using sample_rows_ok(2) reconcile_restores_capacity [of sample_config sample_overlap "sample_host 0"]
    by (simp add: rows_ok_def)
qed

theorem reconcile_preempts_interactive_only_witness:
  "\<exists>r \<in> set (fst (reconcile_borrowers (sample_host 0) sample_overlap sample_config)).
     id_str r = ''dev'' \<and> is_preempted r \<and> dget r ''build_class'' = PStr ''interactive''"
proof -
  have "list_ex (\<lambda>r. id_str r = ''dev'' \<and> is_preempted r \<and> \<not> is_floor r)
      (fst (reconcile_borrowers (sample_host 0) sample_overlap sample_config))" by code_simp
  then obtain r where "r \<in> set (fst (reconcile_borrowers (sample_host 0) sample_overlap sample_config))"
    "id_str r = ''dev''" "is_preempted r" "\<not> is_floor r" by (auto simp: list_ex_iff)
  with reconcile_preempts_interactive_only [of sample_overlap r "sample_host 0" sample_config] sample_rows_ok(2)
  show ?thesis by (auto simp: rows_ok_def)
qed

subsection \<open>Disk\<close>

lemma sample_probe: "disk_probe sample_fs ''/vms'' ''7'' [] =
    Inr \<lparr>dk_device_id = ''7'', dk_mount_path = ''/'', dk_reservation_path = ''/vms'',
      dk_logical_path = ''/vms'', dk_free_bytes = 500000000000\<rparr>"
  by code_simp

theorem disk_probe_sound_witness:
  "mount_of sample_fs 7 ''/vms'' ''/''"
proof -
  have "\<exists>d. fs_st_dev sample_fs ''/vms'' = Some d \<and> int_str d = ''7'' \<and> mount_of sample_fs d ''/vms'' ''/''"
    using disk_probe_sound [OF sample_probe] by auto
  then show ?thesis by (simp add: sample_fs_def)
qed

definition disk_lease :: pydict where
  "disk_lease = [''id'' \<mapsto> PStr ''vm1'', ''disk_device_id'' \<mapsto> PStr ''7'',
     ''disk_growth_bytes'' \<mapsto> PInt 1000, ''disk_floor_bytes'' \<mapsto> PInt 300]"

theorem disk_capacity_covers_floors_witness:
  "sum_over (disk_charge ''7'') [disk_lease] + 500 + 300 \<le> (2000 :: int)"
proof -
  let ?p = "\<lparr>dk_device_id = ''7'', dk_mount_path = ''/'', dk_reservation_path = ''/vms'',
      dk_logical_path = ''/vms'', dk_free_bytes = 2000\<rparr>"
  have "\<not> disk_exceeded (disk_capacity [disk_lease] ?p 500 100)" "on_device ''7'' disk_lease"
    "disk_record_int disk_lease ''disk_floor_bytes'' 0 = 300" by code_simp+
  then show ?thesis using disk_capacity_covers_floors [of "[disk_lease]" ?p 500 100] by auto
qed

subsection \<open>Waiters\<close>

theorem prompt_reserve_bounds_witness:
  "0 \<le> fst (prompt_reserve (sample_host 0) new_store sample_config)
   \<and> fst (prompt_reserve (sample_host 0) new_store sample_config) \<le> 6"
  using prompt_reserve_bounds [OF sample_config_ok, of "sample_host 0" new_store] by (simp add: sample_config_def)

definition sample_wait :: wait_args where
  "sample_wait = \<lparr>wa_common = sample_common, wa_id = ''w1'', wa_cores = 4, wa_mem_mb = None,
     wa_priority = ''vm'', wa_kind = ''tart-macos-vm'', wa_pid = Some 100, wa_lane = ''lane'', wa_label = []\<rparr>"

definition registered :: "store \<times> (wait_reply \<times> int) result \<Rightarrow> bool" where
  "registered out = (case out of (st, Inr (WaitRegistered w ahead problems, rc)) \<Rightarrow> True | _ \<Rightarrow> False)"

lemma registeredD: "registered out \<Longrightarrow> \<exists>w ahead problems rc. out = (fst out, Inr (WaitRegistered w ahead problems, rc))"
  by (cases out) (auto simp: registered_def split: sum.splits wait_reply.splits)

lemma sample_wait_registered:
  "registered (register_waiter (sample_lease_env 1000000) sample_wait new_store)"
  "registered (register_waiter (sample_lease_env 31000000) sample_wait
     (fst (register_waiter (sample_lease_env 1000000) sample_wait new_store)))"
  by code_simp+

theorem refreshed_waiter_keeps_place_witness:
  "\<exists>st1 w1 x1 y1 rc1 st2 w2 x2 y2 rc2.
     register_waiter (sample_lease_env 1000000) sample_wait new_store = (st1, Inr (WaitRegistered w1 x1 y1, rc1))
     \<and> register_waiter (sample_lease_env 31000000) sample_wait st1 = (st2, Inr (WaitRegistered w2 x2 y2, rc2))
     \<and> wr_waiting_since w2 = wr_waiting_since w1"
proof -
  obtain w1 x1 y1 rc1 w2 x2 y2 rc2 where
    r1: "register_waiter (sample_lease_env 1000000) sample_wait new_store
      = (fst (register_waiter (sample_lease_env 1000000) sample_wait new_store), Inr (WaitRegistered w1 x1 y1, rc1))"
    and r2: "register_waiter (sample_lease_env 31000000) sample_wait
        (fst (register_waiter (sample_lease_env 1000000) sample_wait new_store))
      = (fst (register_waiter (sample_lease_env 31000000) sample_wait
        (fst (register_waiter (sample_lease_env 1000000) sample_wait new_store))), Inr (WaitRegistered w2 x2 y2, rc2))"
    using registeredD [OF sample_wait_registered(1)] registeredD [OF sample_wait_registered(2)] by blast
  have "still_waiting (sample_host 1000000) (sample_host 31000000) 100 90"
    by (simp add: still_waiting_def sample_host_def pid_start_def host_boot_time_def linux_boot_time_def
        clock_range_def)
  then have "wr_waiting_since w2 = wr_waiting_since w1"
    using sample_capacity_config
    by (intro refreshed_waiter_keeps_place [OF r1 r2, of 100 sample_config])
      (simp_all add: owner_pid_def sample_wait_def sample_lease_env_def sample_config_def)
  with r1 r2 show ?thesis by blast
qed

subsection \<open>Commands\<close>

definition row_store_of :: "pydict list \<Rightarrow> store" where
  "row_store_of rs = write_records rs new_store"

lemma records_of_row_store [simp]: "records_of (row_store_of rs) = rs"
  by (simp add: row_store_of_def lease_rows.read_commit)

text \<open>A live lease of process 100, in the fields the commands write.\<close>

definition held_row :: "string \<Rightarrow> int \<Rightarrow> int \<Rightarrow> pydict" where
  "held_row i n p = dupdate (sample_row i n p False)
     [(''pid'', PInt 100), (''process_start_time'', PStr ''Thu Oct 1 10:00:00 2026''),
      (''command_kind'', PStr ''build''), (''created_at'', PStr ''2026-10-01T10:00:00Z'')]"

definition sample_partial :: acquire_args where
  "sample_partial = (sample_request ''p'' 10 ''build'' None)\<lparr>aq_min_cores := 2\<rparr>"

theorem partial_grant_largest_witness:
  "\<exists>m v. sized_request sample_config (usage [held_row ''a'' 2 40] sample_config) sample_partial 40 0 = (4, m, v)
     \<and> exceeded (core_and_memory_verdict sample_config (usage [held_row ''a'' 2 40] sample_config) 40 5
         (size_mem sample_config sample_partial 5) None 0)"
proof -
  obtain n m v where run: "sized_request sample_config (usage [held_row ''a'' 2 40] sample_config) sample_partial 40 0 = (n, m, v)"
    by (metis prod_cases3)
  have "fst (sized_request sample_config (usage [held_row ''a'' 2 40] sample_config) sample_partial 40 0) = 4"
    by code_simp
  with run have "n = 4" by simp
  with run show ?thesis
    using partial_grant_largest [OF run] by (simp add: sample_partial_def sample_request_def)
qed

definition sample_resize :: "string \<Rightarrow> int \<Rightarrow> resize_args" where
  "sample_resize i n = \<lparr>rz_common = sample_common, rz_id = i, rz_cores = n, rz_mem_mb = Some 2048,
     rz_priority = None, rz_label = [], rz_waiter_id = []\<rparr>"

theorem denied_resize_unchanged_witness:
  "\<exists>st' outcome reaped problems.
     resize (sample_lease_env 0) (sample_resize ''a'' 40) (row_store_of [held_row ''a'' 2 40])
       = (st', Inr (outcome, reaped, problems))
     \<and> resize_rc outcome = 75 \<and> map cores_of (records_of st') = [2]"
proof -
  have "case resize (sample_lease_env 0) (sample_resize ''a'' 40) (row_store_of [held_row ''a'' 2 40]) of
      (st', Inr (outcome, reaped, problems)) \<Rightarrow> resize_rc outcome = 75 | (st', Inl err) \<Rightarrow> False" by code_simp
  then obtain st' outcome reaped problems where run:
    "resize (sample_lease_env 0) (sample_resize ''a'' 40) (row_store_of [held_row ''a'' 2 40])
       = (st', Inr (outcome, reaped, problems))" "resize_rc outcome = 75"
    by (auto split: prod.splits sum.splits)
  have "map cores_of (filter (\<lambda>r. fst (reclaim_verdict (sample_host 0) PNone r) \<noteq> OwnerDead) [held_row ''a'' 2 40]) = [2]"
    by code_simp
  with run denied_resize_unchanged [OF run(1)] show ?thesis by (auto simp: sample_lease_env_def)
qed

theorem release_frees_its_lease_witness:
  "\<exists>st' reply. release (sample_lease_env 0) sample_common ''a'' (row_store_of [held_row ''a'' 2 40, held_row ''b'' 3 40])
       = (st', Inr (reply, 0))
     \<and> PStr ''a'' \<notin> (\<lambda>r. dget r ''id'') ` set (records_of st')"
proof -
  let ?st = "row_store_of [held_row ''a'' 2 40, held_row ''b'' 3 40]"
  have "case release (sample_lease_env 0) sample_common ''a'' ?st of
      (st', Inr (reply, rc)) \<Rightarrow> rc = 0 | (st', Inl err) \<Rightarrow> False" by code_simp
  then obtain st' reply where run: "release (sample_lease_env 0) sample_common ''a'' ?st = (st', Inr (reply, 0))"
    by (auto split: prod.splits sum.splits)
  with release_frees_its_lease [OF run] show ?thesis by blast
qed

theorem corrupt_store_never_overwritten_witness:
  "st_leases (store_step (OpRelease (sample_lease_env 0) sample_common ''a'') (new_store\<lparr>st_leases := FileGarbled\<rparr>))
     = FileGarbled"
proof -
  have "load_records (new_store\<lparr>st_leases := FileGarbled\<rparr>) = Inl (ValueError ''invalid lease store JSON'')"
    by (simp add: load_records_def)
  from corrupt_store_never_overwritten [OF this, of "OpRelease (sample_lease_env 0) sample_common ''a''"]
  show ?thesis by (simp del: store_step.simps)
qed

definition floor_row :: "string \<Rightarrow> int \<Rightarrow> pydict" where
  "floor_row i n = dupdate (held_row i n 40) [(''floor'', PBool True), (''qos'', PStr ''background'')]"

theorem floor_lease_invisible_witness:
  "core_and_memory_verdict sample_config (usage [held_row ''a'' 2 40, floor_row ''f'' 2] sample_config) 40 4 2048 None 0
   = core_and_memory_verdict sample_config (usage [held_row ''a'' 2 40] sample_config) 40 4 2048 None 0"
proof -
  have "is_floor (floor_row ''f'' 2)" by code_simp
  from floor_lease_invisible [OF this, of sample_config "[held_row ''a'' 2 40]" "[]"] show ?thesis by simp
qed

definition vm_row :: pydict where
  "vm_row = dupdate (held_row ''v'' 4 60) [(''command_kind'', PStr ''tart-macos-vm''), (''vm_name'', PStr ''ci-vm'')]"

theorem guardian_keeps_lease_witness:
  "\<exists>st'. attach_guardian (sample_lease_env 0) 300 ''v'' (process_identity (sample_host 0) 200) ''exec'' (row_store_of [vm_row])
       = (st', Inr ())
     \<and> (\<exists>r \<in> set (fst (reclaim (sample_host 9000000000) 300 PNone (records_of st'))). has_id ''v'' r)"
proof -
  let ?g = "process_identity (sample_host 0) 200"
  have "case attach_guardian (sample_lease_env 0) 300 ''v'' ?g ''exec'' (row_store_of [vm_row]) of
      (st', Inr u) \<Rightarrow> True | (st', Inl err) \<Rightarrow> False" by code_simp
  then obtain st' where run: "attach_guardian (sample_lease_env 0) 300 ''v'' ?g ''exec'' (row_store_of [vm_row]) = (st', Inr ())"
    by (auto split: prod.splits sum.splits)
  have "squeeze (id_process_start_time ?g) = id_process_start_time ?g"
    "pid_start (sample_host 9000000000) 200 = pid_start (sample_host 0) 200" by code_simp+
  with guardian_keeps_lease [OF run, of "sample_host 9000000000" 300 PNone] run
  show ?thesis by (auto simp: sample_host_def)
qed

theorem gate_request_granted_witness:
  "\<exists>st' g reaped problems.
     acquire (sample_lease_env 3000000) (sample_request ''gate'' 6 ''gate'' None)
       (fold store_step (take 1 sample_ops) new_store) = (st', Inr (Granted g, reaped, problems))
     \<and> cores_of (gr_lease g) = 6"
proof -
  let ?st = "fold store_step (take 1 sample_ops) new_store"
  have safe: "safe_store sample_config ?st"
    by (rule lease_machine.every_prefix_safe [OF sample_start sample_ops_legal])
  have "gate_request sample_config (sample_request ''gate'' 6 ''gate'' None) ?st"
    "sum_over (gate_charge sample_config) (records_of ?st) + 6 \<le> cf_reserved_gate_cores sample_config"
    "cf_per_job_mem_mb sample_config \<le> cf_total_mem_mb sample_config"
    "sum_over (gate_mem_charge sample_config) (records_of ?st) + 2048 \<le> cf_reserved_gate_mem_mb sample_config"
    "\<not> is_vm_kind (PStr ''build'')"
    by code_simp+
  with gate_request_granted [OF safe, of "sample_lease_env 3000000" "sample_request ''gate'' 6 ''gate'' None"]
  show ?thesis
    by (auto simp: sample_lease_env_def sample_request_def sample_capacity_config requested_mem_def)
qed

theorem acquire_with_wait_returns_witness:
  "\<exists>st' reply k. acquire_with_wait ((sample_request ''big'' 40 ''build'' None)\<lparr>aq_wait_secs := 3\<rparr>) 0
      [\<lparr>at_env = sample_lease_env 0, at_clock = 0, at_meanwhile = id\<rparr>,
       \<lparr>at_env = sample_lease_env 2000000, at_clock = 2000, at_meanwhile = id\<rparr>] new_store
     = Some (st', reply, k) \<and> k \<le> 2"
proof -
  let ?ts = "[\<lparr>at_env = sample_lease_env 0, at_clock = 0, at_meanwhile = id\<rparr>,
       \<lparr>at_env = sample_lease_env 2000000, at_clock = 2000, at_meanwhile = id\<rparr>] :: attempt list"
  have "\<forall>i < length ?ts. 0 + int i * WAIT_POLL_MS \<le> at_clock (?ts ! i)"
    by (auto simp: WAIT_POLL_MS_def less_Suc_eq)
  moreover have "length ?ts = nat (max 0 (aq_wait_secs ((sample_request ''big'' 40 ''build'' None)\<lparr>aq_wait_secs := 3\<rparr>))) div 2 + 1"
    by simp
  ultimately obtain st' reply k where
    "acquire_with_wait ((sample_request ''big'' 40 ''build'' None)\<lparr>aq_wait_secs := 3\<rparr>) 0 ?ts new_store = Some (st', reply, k)"
    and k: "k \<le> nat (max 0 (aq_wait_secs ((sample_request ''big'' 40 ''build'' None)\<lparr>aq_wait_secs := 3\<rparr>))) div 2 + 1"
    using acquire_with_wait_returns by blast
  moreover from k have "k \<le> 2" by simp
  ultimately show ?thesis by (intro exI conjI)
qed

subsection \<open>Where the accounting is not what was admitted\<close>

text \<open>a floor lease that is resized stays uncharged. On a host of twelve cores, resizing a two-core
  floor lease to six cores is admitted, and the floor pool of two cores then holds six that no
  admission counts.\<close>

theorem resized_floor_lease_uncharged:
  "case resize (sample_lease_env 0) (sample_resize ''f'' 6) (row_store_of [floor_row ''f'' 2]) of
     (st', Inr (outcome, reaped, problems)) \<Rightarrow>
       resize_rc outcome = 0 \<and> us_used_cores (usage (records_of st') sample_config) = 0
       \<and> sum_over floor_charge (records_of st') = 6 \<and> cf_agent_floor_pool_cores sample_config = 2
   | (st', Inl err) \<Rightarrow> False"
  by code_simp

text \<open>an explicit memory request of zero is admitted against zero and charged as an estimate. On a
  host whose leases already hold all but one megabyte of the gate's and everyone's memory, the
  grant takes the total over the capacity, because a stored zero reads as a missing field.\<close>

theorem zero_memory_request_overcommits:
  "case acquire (sample_lease_env 0) ((sample_request ''z'' 2 ''gate'' None)\<lparr>aq_mem_mb := Some 0\<rparr>)
       (row_store_of [(held_row ''big'' 2 100)(''lease_size_mem_mb'' \<mapsto> PInt 53247)]) of
     (st', Inr (outcome, reaped, problems)) \<Rightarrow>
       acquire_rc outcome = 0
       \<and> sum_over (mem_charge sample_config) (records_of st') = 56319 \<and> cf_total_mem_mb sample_config = 53248
   | (st', Inl err) \<Rightarrow> False"
  by code_simp

end
