(* ===== verification/GateReserve.thy ===== *)
theory GateReserve
  imports Prelude
begin

section \<open>Gate lanes against the gate reserve\<close>

text \<open>
  \<open>scripts/gate_reserve_fit.py\<close>: how large a VM of a gate lane is, whether all
  slots of a lane fit the cores and the memory the host keeps for the gate, and
  the ratchet that refuses a fleet profile which makes an overcommitment worse.
  The host profile and a lane are dictionaries of scalars, as the TOML and JSON
  parsers return them; an element of the \<open>lane\<close> array that is not a table is
  \<open>None\<close>. A missing key that the code indexes is the \<open>KeyError\<close> it raises.
\<close>

subsection \<open>Reading numbers\<close>

text \<open>\<open>int(v)\<close> with its two errors, \<open>int(d[k])\<close> and \<open>int(d.get(k) or n)\<close>.\<close>

definition to_int :: "pyval \<Rightarrow> int result" where
  "to_int v = (case py_int v of
     Some n \<Rightarrow> Inr n
   | None \<Rightarrow> if v = PNone then Inl (TypeError ''int() argument must be a string or a number'')
             else Inl (ValueError ''invalid literal for int()''))"

definition int_item :: "pydict \<Rightarrow> string \<Rightarrow> int result" where
  "int_item d k = (case d k of None \<Rightarrow> Inl (KeyError k) | Some v \<Rightarrow> to_int v)"

definition int_or :: "pydict \<Rightarrow> string \<Rightarrow> int \<Rightarrow> int result" where
  "int_or d k n = to_int (py_or (dget d k) (PInt n))"

subsection \<open>The size of a VM\<close>

definition PER_JOB_MEM_MB :: int where
  "PER_JOB_MEM_MB = 1536"

definition VM_MIN_MEM_MB :: int where
  "VM_MIN_MEM_MB = 8192"

definition VM_MAX_MEM_MB :: int where
  "VM_MAX_MEM_MB = 16384"

definition vm_mem_mb :: "int \<Rightarrow> int \<Rightarrow> int" where
  "vm_mem_mb n per_job =
     (let jobs = max 1 (n - 1) in max VM_MIN_MEM_MB (min VM_MAX_MEM_MB (jobs * per_job * 4 div 3)))"

definition GATE_RESERVE_SHARE :: string where
  "GATE_RESERVE_SHARE = ''gate-reserve''"

text \<open>The loop of \<open>share_cores\<close>: one core less until the memory of all slots fits.\<close>

function shrink_cores :: "int \<Rightarrow> int \<Rightarrow> int \<Rightarrow> int \<Rightarrow> int" where
  "shrink_cores slots per_job reserve_mem n =
     (if n > 1 \<and> reserve_mem > 0 \<and> slots * vm_mem_mb n per_job > reserve_mem
      then shrink_cores slots per_job reserve_mem (n - 1) else n)"
  by pat_completeness auto

termination by (relation "measure (\<lambda>(slots, per_job, reserve_mem, n). nat n)") auto

declare shrink_cores.simps [simp del]

definition share_cores :: "pydict \<Rightarrow> int \<Rightarrow> int result" where
  "share_cores host slots =
     rbind (int_item host ''vm_pool_cores'') (\<lambda>p.
     rbind (int_or host ''reserved_gate_cores'' 0) (\<lambda>reserve_cores.
       let pool = max 1 p in
       if reserve_cores \<le> 0 then Inr pool
       else rbind (int_or host ''per_compile_job_mem_mb'' PER_JOB_MEM_MB) (\<lambda>per_job.
            rbind (int_or host ''reserved_gate_mem_mb'' 0) (\<lambda>reserve_mem.
              let s = max 1 slots
              in Inr (shrink_cores s per_job reserve_mem (max 1 (min pool (reserve_cores div s))))))))"

definition supervisors :: "pydict \<Rightarrow> int result" where
  "supervisors lane = (case lane ''supervisors'' of None \<Rightarrow> Inr 1 | Some v \<Rightarrow> to_int v)"

definition lane_vm_cores :: "pydict \<Rightarrow> pydict \<Rightarrow> int result" where
  "lane_vm_cores lane host =
     (if truthy (dget lane ''vm_cores'') then to_int (dget lane ''vm_cores'')
      else if dget lane ''vm_cores_from'' = PStr GATE_RESERVE_SHARE
      then rbind (supervisors lane) (share_cores host)
      else int_item host ''vm_pool_cores'')"

subsection \<open>The fit\<close>

type_synonym lane_table = "pydict option list"

definition is_gate_lane :: "pydict \<Rightarrow> bool" where
  "is_gate_lane lane = (dget lane ''priority'' = PNone \<or> dget lane ''priority'' = PStr ''gate'')"

definition gate_lanes :: "lane_table \<Rightarrow> pydict list" where
  "gate_lanes lanes = filter is_gate_lane (List.map_filter id lanes)"

datatype fit_axis = CoresAxis | MemoryAxis

definition axis_name :: "fit_axis \<Rightarrow> string" where
  "axis_name a = (case a of CoresAxis \<Rightarrow> ''cores'' | MemoryAxis \<Rightarrow> ''memory'')"

record fit_row =
  fr_lane :: string
  fr_axis :: fit_axis
  fr_demand :: int
  fr_reserve :: int
  fr_over :: int

definition axis_row :: "pydict \<Rightarrow> fit_axis \<Rightarrow> int \<Rightarrow> int \<Rightarrow> fit_row list" where
  "axis_row lane axis demand reserve =
     (if reserve \<le> 0 then []
      else [\<lparr>fr_lane = py_str (dget lane ''id''), fr_axis = axis, fr_demand = demand,
             fr_reserve = reserve, fr_over = max 0 (demand - reserve)\<rparr>])"

definition fit_lane :: "pydict \<Rightarrow> int \<Rightarrow> pydict \<Rightarrow> fit_row list result" where
  "fit_lane host per_job lane =
     rbind (supervisors lane) (\<lambda>s.
     rbind (lane_vm_cores lane host) (\<lambda>n.
     rbind (int_item host ''reserved_gate_cores'') (\<lambda>reserve_cores.
     rbind (int_or host ''reserved_gate_mem_mb'' 0) (\<lambda>reserve_mem.
       Inr (axis_row lane CoresAxis (s * n) reserve_cores
            @ axis_row lane MemoryAxis (s * vm_mem_mb n per_job) reserve_mem)))))"

definition fit :: "lane_table \<Rightarrow> pydict \<Rightarrow> fit_row list result" where
  "fit lanes host =
     rbind (int_or host ''per_compile_job_mem_mb'' PER_JOB_MEM_MB) (\<lambda>per_job.
     rbind (rtraverse (fit_lane host per_job) (gate_lanes lanes)) (\<lambda>rows. Inr (concat rows)))"

definition not_applicable_lines :: "lane_table \<Rightarrow> pydict \<Rightarrow> string list result" where
  "not_applicable_lines lanes host =
     (if List.null (gate_lanes lanes) then Inr []
      else rbind (int_or host ''reserved_gate_cores'' 0) (\<lambda>c.
        if c \<le> 0 then Inr [''gate reserve: n/a (this host reserves no gate cores)'']
        else rbind (int_or host ''reserved_gate_mem_mb'' 0) (\<lambda>m.
          if m \<le> 0 then Inr [''gate reserve: memory axis n/a (this host reports no gate memory reserve)'']
          else Inr [])))"

definition finding_line :: "fit_row \<Rightarrow> string" where
  "finding_line r = ''gate_reserve_overcommitted lane='' @ fr_lane r @ '' axis='' @ axis_name (fr_axis r)
     @ '' demand='' @ int_str (fr_demand r) @ '' reserve='' @ int_str (fr_reserve r)"

definition finding_lines :: "fit_row list \<Rightarrow> string list" where
  "finding_lines rows = map finding_line (filter (\<lambda>r. fr_over r > 0) rows)"

subsection \<open>The ratchet\<close>

text \<open>\<open>{(lane, axis): over}\<close> of a fit, a later row overwriting an earlier one, and its \<open>get\<close> with
  default zero.\<close>

definition over_table :: "fit_row list \<Rightarrow> (string \<times> fit_axis) \<rightharpoonup> int" where
  "over_table rows = map_of (rev (map (\<lambda>r. ((fr_lane r, fr_axis r), fr_over r)) rows))"

definition over_of :: "fit_row list \<Rightarrow> string \<times> fit_axis \<Rightarrow> int" where
  "over_of rows k = (case over_table rows k of Some n \<Rightarrow> n | None \<Rightarrow> 0)"

definition refusal_line :: "fit_row list \<Rightarrow> fit_row \<Rightarrow> string" where
  "refusal_line before r = ''gate_reserve_worse lane='' @ fr_lane r @ '' axis='' @ axis_name (fr_axis r)
     @ '' installed_over='' @ int_str (over_of before (fr_lane r, fr_axis r))
     @ '' target_over='' @ int_str (fr_over r) @ '' reserve='' @ int_str (fr_reserve r)"

definition ratchet :: "lane_table option \<Rightarrow> lane_table \<Rightarrow> pydict \<Rightarrow> (fit_row list \<times> string list) result" where
  "ratchet installed target host =
     rbind (fit target host) (\<lambda>rows. case installed of
       None \<Rightarrow> Inr (rows, [])
     | Some lanes \<Rightarrow> rbind (fit lanes host) (\<lambda>before.
         Inr (rows, map (refusal_line before)
           (filter (\<lambda>r. fr_over r > over_of before (fr_lane r, fr_axis r)) rows))))"

subsection \<open>The size of a slot\<close>

lemma shrink_cores_ge_1: "1 \<le> n \<Longrightarrow> 1 \<le> shrink_cores s pj rm n"
  by (induction s pj rm n rule: shrink_cores.induct) (subst shrink_cores.simps, auto)

lemma shrink_cores_le: "shrink_cores s pj rm n \<le> n"
  by (induction s pj rm n rule: shrink_cores.induct) (subst shrink_cores.simps, force)

lemma shrink_cores_fits:
  "1 \<le> n \<Longrightarrow> 0 < rm \<Longrightarrow> s * vm_mem_mb 1 pj \<le> rm \<Longrightarrow> s * vm_mem_mb (shrink_cores s pj rm n) pj \<le> rm"
proof (induction s pj rm n rule: shrink_cores.induct)
  case (1 s pj rm n)
  show ?case
  proof (cases "n > 1 \<and> rm > 0 \<and> s * vm_mem_mb n pj > rm")
    case True
    with 1 show ?thesis by (subst shrink_cores.simps) simp
  next
    case False
    then have "n = 1 \<or> s * vm_mem_mb n pj \<le> rm" using "1.prems" by auto
    with False "1.prems" show ?thesis by (subst shrink_cores.simps) auto
  qed
qed

lemma shrink_cores_largest:
  "shrink_cores s pj rm n < c \<Longrightarrow> c \<le> n \<Longrightarrow> 0 < rm \<and> rm < s * vm_mem_mb c pj"
proof (induction s pj rm n rule: shrink_cores.induct)
  case (1 s pj rm n)
  show ?case
  proof (cases "n > 1 \<and> rm > 0 \<and> s * vm_mem_mb n pj > rm")
    case True
    with "1.prems" have "shrink_cores s pj rm (n - 1) < c"
      using shrink_cores.simps [of s pj rm n] by simp
    with 1 True show ?thesis by (cases "c = n") auto
  next
    case False
    with "1.prems" show ?thesis using shrink_cores.simps [of s pj rm n] by simp
  qed
qed

lemma share_cores_Inr:
  assumes "share_cores host slots = Inr c"
    and "int_item host ''vm_pool_cores'' = Inr pool" and "int_or host ''reserved_gate_cores'' 0 = Inr rc"
    and "int_or host ''per_compile_job_mem_mb'' PER_JOB_MEM_MB = Inr pj"
    and "int_or host ''reserved_gate_mem_mb'' 0 = Inr rm" and "0 < rc" and "1 \<le> slots"
  shows "c = shrink_cores slots pj rm (max 1 (min (max 1 pool) (rc div slots)))"
  using assms by (simp add: share_cores_def Let_def max_absorb2)

text \<open>a lane sized from the gate reserve gets the largest VM that fits. On a host with a gate
  reserve, \<open>share_cores\<close> answers between one core and the VM pool; when one-core VMs fit the
  reserve, all slots together fit its cores and its memory; and every larger size up to the pool
  breaks an axis.\<close>

theorem share_cores_largest_fit:
  assumes "share_cores host slots = Inr c"
    and "int_item host ''vm_pool_cores'' = Inr pool" and "int_or host ''reserved_gate_cores'' 0 = Inr rc"
    and "int_or host ''per_compile_job_mem_mb'' PER_JOB_MEM_MB = Inr pj"
    and "int_or host ''reserved_gate_mem_mb'' 0 = Inr rm" and "0 < rc" and "1 \<le> slots"
  shows "1 \<le> c \<and> c \<le> max 1 pool
    \<and> (slots \<le> rc \<longrightarrow> slots * c \<le> rc)
    \<and> (0 < rm \<longrightarrow> slots * vm_mem_mb 1 pj \<le> rm \<longrightarrow> slots * vm_mem_mb c pj \<le> rm)
    \<and> (\<forall>c'. c < c' \<longrightarrow> c' \<le> pool \<longrightarrow> rc < slots * c' \<or> (0 < rm \<and> rm < slots * vm_mem_mb c' pj))"
proof -
  define n where "n = max 1 (min (max 1 pool) (rc div slots))"
  have c: "c = shrink_cores slots pj rm n"
    using share_cores_Inr [OF assms] by (simp add: n_def)
  have n: "1 \<le> n" "n \<le> max 1 pool" by (simp_all add: n_def)
  have "slots * c \<le> rc" if "slots \<le> rc"
  proof -
    have "1 \<le> rc div slots" using pos_imp_zdiv_pos_iff [of slots rc] that assms(7) by linarith
    then have "n \<le> rc div slots" by (simp add: n_def)
    then have "c \<le> rc div slots" using shrink_cores_le [of slots pj rm n] c by linarith
    then have "slots * c \<le> slots * (rc div slots)" using assms(7) by simp
    also have "\<dots> \<le> rc"
      using mult_div_mod_eq [of slots rc] pos_mod_sign [of slots rc] assms(7) by linarith
    finally show ?thesis .
  qed
  moreover have "rc < slots * c' \<or> (0 < rm \<and> rm < slots * vm_mem_mb c' pj)" if "c < c'" "c' \<le> pool" for c'
  proof (cases "c' \<le> n")
    case True
    then show ?thesis using shrink_cores_largest [of slots pj rm n c'] c that by simp
  next
    case False
    then have "rc div slots < c'" using that by (auto simp: n_def)
    then have "slots * (rc div slots + 1) \<le> slots * c'" using assms(7) by (intro mult_left_mono) auto
    then have "slots * (rc div slots) + slots \<le> slots * c'" by (simp add: distrib_left)
    then have "rc < slots * c'"
      using mult_div_mod_eq [of slots rc] pos_mod_bound [of slots rc] assms(7) by linarith
    then show ?thesis ..
  qed
  ultimately show ?thesis
    using c n shrink_cores_ge_1 [of n slots pj rm] shrink_cores_le [of slots pj rm n]
      shrink_cores_fits [of n rm slots pj] by auto
qed

subsection \<open>A ratchet only turns one way\<close>

lemma over_table_Some: "over_table rows k = Some n \<Longrightarrow> \<exists>r \<in> set rows. (fr_lane r, fr_axis r) = k \<and> fr_over r = n"
  by (auto simp: over_table_def dest!: map_of_SomeD)

lemma axis_row_nonneg: "r \<in> set (axis_row lane axis d v) \<Longrightarrow> 0 \<le> fr_over r"
  by (auto simp: axis_row_def split: if_splits)

lemma fit_nonneg:
  assumes "fit lanes host = Inr rows" and "r \<in> set rows"
  shows "0 \<le> fr_over r"
proof -
  obtain pj rss where rss: "rtraverse (fit_lane host pj) (gate_lanes lanes) = Inr rss" "rows = concat rss"
    using assms(1) by (auto simp: fit_def rbind_eq_Inr)
  obtain rs where "rs \<in> set rss" "r \<in> set rs" using assms(2) rss(2) by auto
  moreover have "\<exists>lane. fit_lane host pj lane = Inr rs"
    using rtraverse_Inr [OF rss(1)] \<open>rs \<in> set rss\<close> by (auto simp: list_all2_conv_all_nth in_set_conv_nth)
  ultimately show ?thesis by (auto simp: fit_lane_def rbind_eq_Inr dest: axis_row_nonneg)
qed

lemma over_of_nonneg: "fit lanes host = Inr rows \<Longrightarrow> 0 \<le> over_of rows k"
  by (auto simp: over_of_def split: option.split dest!: over_table_Some dest: fit_nonneg)

lemma ratchet_step:
  assumes "ratchet (Some installed) target host = Inr (rows, [])" and "fit installed host = Inr before"
  shows "fit target host = Inr rows \<and> over_of rows k \<le> over_of before k"
proof -
  have "fit target host = Inr rows"
    and "\<forall>r \<in> set rows. fr_over r \<le> over_of before (fr_lane r, fr_axis r)"
    using assms by (auto simp: ratchet_def rbind_eq_Inr filter_empty_conv not_less)
  moreover from this have "over_of rows k \<le> over_of before k"
    using over_of_nonneg [OF assms(2), of k]
    by (auto simp: over_of_def [of rows] split: option.split dest!: over_table_Some)
  ultimately show ?thesis by simp
qed

text \<open>The updates a host accepts one after the other, each measured on the same live reserve.\<close>

fun accepted :: "pydict \<Rightarrow> lane_table \<Rightarrow> lane_table list \<Rightarrow> bool" where
  "accepted host installed [] = True"
| "accepted host installed (target # targets) =
     ((case ratchet (Some installed) target host of
         Inr (rows, refusals) \<Rightarrow> refusals = [] | Inl e \<Rightarrow> False)
      \<and> accepted host target targets)"

lemma accepted_over:
  "accepted host installed targets \<Longrightarrow> fit installed host = Inr before \<Longrightarrow>
     \<exists>rows. fit (last (installed # targets)) host = Inr rows \<and> over_of rows k \<le> over_of before k"
proof (induction targets arbitrary: installed before)
  case (Cons target targets)
  then obtain rows where r: "ratchet (Some installed) target host = Inr (rows, [])"
    by (auto split: sum.splits)
  note step = ratchet_step [OF r Cons.prems(2), of k]
  have "accepted host target targets" using Cons.prems(1) by simp
  then obtain rows' where "fit (last (target # targets)) host = Inr rows'" "over_of rows' k \<le> over_of rows k"
    using Cons.IH [of target rows] step by blast
  with step show ?case by auto
qed auto

text \<open>C33: the gate reserve is a ratchet. However many profile updates a host accepts in a row, the
  overcommitment of every lane on every axis is at the end no greater than it was at the start; a
  lane that was not there, or was dropped on the way, may come back only without one.\<close>

theorem ratchet_never_worse:
  assumes "accepted host installed targets" and "fit installed host = Inr before"
  shows "\<exists>rows. fit (last (installed # targets)) host = Inr rows
    \<and> (\<forall>lane axis. over_of rows (lane, axis) \<le> over_of before (lane, axis))"
proof -
  obtain rows where "fit (last (installed # targets)) host = Inr rows"
    using accepted_over [OF assms] by blast
  moreover from this have "over_of rows k \<le> over_of before k" for k
    using accepted_over [OF assms, of k] by simp
  ultimately show ?thesis by blast
qed

subsection \<open>What a fit without findings says of a lane\<close>

lemma fit_member:
  assumes "fit lanes host = Inr rows" and "lane \<in> set (gate_lanes lanes)"
    and "supervisors lane = Inr s" and "lane_vm_cores lane host = Inr n"
    and "int_or host ''per_compile_job_mem_mb'' PER_JOB_MEM_MB = Inr pj"
    and "int_item host ''reserved_gate_cores'' = Inr rc" and "int_or host ''reserved_gate_mem_mb'' 0 = Inr rm"
  shows "set (axis_row lane CoresAxis (s * n) rc) \<subseteq> set rows
    \<and> set (axis_row lane MemoryAxis (s * vm_mem_mb n pj) rm) \<subseteq> set rows"
proof -
  obtain rss where rss: "rtraverse (fit_lane host pj) (gate_lanes lanes) = Inr rss" "rows = concat rss"
    using assms(1,5) by (auto simp: fit_def rbind_eq_Inr)
  obtain i where i: "i < length (gate_lanes lanes)" "gate_lanes lanes ! i = lane"
    using assms(2) by (auto simp: in_set_conv_nth)
  then have "fit_lane host pj lane = Inr (rss ! i)" "i < length rss"
    using rtraverse_Inr [OF rss(1)] by (auto simp: list_all2_conv_all_nth)
  then have "rss ! i = axis_row lane CoresAxis (s * n) rc @ axis_row lane MemoryAxis (s * vm_mem_mb n pj) rm"
    using assms by (simp add: fit_lane_def)
  moreover have "set (rss ! i) \<subseteq> set rows" using rss(2) nth_mem [OF \<open>i < length rss\<close>] by auto
  ultimately show ?thesis by auto
qed

lemma no_findings_fit:
  assumes "fit lanes host = Inr rows" and "finding_lines rows = []" and "lane \<in> set (gate_lanes lanes)"
    and "supervisors lane = Inr s" and "lane_vm_cores lane host = Inr n"
    and "int_or host ''per_compile_job_mem_mb'' PER_JOB_MEM_MB = Inr pj"
    and "int_item host ''reserved_gate_cores'' = Inr rc" and "int_or host ''reserved_gate_mem_mb'' 0 = Inr rm"
    and "0 < rc" and "0 < rm"
  shows "s * n \<le> rc" "s * vm_mem_mb n pj \<le> rm"
proof -
  have "\<forall>r \<in> set rows. fr_over r \<le> 0"
    using assms(2) by (auto simp: finding_lines_def filter_empty_conv not_less)
  with fit_member [OF assms(1,3-8)] assms(9,10)
  show "s * n \<le> rc" "s * vm_mem_mb n pj \<le> rm" by (auto simp: axis_row_def)
qed

subsection \<open>At a concrete host\<close>

definition studio_host :: pydict where
  "studio_host = [''vm_pool_cores'' \<mapsto> PInt 14, ''reserved_gate_cores'' \<mapsto> PInt 14,
     ''reserved_gate_mem_mb'' \<mapsto> PInt 24000, ''per_compile_job_mem_mb'' \<mapsto> PInt 1536]"

definition gate_lane :: "(string \<times> pyval) list \<Rightarrow> pydict option" where
  "gate_lane extra = Some (dupdate [''id'' \<mapsto> PStr ''pulp-gate'', ''supervisors'' \<mapsto> PInt 2] extra)"

theorem share_cores_largest_fit_witness:
  "share_cores studio_host 2 = Inr 6 \<and> 2 * 6 \<le> (14::int) \<and> 2 * vm_mem_mb 6 1536 \<le> 24000
   \<and> (14 < 2 * (7::int) \<or> 24000 < 2 * vm_mem_mb 7 1536)"
proof -
  have run: "share_cores studio_host 2 = Inr 6" by code_simp
  have vals: "int_item studio_host ''vm_pool_cores'' = Inr 14" "int_or studio_host ''reserved_gate_cores'' 0 = Inr 14"
    "int_or studio_host ''per_compile_job_mem_mb'' PER_JOB_MEM_MB = Inr 1536"
    "int_or studio_host ''reserved_gate_mem_mb'' 0 = Inr 24000" by code_simp+
  have "2 * vm_mem_mb 1 1536 \<le> 24000" by code_simp
  with share_cores_largest_fit [OF run vals] run show ?thesis by (auto dest: spec [of _ 7])
qed

theorem ratchet_never_worse_witness:
  "\<exists>rows. fit [gate_lane [(''vm_cores'', PInt 7)]] studio_host = Inr rows
     \<and> (\<forall>lane axis. over_of rows (lane, axis)
          \<le> over_of [\<lparr>fr_lane = ''pulp-gate'', fr_axis = CoresAxis, fr_demand = 24, fr_reserve = 14, fr_over = 10\<rparr>,
                \<lparr>fr_lane = ''pulp-gate'', fr_axis = MemoryAxis, fr_demand = 32768, fr_reserve = 24000, fr_over = 8768\<rparr>]
              (lane, axis))"
proof -
  have "accepted studio_host [gate_lane [(''vm_cores'', PInt 12)]]
      [[gate_lane [(''vm_cores'', PInt 10)]], [gate_lane [(''vm_cores'', PInt 7)]]]" by code_simp
  moreover have "fit [gate_lane [(''vm_cores'', PInt 12)]] studio_host = Inr
      [\<lparr>fr_lane = ''pulp-gate'', fr_axis = CoresAxis, fr_demand = 24, fr_reserve = 14, fr_over = 10\<rparr>,
       \<lparr>fr_lane = ''pulp-gate'', fr_axis = MemoryAxis, fr_demand = 32768, fr_reserve = 24000, fr_over = 8768\<rparr>]"
    by code_simp
  ultimately show ?thesis by (drule_tac ratchet_never_worse) simp_all
qed

end
