(* ===== verification/LeaseFit.thy ===== *)
theory LeaseFit
  imports LeaseMachine
begin

section \<open>Would a lease be granted, now or ever\<close>

text \<open>
  \<open>scripts/lease_fit.py\<close>: the read-only question a VM supervisor asks before it
  spends an admission call and a queue scan. \<open>evaluate\<close> answers with the budget
  figures of the lease store; \<open>run\<close> reads the store, drops the memory-only leases
  of parked VMs and reports the most favourable answer over the lane's priorities.
  The theorems compare the answers with \<open>core_and_memory_verdict\<close>, the check
  \<open>acquire\<close> itself makes.
\<close>

subsection \<open>The verdict\<close>

datatype fit_verdict = FitsNow | NotNow | NeverFits

definition class_budget :: "config \<Rightarrow> int \<Rightarrow> int \<times> int" where
  "class_budget cfg priority =
     (if priority \<ge> cf_gate_priority cfg then (cf_total cfg, cf_total_mem_mb cfg)
      else (max 1 (cf_total cfg - cf_reserved_gate_cores cfg),
            if cf_total_mem_mb cfg > 0
            then max (cf_per_job_mem_mb cfg) (cf_total_mem_mb cfg - cf_reserved_gate_mem_mb cfg) else 0))"

record fit_result =
  ft_verdict :: fit_verdict
  ft_requested_cores :: int
  ft_requested_mem_mb :: int
  ft_priority :: int
  ft_core_budget :: int
  ft_mem_budget_mb :: int
  ft_max_concurrent :: int
  ft_never_cores :: bool
  ft_never_memory :: bool
  ft_binding_axis_now :: "string option"
  ft_used_cores :: int
  ft_available_cores :: int
  ft_total_cores :: int

definition evaluate :: "config \<Rightarrow> pydict list \<Rightarrow> int \<Rightarrow> int option \<Rightarrow> int \<Rightarrow> fit_result result" where
  "evaluate cfg active n mem_mb priority =
     (if n \<le> 0 then Inl (ValueError ''lease cores must be positive'')
      else
      let gate = (priority \<ge> cf_gate_priority cfg);
          req_mem = (case mem_mb of Some m \<Rightarrow> m | None \<Rightarrow> n * cf_per_job_mem_mb cfg);
          (core_budget, mem_budget) = class_budget cfg priority;
          on = (cf_total_mem_mb cfg > 0);
          never_cores = (n > core_budget \<or> n > cf_total cfg);
          never_mem = (on \<and> (req_mem > mem_budget \<or> req_mem > cf_total_mem_mb cfg));
          by_cores = core_budget div n;
          by_mem = (if on \<and> req_mem > 0 then mem_budget div req_mem else by_cores);
          current = usage active cfg;
          used_class = (if gate then us_used_cores current else us_non_gate_used_cores current);
          now_cores = (us_used_cores current + n \<le> cf_total cfg \<and> used_class + n \<le> core_budget);
          used_mem = (case us_mem current of Some m \<Rightarrow> mu_used_mem_mb m | None \<Rightarrow> 0);
          used_mem_class = (if gate then used_mem
            else (case us_mem current of Some m \<Rightarrow> mu_non_gate_used_mem_mb m | None \<Rightarrow> 0));
          now_mem = (on \<longrightarrow> used_mem + req_mem \<le> cf_total_mem_mb cfg \<and> used_mem_class + req_mem \<le> mem_budget);
          never = (never_cores \<or> never_mem);
          v = (if never then NeverFits else if now_cores \<and> now_mem then FitsNow else NotNow)
      in Inr \<lparr>ft_verdict = v, ft_requested_cores = n, ft_requested_mem_mb = req_mem,
           ft_priority = priority, ft_core_budget = core_budget, ft_mem_budget_mb = mem_budget,
           ft_max_concurrent = (if never then 0 else max 0 (min by_cores by_mem)),
           ft_never_cores = never_cores, ft_never_memory = never_mem,
           ft_binding_axis_now = (if v \<noteq> NotNow then None
             else if \<not> now_cores then Some ''cores'' else Some ''memory''),
           ft_used_cores = us_used_cores current, ft_available_cores = us_available_cores current,
           ft_total_cores = cf_total cfg\<rparr>)"

subsection \<open>The command\<close>

record fit_args =
  fa_common :: common_args
  fa_cores :: int
  fa_mem_mb :: "int option"
  fa_priority :: "string list"
  fa_non_gate_cap :: "int option"
  fa_no_live :: bool

fun RANK :: "fit_verdict \<Rightarrow> int" where
  "RANK FitsNow = 0"
| "RANK NotNow = 1"
| "RANK NeverFits = 2"

definition better :: "fit_result \<Rightarrow> fit_result \<Rightarrow> bool" where
  "better result best =
     (RANK (ft_verdict result) < RANK (ft_verdict best)
      \<or> (RANK (ft_verdict result) = RANK (ft_verdict best)
         \<and> ft_max_concurrent result > ft_max_concurrent best))"

definition capped_cores :: "config \<Rightarrow> fit_args \<Rightarrow> int \<Rightarrow> int" where
  "capped_cores cfg a priority = (case fa_non_gate_cap a of
     Some cap \<Rightarrow> if cap > 0 \<and> priority < cf_gate_priority cfg \<and> fa_cores a > cap then cap else fa_cores a
   | None \<Rightarrow> fa_cores a)"

text \<open>One turn of the loop over \<open>--priority\<close>, and the loop.\<close>

definition evaluate_priority :: "config \<Rightarrow> pydict list \<Rightarrow> fit_args \<Rightarrow> string \<Rightarrow> fit_result result" where
  "evaluate_priority cfg active a raw = (case parse_priority (Some raw) of
     Inl e \<Rightarrow> Inl e
   | Inr (priority, c) \<Rightarrow> evaluate cfg active (capped_cores cfg a priority) (fa_mem_mb a) priority)"

fun best_fit :: "config \<Rightarrow> pydict list \<Rightarrow> fit_args \<Rightarrow> fit_result option \<Rightarrow> string list
    \<Rightarrow> fit_result option result" where
  "best_fit cfg active a best [] = Inr best"
| "best_fit cfg active a best (raw # raws) = (case evaluate_priority cfg active a raw of
     Inl e \<Rightarrow> Inl e
   | Inr result \<Rightarrow> best_fit cfg active a
       (case best of None \<Rightarrow> Some result | Some b \<Rightarrow> if better result b then Some result else best) raws)"

definition fit_rc :: "fit_verdict \<Rightarrow> int" where
  "fit_rc v = (case v of FitsNow \<Rightarrow> 0 | NotNow \<Rightarrow> 3 | NeverFits \<Rightarrow> 4)"

text \<open>\<open>run\<close>: the answer and the exit code. The store is only read; the reclaim pass judges the
  records and its result is not written back. \<open>main\<close> answers 1 for every error.\<close>

definition fit_active :: "lease_env \<Rightarrow> fit_args \<Rightarrow> store \<Rightarrow> pydict list result" where
  "fit_active e a st =
     (if fa_no_live a then Inr []
      else (case load_records st of
        Inl err \<Rightarrow> Inl err
      | Inr records \<Rightarrow> Inr (filter (\<lambda>r. \<not> truthy (dget r ''memory_only''))
          (fst (reclaim (le_host e) (ca_stale_secs (fa_common a)) PNone records)))))"

definition fit_run :: "lease_env \<Rightarrow> fit_args \<Rightarrow> store \<Rightarrow> (fit_result \<times> int) result" where
  "fit_run e a st =
     (case capacity_config (le_profile e) (fa_common a) of
        Inl err \<Rightarrow> Inl err
      | Inr cfg \<Rightarrow> (case fit_active e a st of
        Inl err \<Rightarrow> Inl err
      | Inr active \<Rightarrow>
          (case best_fit cfg active a None (if fa_priority a = [] then [''vm''] else fa_priority a) of
             Inl err \<Rightarrow> Inl err
           | Inr None \<Rightarrow> Inl (RuntimeError ''best is not None'')
           | Inr (Some best) \<Rightarrow> Inr (best, fit_rc (ft_verdict best)))))"

definition fit_main_rc :: "lease_env \<Rightarrow> fit_args \<Rightarrow> store \<Rightarrow> int" where
  "fit_main_rc e a st = (case fit_run e a st of Inl err \<Rightarrow> 1 | Inr (best, rc) \<Rightarrow> rc)"

subsection \<open>The answers and the admission\<close>

abbreviation req_mem_of :: "config \<Rightarrow> int \<Rightarrow> int option \<Rightarrow> int" where
  "req_mem_of cfg n m \<equiv> (case m of Some k \<Rightarrow> k | None \<Rightarrow> n * cf_per_job_mem_mb cfg)"

lemma class_budget_gate: "cf_gate_priority cfg \<le> p \<Longrightarrow> class_budget cfg p = (cf_total cfg, cf_total_mem_mb cfg)"
  by (simp add: class_budget_def)

lemma class_budget_non_gate:
  "\<not> cf_gate_priority cfg \<le> p \<Longrightarrow>
     class_budget cfg p = (guaranteed_limit cfg, if 0 < cf_total_mem_mb cfg then non_gate_mem_limit cfg else 0)"
  by (simp add: class_budget_def)

text \<open>The two admission axes as inequalities over the charges of the stored leases.\<close>

definition cores_now :: "config \<Rightarrow> pydict list \<Rightarrow> int \<Rightarrow> int \<Rightarrow> bool" where
  "cores_now cfg rs p n =
     (sum_over (gate_charge cfg) rs + sum_over (non_gate_charge cfg) rs + n \<le> cf_total cfg
      \<and> (cf_gate_priority cfg \<le> p \<or> sum_over (non_gate_charge cfg) rs + n \<le> guaranteed_limit cfg))"

definition memory_now :: "config \<Rightarrow> pydict list \<Rightarrow> int \<Rightarrow> int \<Rightarrow> bool" where
  "memory_now cfg rs p m =
     (0 < cf_total_mem_mb cfg \<longrightarrow>
        sum_over (mem_charge cfg) rs + m \<le> cf_total_mem_mb cfg
        \<and> (cf_gate_priority cfg \<le> p \<or> sum_over (non_gate_mem_charge cfg) rs + m \<le> non_gate_mem_limit cfg))"

lemma usage_mem_cases:
  obtains "\<not> 0 < cf_total_mem_mb cfg" "us_mem (usage rs cfg) = None"
  | u where "0 < cf_total_mem_mb cfg" "us_mem (usage rs cfg) = Some u"
      "mu_used_mem_mb u = sum_over (mem_charge cfg) rs"
      "mu_non_gate_used_mem_mb u = sum_over (non_gate_mem_charge cfg) rs"
  using usage_mem_on [of rs cfg] usage_mem [of rs cfg] by (cases "us_mem (usage rs cfg)") auto

lemma admits_charges:
  assumes "cf_gate_priority cfg \<le> p \<Longrightarrow> cu_lent_cores (us_classes (usage rs cfg)) = 0"
  shows "admits cfg rs p n m = (cores_now cfg rs p n \<and> memory_now cfg rs p m)"
  using assms
  by (cases rule: usage_mem_cases [of cfg rs])
    (auto simp: admits_def exceeded_def core_and_memory_verdict_def Let_def usage_cores cores_now_def
      memory_now_def)

lemma evaluate_verdict:
  assumes "evaluate cfg rs n m p = Inr f"
  shows "0 < n" "ft_requested_mem_mb f = req_mem_of cfg n m"
    "(ft_verdict f = NeverFits) =
       (n > fst (class_budget cfg p) \<or> n > cf_total cfg
        \<or> (0 < cf_total_mem_mb cfg \<and> (req_mem_of cfg n m > snd (class_budget cfg p)
              \<or> req_mem_of cfg n m > cf_total_mem_mb cfg)))"
    "(ft_verdict f = FitsNow) =
       (ft_verdict f \<noteq> NeverFits \<and> cores_now cfg rs p n \<and> memory_now cfg rs p (req_mem_of cfg n m))"
    "ft_verdict f \<noteq> NeverFits \<Longrightarrow> ft_max_concurrent f = max 0 (min (fst (class_budget cfg p) div n)
       (if 0 < cf_total_mem_mb cfg \<and> 0 < req_mem_of cfg n m
        then snd (class_budget cfg p) div req_mem_of cfg n m else fst (class_budget cfg p) div n))"
proof -
  define r where "r = req_mem_of cfg n m"
  define b where "b = class_budget cfg p"
  have n: "0 < n" using assms by (simp add: evaluate_def split: if_splits)
  then have n0: "(n \<le> 0) = False" by simp
  note f = assms [unfolded evaluate_def Let_def n0 if_False sum.inject case_prod_beta,
      folded r_def b_def, symmetric]
  show "0 < n" by (rule n)
  show "ft_requested_mem_mb f = r" by (simp add: f)
  show never: "(ft_verdict f = NeverFits) = (n > fst b \<or> n > cf_total cfg
      \<or> (0 < cf_total_mem_mb cfg \<and> (r > snd b \<or> r > cf_total_mem_mb cfg)))"
    by (simp add: f)
  have "(ft_verdict f = FitsNow) = (ft_verdict f \<noteq> NeverFits
      \<and> us_used_cores (usage rs cfg) + n \<le> cf_total cfg
      \<and> (if cf_gate_priority cfg \<le> p then us_used_cores (usage rs cfg) else us_non_gate_used_cores (usage rs cfg)) + n \<le> fst b
      \<and> memory_now cfg rs p r)"
    by (cases rule: usage_mem_cases [of cfg rs])
      (simp_all add: f memory_now_def b_def class_budget_def)
  then show "(ft_verdict f = FitsNow) = (ft_verdict f \<noteq> NeverFits \<and> cores_now cfg rs p n \<and> memory_now cfg rs p r)"
    by (auto simp: cores_now_def b_def class_budget_def usage_cores)
  show "ft_max_concurrent f = max 0 (min (fst b div n)
      (if 0 < cf_total_mem_mb cfg \<and> 0 < r then snd b div r else fst b div n))" if "ft_verdict f \<noteq> NeverFits"
  proof -
    have "\<not> ((n > fst b \<or> n > cf_total cfg) \<or> (0 < cf_total_mem_mb cfg \<and> (r > snd b \<or> r > cf_total_mem_mb cfg)))"
      using that never by simp
    then show ?thesis by (simp only: f fit_result.simps if_False)
  qed
qed

lemma sized_charges:
  assumes "list_all sized rs" and "config_ok cfg"
  shows "0 \<le> sum_over (gate_charge cfg) rs" "0 \<le> sum_over (non_gate_charge cfg) rs"
    "0 \<le> sum_over (mem_charge cfg) rs" "0 \<le> sum_over (non_gate_mem_charge cfg) rs"
  using assms gate_axis.spent_nonneg [of rs cfg] non_gate_axis.spent_nonneg [of rs cfg]
    mem_axis.spent_nonneg [of rs cfg] non_gate_mem_axis.spent_nonneg [of rs cfg]
  by (auto simp: list_all_iff config_ok_def)

lemma never_not_now:
  assumes "evaluate cfg rs n m p = Inr f" and "ft_verdict f = NeverFits"
    and "list_all sized rs'" and "config_ok cfg"
  shows "\<not> (cores_now cfg rs' p n \<and> memory_now cfg rs' p (req_mem_of cfg n m))"
  using assms(2) sized_charges [OF assms(3,4)] evaluate_verdict(3) [OF assms(1)]
  by (cases "cf_gate_priority cfg \<le> p")
    (auto simp: cores_now_def memory_now_def class_budget_gate class_budget_non_gate split: if_splits)

lemma now_admits:
  assumes "cores_now cfg rs p n" and "memory_now cfg rs p m"
  shows "admits cfg rs p n m"
proof -
  have "0 \<le> cu_lent_cores (us_classes (usage rs cfg))" by (simp add: usage_lent)
  then show ?thesis
    using assms
    by (cases rule: usage_mem_cases [of cfg rs])
      (auto simp: admits_def exceeded_def core_and_memory_verdict_def Let_def usage_cores cores_now_def
        memory_now_def)
qed

text \<open>Whatever is held, an admitted size is within the budget of its class.\<close>

lemma admits_within_budget:
  assumes "admits cfg rs p n m" and "list_all sized rs" and "config_ok cfg"
  shows "n \<le> fst (class_budget cfg p)" "n \<le> cf_total cfg"
    "0 < cf_total_mem_mb cfg \<Longrightarrow> m \<le> snd (class_budget cfg p) \<and> m \<le> cf_total_mem_mb cfg"
proof -
  let ?v = "core_and_memory_verdict cfg (usage rs cfg) p n m None 0"
  have ok: "\<not> exceeded ?v" using assms(1) by (simp add: admits_def)
  have lim: "1 \<le> guaranteed_limit cfg" by simp
  note nonneg = sized_charges [OF assms(2,3)]
  show "n \<le> fst (class_budget cfg p)" "n \<le> cf_total cfg"
    using ok nonneg lim gate_verdict [of cfg rs p n m None 0] non_gate_verdict [of cfg rs p n m None 0]
    by (cases "cf_gate_priority cfg \<le> p"; simp add: class_budget_def exceeded_def)+
  show "m \<le> snd (class_budget cfg p) \<and> m \<le> cf_total_mem_mb cfg" if "0 < cf_total_mem_mb cfg"
    using ok nonneg that mem_verdict [of cfg rs p n m None 0]
    by (cases "cf_gate_priority cfg \<le> p"; simp add: class_budget_def exceeded_def)
qed

lemma never_iff_no_admission:
  assumes "evaluate cfg rs n m p = Inr f" and "config_ok cfg"
  shows "(ft_verdict f = NeverFits) =
    (\<forall>rs'. list_all sized rs' \<longrightarrow> \<not> admits cfg rs' p n (ft_requested_mem_mb f))"
proof
  assume never: "ft_verdict f = NeverFits"
  show "\<forall>rs'. list_all sized rs' \<longrightarrow> \<not> admits cfg rs' p n (ft_requested_mem_mb f)"
    using never evaluate_verdict(2,3) [OF assms(1)] admits_within_budget [OF _ _ assms(2)]
    by (metis linorder_not_le)
next
  assume none: "\<forall>rs'. list_all sized rs' \<longrightarrow> \<not> admits cfg rs' p n (ft_requested_mem_mb f)"
  show "ft_verdict f = NeverFits"
  proof (rule ccontr)
    assume "ft_verdict f \<noteq> NeverFits"
    then have "cores_now cfg [] p n" "memory_now cfg [] p (req_mem_of cfg n m)"
      using evaluate_verdict(3) [OF assms(1)]
      by (auto simp: cores_now_def memory_now_def class_budget_def split: if_splits)
    then show False using none now_admits evaluate_verdict(2) [OF assms(1)] by fastforce
  qed
qed

text \<open>C9: the question answers like the admission. A lease reported to fit now is one \<open>acquire\<close>
  admits on the core and memory axes. Conversely an admitted size is reported to fit now, for every
  request below the gate priority, and for a gate request while no core is lent.\<close>

theorem fit_agrees_with_admission:
  assumes "evaluate cfg rs n m p = Inr f" and "config_ok cfg" and "list_all sized rs"
  shows "(ft_verdict f = FitsNow \<longrightarrow> admits cfg rs p n (ft_requested_mem_mb f))
    \<and> (p < cf_gate_priority cfg \<or> cu_lent_cores (us_classes (usage rs cfg)) = 0 \<longrightarrow>
        admits cfg rs p n (ft_requested_mem_mb f) \<longrightarrow> ft_verdict f = FitsNow)"
proof (intro conjI impI)
  assume "ft_verdict f = FitsNow"
  then show "admits cfg rs p n (ft_requested_mem_mb f)"
    using evaluate_verdict(2,4) [OF assms(1)] now_admits by simp
next
  assume "p < cf_gate_priority cfg \<or> cu_lent_cores (us_classes (usage rs cfg)) = 0"
    and adm: "admits cfg rs p n (ft_requested_mem_mb f)"
  then have "cores_now cfg rs p n \<and> memory_now cfg rs p (ft_requested_mem_mb f)"
    using admits_charges [of cfg p rs n "ft_requested_mem_mb f"] by fastforce
  moreover have "ft_verdict f \<noteq> NeverFits"
    using never_iff_no_admission [OF assms(1,2)] adm assms(3) by blast
  ultimately show "ft_verdict f = FitsNow" using evaluate_verdict(2,4) [OF assms(1)] by simp
qed

text \<open>never means never. A size is reported as one that can never fit exactly when no store at
  all, an empty one included, would admit it; so a lane that stops polling on that answer gives up
  nothing.\<close>

theorem never_fits_exactly:
  assumes "evaluate cfg rs n m p = Inr f" and "config_ok cfg"
  shows "(ft_verdict f = NeverFits) =
    (\<forall>rs'. list_all sized rs' \<longrightarrow> \<not> admits cfg rs' p n (ft_requested_mem_mb f))"
  by (rule never_iff_no_admission [OF assms])

subsection \<open>How many fit at once\<close>

lemma sum_over_replicate [simp]: "sum_over g (replicate k x) = int k * g x"
  by (induction k) (auto simp: algebra_simps)

lemma room_for_one_more:
  assumes "0 < (n::int)"
  shows "(int k * n + n \<le> b) = (int k < b div n)"
proof
  assume "int k * n + n \<le> b"
  then have "(int k + 1) * n div n \<le> b div n"
    using assms by (intro zdiv_mono1) (simp_all add: distrib_right)
  then show "int k < b div n" using assms by simp
next
  assume "int k < b div n"
  then have "(int k + 1) * n \<le> b div n * n" using assms by (intro mult_right_mono) auto
  also have "\<dots> \<le> b" using div_mult_mod_eq [of b n] pos_mod_sign [OF assms, of b] by linarith
  finally show "int k * n + n \<le> b" by (simp add: distrib_right)
qed

lemma identical_now:
  assumes "config_ok cfg" and "priority_of row = p" and "cores_of row = n"
    and "record_mem_mb row (cf_per_job_mem_mb cfg) = r" and "\<not> is_floor row" and "0 < n" and "0 < r"
  shows "cores_now cfg (replicate k row) p n = (int k < fst (class_budget cfg p) div n)"
    "memory_now cfg (replicate k row) p r
       = (0 < cf_total_mem_mb cfg \<longrightarrow> int k * r + r \<le> cf_total_mem_mb cfg
            \<and> int k * r + r \<le> snd (class_budget cfg p))"
proof -
  have lim: "guaranteed_limit cfg \<le> cf_total cfg" using assms(1) by (auto simp: config_ok_def)
  have "cores_now cfg (replicate k row) p n = (int k * n + n \<le> fst (class_budget cfg p))"
    using assms lim by (auto simp: cores_now_def class_budget_def charge_defs is_gate_record_def)
  then show "cores_now cfg (replicate k row) p n = (int k < fst (class_budget cfg p) div n)"
    using room_for_one_more [OF assms(6)] by simp
  show "memory_now cfg (replicate k row) p r
       = (0 < cf_total_mem_mb cfg \<longrightarrow> int k * r + r \<le> cf_total_mem_mb cfg
            \<and> int k * r + r \<le> snd (class_budget cfg p))"
    using assms by (auto simp: memory_now_def class_budget_def charge_defs is_gate_record_def)
qed

lemma class_memory_within_total:
  "config_ok cfg \<Longrightarrow> cf_per_job_mem_mb cfg \<le> cf_total_mem_mb cfg \<Longrightarrow> snd (class_budget cfg p) \<le> cf_total_mem_mb cfg"
  by (auto simp: class_budget_def config_ok_def)

text \<open>the number of leases that fit at once is exact. On a store that holds \<open>k\<close> leases of the
  asked size and class and nothing else, one more is admitted exactly while \<open>k\<close> is below
  \<open>max_concurrent\<close>.\<close>

theorem max_concurrent_exact:
  assumes "evaluate cfg rs n m p = Inr f" and "config_ok cfg" and "ft_verdict f \<noteq> NeverFits"
    and "priority_of row = p" and "cores_of row = n" and "0 < ft_requested_mem_mb f"
    and "record_mem_mb row (cf_per_job_mem_mb cfg) = ft_requested_mem_mb f" and "\<not> is_floor row"
    and "0 < cf_total_mem_mb cfg \<longrightarrow> cf_per_job_mem_mb cfg \<le> cf_total_mem_mb cfg"
  shows "admits cfg (replicate k row) p n (ft_requested_mem_mb f) = (int k < ft_max_concurrent f)"
proof -
  let ?r = "ft_requested_mem_mb f" and ?b = "class_budget cfg p"
  have n: "0 < n" by (rule evaluate_verdict(1) [OF assms(1)])
  have "cu_lent_cores (us_classes (usage (replicate k row) cfg)) = 0" if "cf_gate_priority cfg \<le> p"
    using that assms(4) by (simp add: usage_lent charge_defs is_gate_record_def)
  then have "admits cfg (replicate k row) p n ?r
      = (cores_now cfg (replicate k row) p n \<and> memory_now cfg (replicate k row) p ?r)"
    by (rule admits_charges)
  also have "\<dots> = (int k < fst ?b div n \<and> (0 < cf_total_mem_mb cfg \<longrightarrow> int k * ?r + ?r \<le> snd ?b))"
    unfolding identical_now [OF assms(2,4,5,7,8) n assms(6)]
    using class_memory_within_total [OF assms(2), of p] assms(9)
    by (cases "0 < cf_total_mem_mb cfg") auto
  also have "\<dots> = (int k < fst ?b div n \<and> (0 < cf_total_mem_mb cfg \<longrightarrow> int k < snd ?b div ?r))"
    using room_for_one_more [OF assms(6)] by simp
  also have "\<dots> = (int k < ft_max_concurrent f)"
    using evaluate_verdict(2) [OF assms(1)] evaluate_verdict(5) [OF assms(1,3)] assms(6)
    by auto
  finally show ?thesis .
qed

subsection \<open>The most favourable priority\<close>

lemma best_fit_rank:
  "best_fit cfg active a best raws = Inr (Some b) \<Longrightarrow>
     (\<forall>raw \<in> set raws. \<exists>f. evaluate_priority cfg active a raw = Inr f
        \<and> RANK (ft_verdict b) \<le> RANK (ft_verdict f))
     \<and> (\<forall>b'. best = Some b' \<longrightarrow> RANK (ft_verdict b) \<le> RANK (ft_verdict b'))
     \<and> (best = Some b \<or> (\<exists>raw \<in> set raws. evaluate_priority cfg active a raw = Inr b))"
proof (induction cfg active a best raws rule: best_fit.induct)
  case (2 cfg active a best raw raws)
  obtain f where f: "evaluate_priority cfg active a raw = Inr f"
    using "2.prems" by (auto split: sum.splits)
  show ?case
    using "2.IH" [OF f] "2.prems" f
    by (cases best) (auto simp: better_def split: if_splits)
qed auto

text \<open>one favourable priority is enough, and giving up takes all of them. The command exits with
  0 exactly when some priority of the lane fits now, and with 4, the code that stops the lane's
  polling, exactly when every one of them can never fit.\<close>

theorem fit_command_most_favourable:
  assumes "fit_run e a st = Inr (best, rc)" and "capacity_config (le_profile e) (fa_common a) = Inr cfg"
    and "fit_active e a st = Inr active" and "fa_priority a \<noteq> []"
  shows "(rc = 0) = (\<exists>raw \<in> set (fa_priority a). \<exists>f. evaluate_priority cfg active a raw = Inr f
           \<and> ft_verdict f = FitsNow)
    \<and> (rc = 4) = (\<forall>raw \<in> set (fa_priority a). \<exists>f. evaluate_priority cfg active a raw = Inr f
           \<and> ft_verdict f = NeverFits)"
proof -
  have run: "best_fit cfg active a None (fa_priority a) = Inr (Some best)"
    and rc: "rc = fit_rc (ft_verdict best)"
    using assms by (auto simp: fit_run_def split: sum.splits option.splits)
  note rank = best_fit_rank [OF run]
  have best: "\<exists>raw \<in> set (fa_priority a). evaluate_priority cfg active a raw = Inr best"
    using rank by simp
  have le: "RANK (ft_verdict best) \<le> RANK (ft_verdict f)"
    if "raw \<in> set (fa_priority a)" "evaluate_priority cfg active a raw = Inr f" for raw f
    using rank that by fastforce
  have defined: "\<exists>f. evaluate_priority cfg active a raw = Inr f" if "raw \<in> set (fa_priority a)" for raw
    using rank that by blast
  show ?thesis
  proof (cases "ft_verdict best")
    case FitsNow
    then show ?thesis using best rc by (force simp: fit_rc_def)
  next
    case NotNow
    then have "ft_verdict f \<noteq> FitsNow"
      if "raw \<in> set (fa_priority a)" "evaluate_priority cfg active a raw = Inr f" for raw f
      using le [OF that] by auto
    then show ?thesis using best rc NotNow by (force simp: fit_rc_def)
  next
    case NeverFits
    then have "ft_verdict f = NeverFits"
      if "raw \<in> set (fa_priority a)" "evaluate_priority cfg active a raw = Inr f" for raw f
      using le [OF that] by (cases "ft_verdict f") auto
    then show ?thesis using defined rc NeverFits assms(4) by (force simp: fit_rc_def)
  qed
qed

subsection \<open>At a concrete host\<close>

definition sample_question :: "string list \<Rightarrow> int \<Rightarrow> fit_args" where
  "sample_question priorities n =
     \<lparr>fa_common = sample_common, fa_cores = n, fa_mem_mb = Some 2048, fa_priority = priorities,
      fa_non_gate_cap = None, fa_no_live = False\<rparr>"

definition sample_held :: "int \<Rightarrow> pydict" where
  "sample_held n = [''id'' \<mapsto> PStr ''held'', ''lease_size_cores'' \<mapsto> PInt n,
     ''lease_size_mem_mb'' \<mapsto> PInt 2048, ''priority'' \<mapsto> PInt 60]"

lemma sample_evaluate:
  "\<exists>f. evaluate sample_config [sample_held 3] 3 (Some 2048) 60 = Inr f \<and> ft_verdict f = FitsNow
     \<and> ft_requested_mem_mb f = 2048 \<and> ft_max_concurrent f = 2"
  "\<exists>f. evaluate sample_config [] 7 (Some 2048) 60 = Inr f \<and> ft_verdict f = NeverFits
     \<and> ft_requested_mem_mb f = 2048"
  by (simp_all add: evaluate_def sample_config_def class_budget_def usage_def class_usage_def
      lending_active_def sample_held_def record_int_def record_mem_mb_def is_floor_def is_gate_record_def
      is_borrowed_def py_simps)

theorem fit_agrees_with_admission_witness: "admits sample_config [sample_held 3] 60 3 2048"
proof -
  obtain f where f: "evaluate sample_config [sample_held 3] 3 (Some 2048) 60 = Inr f" "ft_verdict f = FitsNow"
    "ft_requested_mem_mb f = 2048" using sample_evaluate(1) by blast
  have "list_all sized [sample_held 3]" by code_simp
  with fit_agrees_with_admission [OF f(1) sample_config_ok] f(2,3) show ?thesis by simp
qed

theorem never_fits_exactly_witness: "\<not> admits sample_config [sample_held 3] 60 7 2048"
proof -
  obtain f where f: "evaluate sample_config [] 7 (Some 2048) 60 = Inr f" "ft_verdict f = NeverFits"
    "ft_requested_mem_mb f = 2048" using sample_evaluate(2) by blast
  have "list_all sized [sample_held 3]" by code_simp
  with never_fits_exactly [OF f(1) sample_config_ok] f(2,3) show ?thesis by auto
qed

theorem max_concurrent_exact_witness:
  "admits sample_config (replicate 1 (sample_held 3)) 60 3 2048
   \<and> \<not> admits sample_config (replicate 2 (sample_held 3)) 60 3 2048"
proof -
  obtain f where f: "evaluate sample_config [sample_held 3] 3 (Some 2048) 60 = Inr f" "ft_verdict f = FitsNow"
    "ft_requested_mem_mb f = 2048" "ft_max_concurrent f = 2" using sample_evaluate(1) by blast
  have row: "priority_of (sample_held 3) = 60" "cores_of (sample_held 3) = 3" "\<not> is_floor (sample_held 3)"
    "record_mem_mb (sample_held 3) (cf_per_job_mem_mb sample_config) = 2048"
    "cf_per_job_mem_mb sample_config \<le> cf_total_mem_mb sample_config" by code_simp+
  show ?thesis
    using max_concurrent_exact [OF f(1) sample_config_ok _ row(1,2) _ _ row(3), of 1]
      max_concurrent_exact [OF f(1) sample_config_ok _ row(1,2) _ _ row(3), of 2] row(4,5) f(2-4)
    by simp
qed

theorem fit_command_most_favourable_witness:
  "\<exists>best. fit_run (sample_lease_env 0) (sample_question [''vm'', ''gate''] 7) new_store = Inr (best, 0)"
proof -
  let ?a = "sample_question [''vm'', ''gate''] 7"
  have "case fit_run (sample_lease_env 0) ?a new_store of Inr (best, rc) \<Rightarrow> True | Inl e \<Rightarrow> False" by code_simp
  then obtain best rc where run: "fit_run (sample_lease_env 0) ?a new_store = Inr (best, rc)"
    by (auto split: sum.splits)
  have cfg: "capacity_config (le_profile (sample_lease_env 0)) (fa_common ?a) = Inr sample_config"
    by (simp add: sample_lease_env_def sample_question_def sample_capacity_config)
  have active: "fit_active (sample_lease_env 0) ?a new_store = Inr []"
    by (simp add: fit_active_def sample_question_def new_store_def load_records_def)
  have "case evaluate_priority sample_config [] ?a ''gate'' of Inr f \<Rightarrow> ft_verdict f = FitsNow | Inl e \<Rightarrow> False"
    by code_simp
  then obtain f where "evaluate_priority sample_config [] ?a ''gate'' = Inr f" "ft_verdict f = FitsNow"
    by (auto split: sum.splits)
  moreover have "fa_priority ?a = [''vm'', ''gate'']" by (simp add: sample_question_def)
  ultimately have "rc = 0" using fit_command_most_favourable [OF run cfg active] by auto
  with run show ?thesis by blast
qed

text \<open>a gate that would be granted is told to wait. After an interactive build has borrowed ten
  of twelve cores, the question answers \<open>not now\<close> (exit 3) for a gate VM of six cores, and
  \<open>acquire\<close> grants that very lease in the same store: the question counts the lent cores that the
  admission does not.\<close>

theorem gate_told_to_wait_while_lending:
  "case fold store_step (take 1 sample_ops) new_store of st \<Rightarrow>
     fit_main_rc (sample_lease_env 2000000) (sample_question [''gate''] 6) st = 3
     \<and> (case acquire (sample_lease_env 2000000) (sample_request ''gate'' 6 ''gate'' None) st of
          (st', Inr (outcome, reaped, problems)) \<Rightarrow> acquire_rc outcome = 0
        | (st', Inl err) \<Rightarrow> False)"
  by code_simp

end
