(* ===== verification/DhcpBreaker.thy ===== *)
theory DhcpBreaker
  imports Clock
begin

section \<open>The VM DHCP breaker\<close>

text \<open>
  \<open>scripts/vm_dhcp_breaker.py\<close>: one breaker per host that stops every lane from
  cloning VMs while the host's DHCP server answers none of them. The breaker file
  is absent, corrupt, or holds the record that \<open>save\<close> writes; every command reads
  and rewrites it under an exclusive lock, so a command is one step. Times are
  integers of microseconds (\<open>iso\<close> of theory \<open>Clock\<close> renders them); the rounding of
  binary floating point in time differences is not modelled. What a command reads
  of the host (environment variables, the boot time, \<open>launchctl print\<close>, \<open>ifconfig\<close>,
  \<open>/etc/bootpd.plist\<close>) is the record \<open>dhcp_env\<close>.
\<close>

abbreviation SECOND :: int where
  "SECOND \<equiv> 1000000"

subsection \<open>State\<close>

datatype breaker_state = BreakerOpen | BreakerClosed | BreakerVerifying

record streak_row =
  sk_ts :: int
  sk_lane :: string
  sk_vm :: string

text \<open>A running outage; one that has ended carries how it closed.\<close>

record outage =
  og_opened_at :: int
  og_vms_spent :: int
  og_cause :: "string option"
  og_closed :: "(int \<times> int \<times> string) option"

record chain_obs =
  co_bootpd_loaded :: "bool option"
  co_bootpd_runs :: "int option"
  co_config_mtime :: "int option"
  co_sharing_pid :: "int option"
  co_pfd_state :: "string option"
  co_pfd_last_exit :: "string option"

record breaker =
  bk_state :: breaker_state
  bk_streak :: "streak_row list"
  bk_boot_time :: "int option"
  bk_hourly :: "(string \<times> int \<times> int) list"
  bk_outages :: "outage list"
  bk_outage :: "outage option"
  bk_last_ip_at :: "int option"
  bk_opened_at :: "int option"
  bk_vms_spent :: int
  bk_probes :: int
  bk_last_probe_at :: "int option"
  bk_chain :: "chain_obs option"
  bk_bootpd_runs :: "int option"
  bk_bootpd_moved_at :: "int option"
  bk_probe_requested_at :: "int option"
  bk_probe_lane :: "string option"
  bk_probe_started_at :: "int option"
  bk_probe_prev_probes :: int
  bk_probe_prev_last_probe_at :: "int option"
  bk_cause :: "string option"
  bk_cause_at :: "int option"
  bk_failed_probes :: int
  bk_consecutive_unreported :: int
  bk_alert_now :: bool
  bk_verify_reason :: "string option"
  bk_verifying_since :: "int option"
  bk_previous_cause :: "string option"

text \<open>A breaker with nothing but its state and streak, which the others read as missing.\<close>

definition bare_breaker :: "breaker_state \<Rightarrow> breaker" where
  "bare_breaker s =
     \<lparr>bk_state = s, bk_streak = [], bk_boot_time = None, bk_hourly = [], bk_outages = [],
      bk_outage = None, bk_last_ip_at = None, bk_opened_at = None, bk_vms_spent = 0, bk_probes = 0,
      bk_last_probe_at = None, bk_chain = None, bk_bootpd_runs = None, bk_bootpd_moved_at = None,
      bk_probe_requested_at = None, bk_probe_lane = None, bk_probe_started_at = None,
      bk_probe_prev_probes = 0, bk_probe_prev_last_probe_at = None, bk_cause = None,
      bk_cause_at = None, bk_failed_probes = 0, bk_consecutive_unreported = 0, bk_alert_now = False,
      bk_verify_reason = None, bk_verifying_since = None, bk_previous_cause = None\<rparr>"

datatype breaker_file = BreakerAbsent | BreakerCorrupt | BreakerStored breaker

definition load_breaker :: "breaker_file \<Rightarrow> breaker" where
  "load_breaker f = (case f of BreakerStored b \<Rightarrow> b | _ \<Rightarrow> bare_breaker BreakerClosed)"

subsection \<open>What the host shows\<close>

text \<open>The answer of a subprocess: it could not run, or its exit code, the lines of its output and
  its error text.\<close>

datatype proc_answer = ProcFailed | ProcExit int "string list" string

record job_obs =
  jo_loaded :: "bool option"
  jo_state :: "string option"
  jo_runs :: "int option"
  jo_last_exit :: "string option"

definition no_job_obs :: job_obs where
  "no_job_obs = \<lparr>jo_loaded = None, jo_state = None, jo_runs = None, jo_last_exit = None\<rparr>"

record net_obs =
  no_bridges :: "string list"
  no_vmenet :: int

record config_obs =
  cg_present :: bool
  cg_mtime :: "int option"
  cg_dhcp_enabled :: "string list"

record dhcp_env =
  de_now :: int
  de_getenv :: "string \<Rightarrow> string option"
  de_boot_time :: "int option"
  de_bootpd :: proc_answer
  de_sharing :: proc_answer
  de_pfd :: proc_answer
  de_ifconfig :: proc_answer
  de_config :: "config_obs option"

definition setting :: "dhcp_env \<Rightarrow> string \<Rightarrow> int \<Rightarrow> int" where
  "setting e name dflt = (case de_getenv e name of
     None \<Rightarrow> dflt
   | Some raw \<Rightarrow> (case int_of_string raw of None \<Rightarrow> dflt | Some n \<Rightarrow> if n > 0 then n else dflt))"

text \<open>\<open>line.partition(" = ")\<close>: key and value, or nothing without the separator.\<close>

fun partition_eq :: "string \<Rightarrow> string \<Rightarrow> (string \<times> string) option" where
  "partition_eq acc [] = None"
| "partition_eq acc (c # cs) =
     (if startswith (c # cs) '' = '' then Some (rev acc, drop 3 (c # cs)) else partition_eq (c # acc) cs)"

definition job_line :: "job_obs \<Rightarrow> string \<Rightarrow> job_obs" where
  "job_line obs line = (case partition_eq [] (strip line) of
     None \<Rightarrow> obs
   | Some (key, v) \<Rightarrow>
       if key = ''state'' \<and> jo_state obs = None then obs\<lparr>jo_state := Some (strip v)\<rparr>
       else if key = ''runs'' then
         (case int_of_string (strip v) of Some n \<Rightarrow> obs\<lparr>jo_runs := Some n\<rparr> | None \<Rightarrow> obs)
       else if key = ''last exit code'' then obs\<lparr>jo_last_exit := Some (strip v)\<rparr>
       else obs)"

definition LAUNCHCTL_NOT_FOUND :: int where
  "LAUNCHCTL_NOT_FOUND = 113"

definition bootpd_readout :: "dhcp_env \<Rightarrow> job_obs" where
  "bootpd_readout e = (case de_bootpd e of
     ProcFailed \<Rightarrow> no_job_obs
   | ProcExit rc out err \<Rightarrow>
       if rc \<noteq> 0 then
         (if rc = LAUNCHCTL_NOT_FOUND \<or> list_ex (contains ''Could not find service'') (out @ [err])
          then no_job_obs\<lparr>jo_loaded := Some False, jo_state := Some ''not_loaded''\<rparr> else no_job_obs)
       else foldl job_line (no_job_obs\<lparr>jo_loaded := Some True\<rparr>) out)"

definition pfd_readout :: "dhcp_env \<Rightarrow> job_obs" where
  "pfd_readout e = (case de_pfd e of
     ProcFailed \<Rightarrow> no_job_obs
   | ProcExit rc out err \<Rightarrow> if rc \<noteq> 0 then no_job_obs else foldl job_line no_job_obs out)"

fun pid_line :: "string list \<Rightarrow> int option" where
  "pid_line [] = None"
| "pid_line (line # lines) = (case partition_eq [] (strip line) of
     Some (key, v) \<Rightarrow> if key = ''pid'' then int_of_string (strip v) else pid_line lines
   | None \<Rightarrow> pid_line lines)"

definition sharing_pid :: "dhcp_env \<Rightarrow> int option" where
  "sharing_pid e = (case de_sharing e of
     ProcFailed \<Rightarrow> None | ProcExit rc out err \<Rightarrow> if rc = 0 then pid_line out else None)"

text \<open>\<open>re.fullmatch(r"bridge1\\d\\d", name)\<close>.\<close>

definition is_vm_bridge :: "string \<Rightarrow> bool" where
  "is_vm_bridge name =
     (length name = 9 \<and> startswith name ''bridge1'' \<and> list_all is_digit (drop 7 name))"

definition vm_network_readout :: "dhcp_env \<Rightarrow> net_obs option" where
  "vm_network_readout e = (case de_ifconfig e of
     ProcFailed \<Rightarrow> None
   | ProcExit rc out err \<Rightarrow>
       if rc \<noteq> 0 then None
       else let names = concat (map split_ws out) in
         Some \<lparr>no_bridges = sort (filter is_vm_bridge names),
               no_vmenet = int (length (filter (\<lambda>n. startswith n ''vmenet'') names))\<rparr>)"

definition pfd_crash_looping :: "job_obs \<Rightarrow> bool result" where
  "pfd_crash_looping pfd =
     (let last_exit = (case jo_last_exit pfd of Some s \<Rightarrow> s | None \<Rightarrow> []) in
      if pfd = no_job_obs \<or> jo_state pfd = Some ''running''
         \<or> \<not> isdigit (dropWhile (\<lambda>c. c = CHR ''-'') last_exit) then Inr False
      else (case int_of_string last_exit of
          Some n \<Rightarrow> Inr (n \<noteq> 0) | None \<Rightarrow> Inl (ValueError ''invalid literal for int()'')))"

definition diagnose :: "net_obs option \<Rightarrow> job_obs \<Rightarrow> config_obs option \<Rightarrow> job_obs \<Rightarrow> string result" where
  "diagnose net bootpd config pfd = (case net of
     None \<Rightarrow> Inr ''unknown''
   | Some n \<Rightarrow>
       if no_bridges n = [] then
         (case pfd_crash_looping pfd of
            Inl err \<Rightarrow> Inl err
          | Inr looping \<Rightarrow> Inr (if looping then ''pfd_crash_loop'' else ''vm_network_missing''))
       else if jo_loaded bootpd = Some False then Inr ''bootpd_not_loaded''
       else (case config of
           None \<Rightarrow> Inr ''dhcp_silent''
         | Some c \<Rightarrow> Inr (if \<not> cg_present c \<or> \<not> list_ex (\<lambda>b. b \<in> set (cg_dhcp_enabled c)) (no_bridges n)
             then ''dhcp_config_disabled'' else ''dhcp_silent'')))"

definition chain :: "dhcp_env \<Rightarrow> chain_obs" where
  "chain e =
     \<lparr>co_bootpd_loaded = jo_loaded (bootpd_readout e), co_bootpd_runs = jo_runs (bootpd_readout e),
      co_config_mtime = (case de_config e of Some c \<Rightarrow> cg_mtime c | None \<Rightarrow> None),
      co_sharing_pid = sharing_pid e, co_pfd_state = jo_state (pfd_readout e),
      co_pfd_last_exit = jo_last_exit (pfd_readout e)\<rparr>"

subsection \<open>Events\<close>

type_synonym event = "string \<times> string"

definition fmt :: "(string \<times> pyval) list \<Rightarrow> string" where
  "fmt kvs = join '' '' (map (\<lambda>(k, v). k @ ''='' @ py_str v)
     (filter (\<lambda>(k, v). v \<noteq> PNone \<and> v \<noteq> PStr []) kvs))"

definition opt_str :: "string option \<Rightarrow> pyval" where
  "opt_str s = (case s of None \<Rightarrow> PNone | Some t \<Rightarrow> PStr t)"

definition opt_num :: "int option \<Rightarrow> pyval" where
  "opt_num n = (case n of None \<Rightarrow> PNone | Some i \<Rightarrow> PInt i)"

text \<open>\<open>int(seconds)\<close>, towards zero, of a difference of times.\<close>

definition whole_secs :: "int \<Rightarrow> int" where
  "whole_secs d = (if d \<ge> 0 then d div SECOND else - (- d div SECOND))"

text \<open>\<open>float(value.get(key) or default)\<close>.\<close>

definition time_or :: "int option \<Rightarrow> int \<Rightarrow> int" where
  "time_or t dflt = (case t of Some i \<Rightarrow> if i \<noteq> 0 then i else dflt | None \<Rightarrow> dflt)"

subsection \<open>Transitions\<close>

definition K :: int where
  "K = 2"

definition WINDOW_S :: int where
  "WINDOW_S = 15 * 60"

definition PROBE_SECS :: int where
  "PROBE_SECS = 300"

definition HOURLY_KEEP_SECS :: int where
  "HOURLY_KEEP_SECS = 14 * 86400"

definition OUTAGES_KEEP :: nat where
  "OUTAGES_KEEP = 50"

definition VERIFY_REPORT_SECS :: int where
  "VERIFY_REPORT_SECS = 960"

definition MAX_STREAK :: nat where
  "MAX_STREAK = 50"

text \<open>\<open>xs[-n:]\<close>.\<close>

definition last_n :: "nat \<Rightarrow> 'a list \<Rightarrow> 'a list" where
  "last_n n xs = drop (length xs - n) xs"

definition carried :: "breaker_state \<Rightarrow> breaker \<Rightarrow> breaker" where
  "carried s b = (bare_breaker s)\<lparr>bk_boot_time := bk_boot_time b, bk_hourly := bk_hourly b,
     bk_outages := bk_outages b, bk_outage := bk_outage b\<rparr>"

definition hour_of :: "int \<Rightarrow> string" where
  "hour_of t = take 13 (iso t)"

definition count_boot :: "bool \<Rightarrow> int \<Rightarrow> breaker \<Rightarrow> breaker" where
  "count_boot got_ip now b =
     (let hour = hour_of now;
          cutoff = hour_of (now - HOURLY_KEEP_SECS * SECOND);
          hourly = filter (\<lambda>(h, c). h > cutoff) (bk_hourly b);
          bump = (\<lambda>(ip, no_ip). if got_ip then (ip + 1, no_ip) else (ip, no_ip + 1 :: int));
          counted = (case map_of hourly hour of
             None \<Rightarrow> hourly @ [(hour, bump (0, 0))]
           | Some c \<Rightarrow> map (\<lambda>(h, c). (h, if h = hour then bump c else c)) hourly)
      in b\<lparr>bk_hourly := counted\<rparr>)"

definition outage_so_far :: "breaker \<Rightarrow> int \<Rightarrow> outage" where
  "outage_so_far b now =
     (let own = time_or (bk_opened_at b) now in
      case bk_outage b of
        None \<Rightarrow> \<lparr>og_opened_at = own, og_vms_spent = bk_vms_spent b, og_cause = bk_cause b, og_closed = None\<rparr>
      | Some o1 \<Rightarrow> \<lparr>og_opened_at = (if og_opened_at o1 \<noteq> 0 then og_opened_at o1 else own),
          og_vms_spent = og_vms_spent o1 + bk_vms_spent b,
          og_cause = (case bk_cause b of Some c \<Rightarrow> if c \<noteq> [] then Some c else og_cause o1 | None \<Rightarrow> og_cause o1),
          og_closed = None\<rparr>)"

definition end_outage :: "int \<Rightarrow> string \<Rightarrow> breaker \<Rightarrow> breaker" where
  "end_outage now closed_by b =
     (let o1 = outage_so_far b now;
          ended = o1\<lparr>og_closed := Some (now, whole_secs (now - og_opened_at o1), closed_by)\<rparr>
      in b\<lparr>bk_outages := last_n OUTAGES_KEEP (bk_outages b @ [ended]), bk_outage := None\<rparr>)"

definition close_breaker :: "int \<Rightarrow> string \<Rightarrow> breaker \<Rightarrow> breaker \<times> event list" where
  "close_breaker now reason b =
     (let opened = time_or (bk_opened_at b) now;
          possible = max (time_or (bk_last_probe_at b) opened) (time_or (bk_bootpd_moved_at b) 0);
          event = (''vm_dhcp_recovered'', fmt [(''reason'', PStr reason),
            (''open_s'', PInt (whole_secs (now - opened))), (''vms_spent'', PInt (bk_vms_spent b)),
            (''probes'', PInt (bk_probes b)),
            (''latency_s'', if reason \<noteq> ''host_reboot'' then PInt (whole_secs (now - possible)) else PNone)])
      in ((carried BreakerClosed (end_outage now reason b))\<lparr>bk_last_ip_at := Some now\<rparr>, [event]))"

definition enter_verifying :: "int \<Rightarrow> string \<Rightarrow> int option \<Rightarrow> breaker \<Rightarrow> breaker \<times> event list" where
  "enter_verifying now reason booted b =
     (let previous = (if bk_state b = BreakerOpen then bk_cause b else None);
          b1 = (if bk_state b = BreakerOpen then b\<lparr>bk_outage := Some (outage_so_far b now)\<rparr> else b)
      in ((carried BreakerVerifying b1)\<lparr>bk_verify_reason := Some reason, bk_verifying_since := Some now,
            bk_boot_time := booted, bk_previous_cause := previous\<rparr>,
          [(''vm_dhcp_verifying'', fmt [(''reason'', PStr reason), (''previous_cause'', opt_str previous)])]))"

definition verified :: "int \<Rightarrow> string \<Rightarrow> bool \<Rightarrow> breaker \<Rightarrow> breaker \<times> event" where
  "verified now lane late b =
     (let event = (''vm_dhcp_verified'', fmt [(''reason'', opt_str (bk_verify_reason b)),
            (''lane'', PStr lane), (''late'', if late then PStr ''true'' else PNone),
            (''latency_s'', PInt (whole_secs (now - time_or (bk_verifying_since b) now)))]);
          b1 = (if late \<or> bk_outage b \<noteq> None
            then end_outage now (if late then ''late'' else ''verified'') b else b)
      in ((carried BreakerClosed b1)\<lparr>bk_last_ip_at := Some now\<rparr>, event))"

definition open_breaker ::
  "dhcp_env \<Rightarrow> streak_row list \<Rightarrow> string \<Rightarrow> (string \<times> pyval) list \<Rightarrow> breaker \<Rightarrow> breaker \<times> event" where
  "open_breaker e streak cause extra b =
     (let now = de_now e; readout = bootpd_readout e;
          first = (case streak of r # rs \<Rightarrow> sk_ts r | [] \<Rightarrow> now)
      in (b\<lparr>bk_state := BreakerOpen, bk_opened_at := Some now, bk_vms_spent := int (length streak),
            bk_probes := 0, bk_last_probe_at := Some now, bk_chain := Some (chain e),
            bk_bootpd_runs := jo_runs readout, bk_bootpd_moved_at := None,
            bk_probe_requested_at := None, bk_probe_lane := None, bk_streak := streak,
            bk_cause := Some cause, bk_failed_probes := 0,
            bk_consecutive_unreported := (if cause = ''probe_unreported'' then 1 else 0),
            bk_alert_now := (map_of extra ''alert'' = Some (PStr ''now''))\<rparr>,
          (''vm_dhcp_unanswered'', fmt ([(''streak'', PInt (int (length streak))),
             (''window_s'', PInt (whole_secs (now - first))),
             (''lanes'', PStr (join '','' (sort (remdups (map sk_lane streak))))),
             (''last_no_ip'', PStr (join '','' (map (\<lambda>r. iso (sk_ts r)) streak))),
             (''bootpd_state'', case jo_state readout of Some s \<Rightarrow> PStr s | None \<Rightarrow> PStr ''unreadable''),
             (''bootpd_runs'', opt_num (jo_runs readout)),
             (''bootpd_last_exit'', opt_str (jo_last_exit readout)),
             (''cause'', PStr cause)] @ extra))))"

subsection \<open>The commands\<close>

datatype check_action = Clone | Probe | Backoff

record check_answer =
  ck_action :: check_action
  ck_breaker_open :: bool
  ck_events :: "event list"

definition probing :: "breaker \<Rightarrow> bool" where
  "probing b = (case bk_probe_lane b of Some l \<Rightarrow> l \<noteq> [] | None \<Rightarrow> False)"

definition verifying_check :: "dhcp_env \<Rightarrow> string \<Rightarrow> breaker \<Rightarrow> breaker \<times> check_action \<times> event list" where
  "verifying_check e lane b =
     (let now = de_now e; bound = setting e ''TARTCI_VM_DHCP_VERIFY_SECS'' VERIFY_REPORT_SECS;
          grant = (b\<lparr>bk_probe_lane := Some lane, bk_probe_started_at := Some now\<rparr>, Probe,
            [(''vm_dhcp_probe_start'', fmt [(''lane'', PStr lane), (''trigger'', PStr ''post_boot''),
               (''reason'', opt_str (bk_verify_reason b))])])
      in if \<not> probing b then grant
         else (case bk_probe_started_at b of
             None \<Rightarrow> grant
           | Some started \<Rightarrow>
               if now - started < bound * SECOND then (b, Backoff, [])
               else let (b', event) = open_breaker e [] ''probe_unreported''
                      [(''trigger'', PStr ''post_boot''), (''lane'', opt_str (bk_probe_lane b))] b
                    in (b', Backoff, [event])))"

definition rebooted :: "dhcp_env \<Rightarrow> breaker \<Rightarrow> bool" where
  "rebooted e b = (case de_boot_time e of
     None \<Rightarrow> False
   | Some booted \<Rightarrow> (case bk_boot_time b of None \<Rightarrow> True | Some recorded \<Rightarrow> \<bar>recorded - booted\<bar> > SECOND))"

text \<open>The open breaker's answer: back off, or grant the one probe that is due.\<close>

definition last_look :: "breaker \<Rightarrow> int option" where
  "last_look b = (case bk_last_probe_at b of None \<Rightarrow> bk_opened_at b | Some t \<Rightarrow> Some t)"

definition probe_due :: "dhcp_env \<Rightarrow> breaker \<Rightarrow> bool" where
  "probe_due e b = (de_now e - (case last_look b of None \<Rightarrow> de_now e | Some t \<Rightarrow> t)
     \<ge> setting e ''TARTCI_VM_DHCP_PROBE_SECS'' PROBE_SECS * SECOND)"

definition chain_moved :: "dhcp_env \<Rightarrow> breaker \<Rightarrow> bool" where
  "chain_moved e b = (case bk_chain b of None \<Rightarrow> False | Some seen \<Rightarrow> chain e \<noteq> seen)"

definition probe_asked :: "breaker \<Rightarrow> bool" where
  "probe_asked b = (case bk_probe_requested_at b of
     None \<Rightarrow> False | Some requested \<Rightarrow> requested > (case last_look b of Some t \<Rightarrow> t | None \<Rightarrow> 0))"

definition open_check :: "dhcp_env \<Rightarrow> string \<Rightarrow> breaker \<Rightarrow> breaker \<times> check_action \<times> event list" where
  "open_check e lane b =
     (let now = de_now e; due = probe_due e b; moved = chain_moved e b; asked = probe_asked b;
          b1 = b\<lparr>bk_chain := Some (chain e),
            bk_bootpd_moved_at := (if moved then Some now else bk_bootpd_moved_at b)\<rparr>
      in if \<not> (due \<or> moved \<or> asked) then (b1, Backoff, [])
         else (b1\<lparr>bk_consecutive_unreported := bk_consecutive_unreported b + (if probing b then 1 else 0),
                bk_probe_prev_probes := bk_probes b, bk_probe_prev_last_probe_at := bk_last_probe_at b,
                bk_last_probe_at := Some now, bk_probe_lane := Some lane, bk_probes := bk_probes b + 1\<rparr>,
               Probe,
               [(''vm_dhcp_probe_start'', fmt [(''lane'', PStr lane),
                  (''trigger'', PStr (if asked then ''operator'' else if moved then ''chain_changed'' else ''cadence'')),
                  (''probe'', PInt (bk_probes b + 1))])]))"

definition check :: "dhcp_env \<Rightarrow> string \<Rightarrow> breaker_file \<Rightarrow> breaker_file \<times> check_answer" where
  "check e lane f =
     (if f = BreakerCorrupt
      then (f, \<lparr>ck_action = Clone, ck_breaker_open = False, ck_events = []\<rparr>)
      else
      let b = load_breaker f;
          (b1, events) = (if rebooted e b
            then enter_verifying (de_now e) (if bk_boot_time b = None then ''first_run'' else ''host_reboot'')
              (de_boot_time e) b
            else (b, []))
      in case bk_state b1 of
           BreakerVerifying \<Rightarrow>
             (let (b2, action, more_events) = verifying_check e lane b1
              in (BreakerStored b2,
                  \<lparr>ck_action = action, ck_breaker_open = False, ck_events = events @ more_events\<rparr>))
         | BreakerClosed \<Rightarrow>
             (if events = [] then f else BreakerStored b1,
              \<lparr>ck_action = Clone, ck_breaker_open = False, ck_events = events\<rparr>)
         | BreakerOpen \<Rightarrow>
             (let (b2, action, more_events) = open_check e lane b1
              in (if action = Backoff \<and> bk_chain b1 \<noteq> None then f else BreakerStored b2,
                  \<lparr>ck_action = action, ck_breaker_open = True, ck_events = events @ more_events\<rparr>)))"

datatype command_action = Noop | Cancelled | Recorded | Unreadable | Verifying | AlreadyClosed | Requested

definition cancel :: "string \<Rightarrow> string \<Rightarrow> breaker_file \<Rightarrow> breaker_file \<times> command_action \<times> event list" where
  "cancel lane reason f =
     (let b = load_breaker f in
      if bk_probe_lane b \<noteq> Some lane \<or> bk_state b = BreakerClosed then (f, Noop, [])
      else let b1 = (if bk_state b = BreakerOpen
             then b\<lparr>bk_probes := bk_probe_prev_probes b, bk_last_probe_at := bk_probe_prev_last_probe_at b\<rparr>
             else b)
           in (BreakerStored (b1\<lparr>bk_probe_lane := None, bk_probe_started_at := None,
                  bk_probe_prev_probes := 0, bk_probe_prev_last_probe_at := None\<rparr>), Cancelled,
               [(''vm_dhcp_probe_cancelled'', fmt [(''lane'', PStr lane), (''reason'', PStr reason)])]))"

text \<open>\<open>record\<close>, as the command names it, with the outcome of one boot. An error of \<open>diagnose\<close> leaves
  the file as it was.\<close>

definition recent_streak :: "dhcp_env \<Rightarrow> breaker \<Rightarrow> streak_row list" where
  "recent_streak e b = filter (\<lambda>r. de_now e - sk_ts r
     \<le> setting e ''TARTCI_VM_DHCP_WINDOW_SECS'' WINDOW_S * SECOND) (bk_streak b)"

definition record_no_ip ::
  "dhcp_env \<Rightarrow> string \<Rightarrow> string \<Rightarrow> bool \<Rightarrow> string \<Rightarrow> breaker \<Rightarrow> breaker \<times> event list" where
  "record_no_ip e lane vm probe cause b =
     (let now = de_now e; row = \<lparr>sk_ts = now, sk_lane = lane, sk_vm = vm\<rparr>;
          b1 = b\<lparr>bk_cause := Some cause, bk_cause_at := Some now\<rparr>
      in case bk_state b1 of
           BreakerVerifying \<Rightarrow>
             (let (b2, event) = open_breaker e [row] cause
                  [(''trigger'', PStr ''post_boot''), (''alert'', PStr ''now'')] b1
              in (b2, [event]))
         | BreakerOpen \<Rightarrow>
             (b1\<lparr>bk_vms_spent := bk_vms_spent b1 + 1,
                 bk_failed_probes := bk_failed_probes b1 + (if probe then 1 else 0)\<rparr>, [])
         | BreakerClosed \<Rightarrow>
             (let streak = recent_streak e b1 @ [row];
                  b2 = b1\<lparr>bk_streak := last_n MAX_STREAK streak\<rparr>
              in if int (length streak) \<ge> setting e ''TARTCI_VM_DHCP_K'' K
                 then (let (b3, event) = open_breaker e (bk_streak b2) cause [] b2 in (b3, [event]))
                 else (b2, [])))"

definition record_ip :: "dhcp_env \<Rightarrow> string \<Rightarrow> bool \<Rightarrow> breaker \<Rightarrow> breaker \<times> event list" where
  "record_ip e lane probe b =
     (let now = de_now e in case bk_state b of
        BreakerVerifying \<Rightarrow> (let (b1, event) = verified now lane False b in (b1, [event]))
      | BreakerOpen \<Rightarrow>
          if bk_cause b = Some ''probe_unreported''
          then (let (b1, event) = verified now lane True b in (b1, [event]))
          else close_breaker now (if probe then ''probe'' else ''boot_ok'') b
      | BreakerClosed \<Rightarrow> (b\<lparr>bk_streak := [], bk_last_ip_at := Some now\<rparr>, []))"

definition record_boot ::
  "dhcp_env \<Rightarrow> bool \<Rightarrow> string \<Rightarrow> string \<Rightarrow> breaker_file \<Rightarrow> breaker_file \<times> (command_action \<times> event list) result" where
  "record_boot e got_ip lane vm f =
     (let b = count_boot got_ip (de_now e) (load_breaker f);
          probe = (bk_state b \<noteq> BreakerClosed \<and> bk_probe_lane b = Some lane);
          b1 = (if probe then b\<lparr>bk_probe_lane := None, bk_consecutive_unreported := 0,
                  bk_probe_prev_probes := 0, bk_probe_prev_last_probe_at := None\<rparr> else b);
          probe_event = (\<lambda>suffix. if probe then [(''vm_dhcp_probe'', fmt [(''lane'', PStr lane), (''vm'', PStr vm),
             (''result'', PStr (if got_ip then ''ip'' else ''no_ip''))] @ suffix)] else [])
      in if got_ip then
           (let (b2, events) = record_ip e lane probe b1
            in (BreakerStored b2, Inr (Recorded, probe_event [] @ events)))
         else (case diagnose (vm_network_readout e) (bootpd_readout e) (de_config e) (pfd_readout e) of
             Inl err \<Rightarrow> (f, Inl err)
           | Inr cause \<Rightarrow>
               (let (b2, events) = record_no_ip e lane vm probe cause b1
                in (BreakerStored b2, Inr (Recorded, probe_event ('' cause='' @ cause) @ events)))))"

definition verify :: "dhcp_env \<Rightarrow> string \<Rightarrow> breaker_file \<Rightarrow> breaker_file \<times> command_action \<times> event list" where
  "verify e reason f =
     (if f = BreakerCorrupt then (f, Unreadable, [])
      else let (b, events) = enter_verifying (de_now e) reason (de_boot_time e) (load_breaker f)
           in (BreakerStored b, Verifying, events))"

definition probe_now :: "dhcp_env \<Rightarrow> breaker_file \<Rightarrow> breaker_file \<times> command_action \<times> event list" where
  "probe_now e f =
     (let b = load_breaker f in
      if bk_state b \<noteq> BreakerOpen then (f, AlreadyClosed, [])
      else (BreakerStored (b\<lparr>bk_probe_requested_at := Some (de_now e)\<rparr>), Requested,
            [(''vm_dhcp_probe_requested'', fmt [(''open_s'',
                PInt (whole_secs (de_now e - time_or (bk_opened_at b) (de_now e)))),
              (''cause'', opt_str (bk_cause b))])]))"

definition alert_due :: "breaker \<Rightarrow> int \<Rightarrow> int \<Rightarrow> bool \<times> string" where
  "alert_due b now probe_secs =
     (if bk_state b \<noteq> BreakerOpen then (False, [])
      else if bk_alert_now b then (True, ''a post-boot probe got no address'')
      else if bk_consecutive_unreported b \<ge> 2 then (True, ''two consecutive probes never reported'')
      else if bk_cause b = Some ''probe_unreported'' then (False, [])
      else if now - time_or (bk_opened_at b) now < probe_secs * SECOND then (False, [])
      else if bk_failed_probes b \<ge> 1 then (True, ''a probe got no address'')
      else if bk_probes b = 0 \<and> \<not> probing b then (True, ''no lane has probed since it opened'')
      else (False, []))"

subsection \<open>Every command as a step\<close>

datatype dhcp_op =
    OpCheck dhcp_env string
  | OpCancel string string
  | OpRecord dhcp_env bool string string
  | OpVerify dhcp_env string
  | OpProbeNow dhcp_env

fun dhcp_step :: "dhcp_op \<Rightarrow> breaker_file \<Rightarrow> breaker_file" where
  "dhcp_step (OpCheck e lane) f = fst (check e lane f)"
| "dhcp_step (OpCancel lane reason) f = fst (cancel lane reason f)"
| "dhcp_step (OpRecord e got_ip lane vm) f = fst (record_boot e got_ip lane vm f)"
| "dhcp_step (OpVerify e reason) f = fst (verify e reason f)"
| "dhcp_step (OpProbeNow e) f = fst (probe_now e f)"

fun reports_address :: "dhcp_op \<Rightarrow> bool" where
  "reports_address (OpRecord e got_ip lane vm) = got_ip"
| "reports_address op = False"

text \<open>A breaker that holds the lanes back: open or verifying.\<close>

definition guarded :: "breaker_file \<Rightarrow> bool" where
  "guarded f = (case f of BreakerStored b \<Rightarrow> bk_state b \<noteq> BreakerClosed | _ \<Rightarrow> False)"

lemma guarded_Stored [simp]: "guarded (BreakerStored b) = (bk_state b \<noteq> BreakerClosed)"
  by (simp add: guarded_def)

lemma guardedE:
  assumes "guarded f"
  obtains b where "f = BreakerStored b" "bk_state b \<noteq> BreakerClosed"
  using assms by (cases f) (auto simp: guarded_def)

lemma bare_state [simp]: "bk_state (bare_breaker s) = s" "bk_streak (bare_breaker s) = []"
    "bk_probe_lane (bare_breaker s) = None" "bk_outage (bare_breaker s) = None"
  by (simp_all add: bare_breaker_def)

lemma carried_simps [simp]: "bk_state (carried s b) = s" "bk_streak (carried s b) = []"
    "bk_probe_lane (carried s b) = None" "bk_boot_time (carried s b) = bk_boot_time b"
    "bk_outage (carried s b) = bk_outage b"
  by (simp_all add: carried_def)

lemma enter_verifying_state [simp]: "bk_state (fst (enter_verifying now reason booted b)) = BreakerVerifying"
  by (simp add: enter_verifying_def Let_def)

lemma open_breaker_state [simp]: "bk_state (fst (open_breaker e streak cause extra b)) = BreakerOpen"
  by (simp add: open_breaker_def Let_def)

lemma count_boot_simps [simp]:
  "bk_state (count_boot ip now b) = bk_state b" "bk_probe_lane (count_boot ip now b) = bk_probe_lane b"
  "bk_streak (count_boot ip now b) = bk_streak b" "bk_boot_time (count_boot ip now b) = bk_boot_time b"
  by (simp_all add: count_boot_def Let_def)

lemma verifying_check_guarded:
  assumes "bk_state b = BreakerVerifying"
  shows "bk_state (fst (verifying_check e lane b)) \<noteq> BreakerClosed"
    "fst (snd (verifying_check e lane b)) \<noteq> Clone"
  using assms by (simp_all add: verifying_check_def Let_def case_prod_beta split: option.split)

lemma open_check_guarded:
  assumes "bk_state b = BreakerOpen"
  shows "bk_state (fst (open_check e lane b)) = BreakerOpen" "fst (snd (open_check e lane b)) \<noteq> Clone"
  using assms by (auto simp: open_check_def Let_def)

lemma check_guarded:
  assumes "guarded f"
  shows "guarded (fst (check e lane f))" "ck_action (snd (check e lane f)) \<noteq> Clone"
proof -
  obtain b where f: "f = BreakerStored b" "bk_state b \<noteq> BreakerClosed" using assms by (rule guardedE)
  define v where "v = (if rebooted e b
    then enter_verifying (de_now e) (if bk_boot_time b = None then ''first_run'' else ''host_reboot'')
      (de_boot_time e) b else (b, []))"
  have v: "bk_state (fst v) \<noteq> BreakerClosed" using f(2) by (simp add: v_def)
  have "guarded (fst (check e lane f)) \<and> ck_action (snd (check e lane f)) \<noteq> Clone"
    unfolding check_def Let_def f(1) load_breaker_def breaker_file.case v_def [symmetric]
    using f(2) v verifying_check_guarded [of "fst v" e lane] open_check_guarded [of "fst v" e lane]
    by (cases "bk_state (fst v)") (simp_all add: case_prod_beta)
  then show "guarded (fst (check e lane f))" "ck_action (snd (check e lane f)) \<noteq> Clone" by simp_all
qed

lemma record_no_ip_guarded:
  "bk_state b \<noteq> BreakerClosed \<Longrightarrow> bk_state (fst (record_no_ip e lane vm probe cause b)) \<noteq> BreakerClosed"
  by (cases "bk_state b") (simp_all add: record_no_ip_def Let_def case_prod_beta)

lemma dhcp_step_guarded: "\<not> reports_address op \<Longrightarrow> guarded f \<Longrightarrow> guarded (dhcp_step op f)"
proof (cases op)
  case (OpCheck e lane)
  then show "guarded f \<Longrightarrow> ?thesis" by (simp add: check_guarded)
next
  case (OpRecord e got_ip lane vm)
  moreover assume "\<not> reports_address op" "guarded f"
  ultimately show ?thesis
    by (auto elim!: guardedE simp: record_boot_def Let_def load_breaker_def case_prod_beta
        record_no_ip_guarded split: sum.splits)
qed (auto elim!: guardedE simp: cancel_def verify_def probe_now_def load_breaker_def Let_def case_prod_beta)

interpretation breaker_machine: machine guarded "\<lambda>op f. \<not> reports_address op" dhcp_step guarded
  by unfold_locales (auto intro: dhcp_step_guarded)

lemma legal_run_all: "list_all (\<lambda>op. \<not> reports_address op) ops \<Longrightarrow>
    legal_run (\<lambda>op f. \<not> reports_address op) dhcp_step ops f"
  by (induction ops arbitrary: f) auto

text \<open>C16: while the VM network is unproven, nobody clones freely. From an open or verifying breaker,
  whatever lanes check, cancel or fail, whatever operators request and however often the host
  reboots, no check is answered with \<open>clone\<close> until some VM has reported an address.\<close>

theorem guarded_host_never_clones:
  assumes "guarded f" and "list_all (\<lambda>op. \<not> reports_address op) ops"
  shows "ck_action (snd (check e lane (fold dhcp_step ops f))) \<noteq> Clone"
  by (rule check_guarded) (rule breaker_machine.run_safe [OF assms(1) legal_run_all [OF assms(2)]])

subsection \<open>An address closes the breaker\<close>

lemma record_ip_closes:
  "bk_state (fst (record_ip e lane probe b)) = BreakerClosed \<and> bk_streak (fst (record_ip e lane probe b)) = []
   \<and> bk_boot_time (fst (record_ip e lane probe b)) = bk_boot_time b"
  by (cases "bk_state b")
    (simp_all add: record_ip_def verified_def close_breaker_def end_outage_def Let_def)

text \<open>the first address closes the breaker, whoever reports it and whatever state the file was
  in, a corrupt one included. The failure streak is forgotten, and the next check on the same boot
  clones.\<close>

theorem address_closes_breaker:
  "\<exists>b answer. record_boot e True lane vm f = (BreakerStored b, Inr answer)
     \<and> bk_state b = BreakerClosed \<and> bk_streak b = [] \<and> bk_boot_time b = bk_boot_time (load_breaker f)
     \<and> (\<not> rebooted e' b \<longrightarrow> ck_action (snd (check e' lane' (BreakerStored b))) = Clone)"
proof -
  obtain b answer where run: "record_boot e True lane vm f = (BreakerStored b, Inr answer)"
    by (simp add: record_boot_def Let_def case_prod_beta)
  moreover from this have b: "bk_state b = BreakerClosed" "bk_streak b = []" "bk_boot_time b = bk_boot_time (load_breaker f)"
    by (auto simp: record_boot_def Let_def case_prod_beta record_ip_closes)
  moreover have "ck_action (snd (check e' lane' (BreakerStored b))) = Clone" if "\<not> rebooted e' b"
    using that b by (simp add: check_def load_breaker_def)
  ultimately show ?thesis by blast
qed

subsection \<open>One probe per interval\<close>

text \<open>What an open breaker promises while nothing changes on the host: a check grants a probe exactly
  when the interval since the last one has passed. The specification sees only the times.\<close>

fun cadence :: "int \<Rightarrow> int \<Rightarrow> int list \<Rightarrow> check_action list" where
  "cadence interval since [] = []"
| "cadence interval since (t # ts) =
     (if t - since \<ge> interval then Probe # cadence interval t ts else Backoff # cadence interval since ts)"

fun check_run :: "(dhcp_env \<times> string) list \<Rightarrow> breaker_file \<Rightarrow> check_action list" where
  "check_run [] f = []"
| "check_run ((e, lane) # looks) f =
     ck_action (snd (check e lane f)) # check_run looks (fst (check e lane f))"

text \<open>A look at a host on which nothing has moved since the breaker's last look.\<close>

definition quiet_look :: "int \<Rightarrow> chain_obs \<Rightarrow> int option \<Rightarrow> dhcp_env \<Rightarrow> bool" where
  "quiet_look secs c booted e =
     (chain e = c \<and> de_boot_time e = booted
      \<and> setting e ''TARTCI_VM_DHCP_PROBE_SECS'' PROBE_SECS = secs)"

definition quiet_open :: "chain_obs \<Rightarrow> int option \<Rightarrow> int \<Rightarrow> breaker \<Rightarrow> bool" where
  "quiet_open c booted since b =
     (bk_state b = BreakerOpen \<and> bk_chain b = Some c \<and> bk_boot_time b = booted
      \<and> last_look b = Some since \<and> \<not> probe_asked b)"

lemma quiet_not_rebooted: "quiet_open c booted since b \<Longrightarrow> quiet_look secs c booted e \<Longrightarrow> \<not> rebooted e b"
  by (auto simp: quiet_open_def quiet_look_def rebooted_def split: option.split)

lemma quiet_check:
  assumes q: "quiet_open c booted since b" and l: "quiet_look secs c booted e" and "since \<le> de_now e"
  shows "ck_action (snd (check e lane (BreakerStored b)))
      = (if de_now e - since \<ge> secs * SECOND then Probe else Backoff)
    \<and> (\<exists>b'. fst (check e lane (BreakerStored b)) = BreakerStored b'
        \<and> quiet_open c booted (if de_now e - since \<ge> secs * SECOND then de_now e else since) b')"
proof -
  have due: "probe_due e b = (de_now e - since \<ge> secs * SECOND)" and moved: "\<not> chain_moved e b"
    and asked: "\<not> probe_asked b" and st: "bk_state b = BreakerOpen" and ch: "bk_chain b = Some c"
    using q l by (auto simp: quiet_open_def quiet_look_def probe_due_def chain_moved_def)
  have "check e lane (BreakerStored b) = (let (b2, action, more_events) = open_check e lane b
     in (if action = Backoff then BreakerStored b else BreakerStored b2,
         \<lparr>ck_action = action, ck_breaker_open = True, ck_events = more_events\<rparr>))"
    using quiet_not_rebooted [OF q l] st ch
    by (simp add: check_def load_breaker_def Let_def case_prod_beta)
  moreover have "\<not> probe_asked (b\<lparr>bk_last_probe_at := Some (de_now e)\<rparr>)"
    using asked q assms(3) by (auto simp: probe_asked_def last_look_def quiet_open_def split: option.splits)
  ultimately show ?thesis
    using q l due moved asked
    by (auto simp: open_check_def Let_def quiet_open_def quiet_look_def last_look_def probe_asked_def
        split: option.splits)
qed

lemma check_run_cadence:
  assumes "quiet_open c booted since b" and "\<forall>(e, lane) \<in> set looks. quiet_look secs c booted e"
    and "sorted (since # map (\<lambda>(e, lane). de_now e) looks)"
  shows "check_run looks (BreakerStored b)
    = cadence (secs * SECOND) since (map (\<lambda>(e, lane). de_now e) looks)"
  using assms
proof (induction looks arbitrary: b since)
  case (Cons look looks)
  obtain e lane where look: "look = (e, lane)" by fastforce
  have l: "quiet_look secs c booted e" "since \<le> de_now e" using Cons.prems look by auto
  obtain b' where run: "ck_action (snd (check e lane (BreakerStored b)))
      = (if de_now e - since \<ge> secs * SECOND then Probe else Backoff)"
    "fst (check e lane (BreakerStored b)) = BreakerStored b'"
    "quiet_open c booted (if de_now e - since \<ge> secs * SECOND then de_now e else since) b'"
    using quiet_check [OF Cons.prems(1) l, of lane] by blast
  have "check_run looks (BreakerStored b') = cadence (secs * SECOND)
      (if de_now e - since \<ge> secs * SECOND then de_now e else since) (map (\<lambda>(e, lane). de_now e) looks)"
    using Cons.prems look by (intro Cons.IH [OF run(3)]) auto
  with run look show ?case by simp
qed simp

text \<open>The times at which probes were granted.\<close>

definition probe_times :: "int list \<Rightarrow> check_action list \<Rightarrow> int list" where
  "probe_times ts answers = map fst (filter (\<lambda>(t, a). a = Probe) (zip ts answers))"

lemma cadence_spaced:
  "sorted (since # ts) \<Longrightarrow> 0 < interval \<Longrightarrow>
     sorted_wrt (\<lambda>s t. t - s \<ge> interval) (since # probe_times ts (cadence interval since ts))"
proof (induction ts arbitrary: since)
  case (Cons t ts)
  have further: "x - since \<ge> interval" if "x - t \<ge> interval" for x using that Cons.prems by auto
  have "sorted (t # ts)" "sorted (since # ts)" using Cons.prems by auto
  note IH = Cons.IH [OF this(1) Cons.prems(2)] Cons.IH [OF this(2) Cons.prems(2)]
  show ?case
  proof (cases "t - since \<ge> interval")
    case True
    then show ?thesis using IH(1) by (auto simp: probe_times_def intro: further)
  next
    case False
    then show ?thesis using IH(2) by (simp add: probe_times_def)
  qed
qed (simp add: probe_times_def)

text \<open>C17: an outage costs one VM per interval, and not less often. While nothing moves on the host, the
  answers of any lanes' checks on an open breaker are those of the specification \<open>cadence\<close>, which
  knows only the times: a probe as soon as the interval since the last one has passed, otherwise
  back off. So two granted probes are at least the interval apart.\<close>

theorem open_breaker_refines_cadence:
  assumes "quiet_open c booted since b" and "\<forall>(e, lane) \<in> set looks. quiet_look secs c booted e"
    and "sorted (since # map (\<lambda>(e, lane). de_now e) looks)" and "0 < secs"
  shows "check_run looks (BreakerStored b) = cadence (secs * SECOND) since (map (\<lambda>(e, lane). de_now e) looks)
    \<and> sorted_wrt (\<lambda>s t. t - s \<ge> secs * SECOND)
        (since # probe_times (map (\<lambda>(e, lane). de_now e) looks) (check_run looks (BreakerStored b)))"
  using check_run_cadence [OF assms(1-3)] cadence_spaced [OF assms(3), of "secs * SECOND"] assms(4) by simp

subsection \<open>The failure that opens\<close>

text \<open>Reports of VMs that got no address, one after the other.\<close>

fun no_ip_run :: "(dhcp_env \<times> string \<times> string) list \<Rightarrow> breaker_file \<Rightarrow> breaker_file" where
  "no_ip_run [] f = f"
| "no_ip_run ((e, lane, vm) # reports) f = no_ip_run reports (fst (record_boot e False lane vm f))"

text \<open>Reports that are diagnosed, with the same threshold and all within its window.\<close>

definition failing_report :: "int \<Rightarrow> int \<Rightarrow> int \<Rightarrow> dhcp_env \<Rightarrow> bool" where
  "failing_report k from_time until_time e =
     (setting e ''TARTCI_VM_DHCP_K'' K = k
      \<and> until_time - from_time \<le> setting e ''TARTCI_VM_DHCP_WINDOW_SECS'' WINDOW_S * SECOND
      \<and> from_time \<le> de_now e \<and> de_now e \<le> until_time
      \<and> \<not> isl (diagnose (vm_network_readout e) (bootpd_readout e) (de_config e) (pfd_readout e)))"

lemma record_closed_no_ip:
  assumes "bk_state (load_breaker f) = BreakerClosed" and "failing_report k t0 t1 e"
    and "\<forall>r \<in> set (bk_streak (load_breaker f)). t0 \<le> sk_ts r"
    and "int (length (bk_streak (load_breaker f))) < k" and "k \<le> 51"
  shows "\<exists>b. fst (record_boot e False lane vm f) = BreakerStored b
    \<and> (if int (length (bk_streak (load_breaker f))) + 1 \<ge> k then bk_state b = BreakerOpen
       else bk_state b = BreakerClosed
         \<and> length (bk_streak b) = length (bk_streak (load_breaker f)) + 1
         \<and> (\<forall>r \<in> set (bk_streak b). t0 \<le> sk_ts r))"
proof -
  let ?s = "bk_streak (load_breaker f)"
  obtain cause where diag: "diagnose (vm_network_readout e) (bootpd_readout e) (de_config e) (pfd_readout e) = Inr cause"
    using assms(2) by (auto simp: failing_report_def isl_def) (meson sum.exhaust)
  have kept: "filter (\<lambda>r. de_now e - sk_ts r \<le> setting e ''TARTCI_VM_DHCP_WINDOW_SECS'' WINDOW_S * SECOND) ?s = ?s"
    using assms(2,3) by (auto simp: filter_id_conv failing_report_def)
  have k: "setting e ''TARTCI_VM_DHCP_K'' K = k" "t0 \<le> de_now e" using assms(2) by (auto simp: failing_report_def)
  have "length ?s + 1 \<le> MAX_STREAK \<or> int (length ?s) + 1 \<ge> k" using assms(4,5) by (auto simp: MAX_STREAK_def)
  then show ?thesis
    using assms(1,3) diag kept k
    by (auto simp: record_boot_def record_no_ip_def recent_streak_def Let_def case_prod_beta last_n_def)
qed

text \<open>An open breaker stays open under failures.\<close>

lemma no_ip_run_guarded: "guarded f \<Longrightarrow> guarded (no_ip_run reports f)"
proof (induction reports f rule: no_ip_run.induct)
  case (2 e lane vm reports f)
  then show ?case using dhcp_step_guarded [of "OpRecord e False lane vm" f] by simp
qed simp

lemma no_ip_run_threshold:
  assumes "\<forall>(e, lane, vm) \<in> set reports. failing_report k t0 t1 e" and "k \<le> 51"
    and "bk_state (load_breaker f) = BreakerClosed"
    and "\<forall>r \<in> set (bk_streak (load_breaker f)). t0 \<le> sk_ts r"
    and "int (length (bk_streak (load_breaker f))) < k"
  shows "guarded (no_ip_run reports f) = (int (length (bk_streak (load_breaker f)) + length reports) \<ge> k)"
  using assms
proof (induction reports f rule: no_ip_run.induct)
  case (1 f)
  then show ?case by (cases f) (auto simp: guarded_def load_breaker_def)
next
  case (2 e lane vm reports f)
  then have e: "failing_report k t0 t1 e" and rest: "\<forall>(e, lane, vm) \<in> set reports. failing_report k t0 t1 e"
    by auto
  obtain b where b: "fst (record_boot e False lane vm f) = BreakerStored b"
    and out: "if int (length (bk_streak (load_breaker f))) + 1 \<ge> k then bk_state b = BreakerOpen
       else bk_state b = BreakerClosed
         \<and> length (bk_streak b) = length (bk_streak (load_breaker f)) + 1
         \<and> (\<forall>r \<in> set (bk_streak b). t0 \<le> sk_ts r)"
    using record_closed_no_ip [OF "2.prems"(3) e "2.prems"(4,5,2), of lane vm] by blast
  show ?case
  proof (cases "int (length (bk_streak (load_breaker f))) + 1 \<ge> k")
    case True
    then show ?thesis using b out no_ip_run_guarded [of "BreakerStored b" reports] by simp
  next
    case False
    then have lb: "load_breaker (BreakerStored b) = b" "bk_state b = BreakerClosed"
      "length (bk_streak b) = length (bk_streak (load_breaker f)) + 1" "\<forall>r \<in> set (bk_streak b). t0 \<le> sk_ts r"
      using out by (simp_all add: load_breaker_def)
    then show ?thesis using "2.IH" [unfolded b, OF rest "2.prems"(2)] b False by simp
  qed
qed

text \<open>the threshold of the breaker. On a closed breaker with no failures on record, reports of VMs
  without an address that fall within the window open it exactly from the configured number on (two
  unless the host says otherwise), so one isolated failure never stops the lanes. The threshold must
  be at most 51, one more than the failures the file keeps; above that the breaker never opens.\<close>

theorem breaker_opens_at_threshold:
  assumes "\<forall>(e, lane, vm) \<in> set reports. failing_report k t0 t1 e" and "0 < k" and "k \<le> 51"
    and "bk_state (load_breaker f) = BreakerClosed" and "bk_streak (load_breaker f) = []"
  shows "guarded (no_ip_run reports f) = (int (length reports) \<ge> k)"
  using no_ip_run_threshold [OF assms(1,3,4)] assms(2,5) by simp

subsection \<open>A probe that never reports\<close>

text \<open>a crashed probe cannot hold the lanes. When the verifying probe has not reported within its
  bound, the next check frees the slot by opening the breaker, and from the probe interval later on
  every check of any lane is granted a probe, as long as nobody else was.\<close>

theorem crashed_probe_frees_slot:
  assumes "bk_state b = BreakerVerifying" and "probing b" and "bk_probe_started_at b = Some started"
    and "\<not> rebooted e b"
    and "de_now e - started \<ge> setting e ''TARTCI_VM_DHCP_VERIFY_SECS'' VERIFY_REPORT_SECS * SECOND"
  shows "\<exists>b'. fst (check e lane (BreakerStored b)) = BreakerStored b' \<and> bk_state b' = BreakerOpen
    \<and> ck_action (snd (check e lane (BreakerStored b))) = Backoff
    \<and> (\<forall>e' lane'. \<not> rebooted e' b'
         \<longrightarrow> de_now e' - de_now e \<ge> setting e' ''TARTCI_VM_DHCP_PROBE_SECS'' PROBE_SECS * SECOND
         \<longrightarrow> ck_action (snd (check e' lane' (BreakerStored b'))) = Probe)"
proof -
  define b' where "b' = fst (open_breaker e [] ''probe_unreported''
    [(''trigger'', PStr ''post_boot''), (''lane'', opt_str (bk_probe_lane b))] b)"
  have run: "fst (check e lane (BreakerStored b)) = BreakerStored b'"
    "ck_action (snd (check e lane (BreakerStored b))) = Backoff"
    using assms by (simp_all add: check_def load_breaker_def verifying_check_def Let_def case_prod_beta b'_def)
  have b': "bk_state b' = BreakerOpen" "bk_last_probe_at b' = Some (de_now e)"
    by (simp_all add: b'_def open_breaker_def Let_def)
  then have "ck_action (snd (check e' lane' (BreakerStored b'))) = Probe"
    if "\<not> rebooted e' b'" "de_now e' - de_now e \<ge> setting e' ''TARTCI_VM_DHCP_PROBE_SECS'' PROBE_SECS * SECOND" for e' lane'
    using that by (simp add: check_def load_breaker_def open_check_def Let_def probe_due_def last_look_def)
  with run b' show ?thesis by blast
qed

subsection \<open>A probe that is given back\<close>

text \<open>a cancelled probe is not a probe. When a lane is granted a probe of an open breaker and cancels
  it before it cloned, the probe count and the time of the last probe are what they were; and when
  the grant was due or asked for, the very next check of any lane is granted it again.\<close>

theorem cancelled_probe_costs_nothing:
  assumes "bk_state b = BreakerOpen" and "\<not> rebooted e b"
    and "ck_action (snd (check e lane (BreakerStored b))) = Probe"
  shows "\<exists>b'. fst (cancel lane reason (fst (check e lane (BreakerStored b)))) = BreakerStored b'
    \<and> bk_state b' = BreakerOpen \<and> bk_probes b' = bk_probes b \<and> bk_last_probe_at b' = bk_last_probe_at b
    \<and> bk_vms_spent b' = bk_vms_spent b \<and> bk_probe_lane b' = None
    \<and> (probe_due e b \<or> probe_asked b \<longrightarrow> ck_action (snd (check e lane' (BreakerStored b'))) = Probe)"
proof -
  let ?m = "chain_moved e b"
  define b' where "b' = b\<lparr>bk_chain := Some (chain e),
     bk_bootpd_moved_at := (if ?m then Some (de_now e) else bk_bootpd_moved_at b),
     bk_consecutive_unreported := bk_consecutive_unreported b + (if probing b then 1 else 0),
     bk_probe_lane := None, bk_probe_started_at := None, bk_probe_prev_probes := 0,
     bk_probe_prev_last_probe_at := None\<rparr>"
  have trigger: "probe_due e b \<or> ?m \<or> probe_asked b"
    using assms by (auto simp: check_def load_breaker_def open_check_def Let_def case_prod_beta split: if_splits)
  then have granted: "fst (check e lane (BreakerStored b)) = BreakerStored (b'\<lparr>bk_probe_lane := Some lane,
      bk_probe_started_at := bk_probe_started_at b, bk_probe_prev_probes := bk_probes b,
      bk_probe_prev_last_probe_at := bk_last_probe_at b, bk_last_probe_at := Some (de_now e),
      bk_probes := bk_probes b + 1\<rparr>)"
    using assms(1,2) by (auto simp: check_def load_breaker_def open_check_def Let_def b'_def)
  have "fst (cancel lane reason (fst (check e lane (BreakerStored b)))) = BreakerStored b'"
    using assms(1) by (simp add: granted cancel_def load_breaker_def Let_def b'_def)
  moreover have "bk_state b' = BreakerOpen" "bk_probes b' = bk_probes b" "bk_last_probe_at b' = bk_last_probe_at b"
    "bk_vms_spent b' = bk_vms_spent b" "bk_probe_lane b' = None"
    using assms(1) by (simp_all add: b'_def)
  moreover have "ck_action (snd (check e lane' (BreakerStored b'))) = Probe" if "probe_due e b \<or> probe_asked b"
  proof -
    have same: "bk_boot_time b' = bk_boot_time b" "bk_last_probe_at b' = bk_last_probe_at b"
      "bk_opened_at b' = bk_opened_at b" "bk_probe_requested_at b' = bk_probe_requested_at b"
      by (simp_all add: b'_def)
    have "\<not> rebooted e b'" using assms(2) unfolding rebooted_def same .
    moreover have "probe_due e b' \<or> probe_asked b'"
      using that unfolding probe_due_def probe_asked_def last_look_def same .
    ultimately show ?thesis
      using \<open>bk_state b' = BreakerOpen\<close> by (auto simp: check_def load_breaker_def open_check_def Let_def)
  qed
  ultimately show ?thesis by blast
qed

subsection \<open>At a concrete host\<close>

definition studio :: "int \<Rightarrow> int \<Rightarrow> dhcp_env" where
  "studio secs runs =
     \<lparr>de_now = secs * SECOND, de_getenv = (\<lambda>name. None), de_boot_time = Some (1000 * SECOND),
      de_bootpd = ProcExit 0 [''state = running'', ''runs = '' @ int_str runs, ''last exit code = 0''] [],
      de_sharing = ProcExit 0 [''pid = 321''] [], de_pfd = ProcExit 0 [''state = running''] [],
      de_ifconfig = ProcExit 0 [''lo0 en0 bridge100 vmenet0''] [],
      de_config = Some \<lparr>cg_present = True, cg_mtime = Some 5, cg_dhcp_enabled = [''bridge100'']\<rparr>\<rparr>"

definition opened :: breaker where
  "opened = fst (open_breaker (studio 5000 7) [] ''dhcp_silent'' []
     ((bare_breaker BreakerClosed)\<lparr>bk_boot_time := Some (1000 * SECOND)\<rparr>))"

lemmas studio_simps = studio_def setting_def K_def WINDOW_S_def PROBE_SECS_def VERIFY_REPORT_SECS_def

theorem guarded_host_never_clones_witness:
  "ck_action (snd (check (studio 5700 7) ''lane1'' (fold dhcp_step
     [OpCheck (studio 5400 7) ''lane1'', OpRecord (studio 5500 7) False ''lane1'' ''vm1'',
      OpProbeNow (studio 5600 7), OpVerify (studio 5650 7) ''update''] (BreakerStored opened)))) \<noteq> Clone"
  by (rule guarded_host_never_clones) (simp_all add: opened_def)

lemma opened_quiet: "quiet_open (chain (studio 0 7)) (Some (1000 * SECOND)) (5000 * SECOND) opened"
  by (simp add: quiet_open_def opened_def open_breaker_def bare_breaker_def Let_def last_look_def
      probe_asked_def chain_def studio_def bootpd_readout_def pfd_readout_def sharing_pid_def)

theorem address_closes_breaker_witness:
  "\<exists>b. fst (record_boot (studio 5600 7) True ''lane1'' ''vm1'' (BreakerStored opened)) = BreakerStored b
     \<and> ck_action (snd (check (studio 5700 7) ''lane2'' (BreakerStored b))) = Clone"
proof -
  obtain b answer where b: "record_boot (studio 5600 7) True ''lane1'' ''vm1'' (BreakerStored opened) = (BreakerStored b, Inr answer)"
    "bk_boot_time b = bk_boot_time (load_breaker (BreakerStored opened))"
    "\<not> rebooted (studio 5700 7) b \<longrightarrow> ck_action (snd (check (studio 5700 7) ''lane2'' (BreakerStored b))) = Clone"
    using address_closes_breaker [of "studio 5600 7" "''lane1''" "''vm1''" "BreakerStored opened" "studio 5700 7" "''lane2''"]
    by blast
  moreover have "\<not> rebooted (studio 5700 7) b"
    using b(2) opened_quiet by (simp add: rebooted_def load_breaker_def quiet_open_def studio_def)
  ultimately show ?thesis by simp
qed

theorem open_breaker_refines_cadence_witness:
  "check_run [(studio 5100 7, ''a''), (studio 5310 7, ''b''), (studio 5400 7, ''a''), (studio 5610 7, ''c'')]
     (BreakerStored opened) = [Backoff, Probe, Backoff, Probe]"
proof -
  let ?looks = "[(studio 5100 7, ''a''), (studio 5310 7, ''b''), (studio 5400 7, ''a''), (studio 5610 7, ''c'')]"
  have quiet: "\<forall>(e, lane) \<in> set ?looks. quiet_look 300 (chain (studio 0 7)) (Some (1000 * SECOND)) e"
    by (auto simp: quiet_look_def studio_simps chain_def bootpd_readout_def pfd_readout_def sharing_pid_def)
  have "sorted (5000 * SECOND # map (\<lambda>(e, lane). de_now e) ?looks)" by (simp add: studio_def)
  then have "check_run ?looks (BreakerStored opened)
      = cadence (300 * SECOND) (5000 * SECOND) (map (\<lambda>(e, lane). de_now e) ?looks)"
    by (rule conjunct1 [OF open_breaker_refines_cadence [OF opened_quiet quiet]]) simp
  then show ?thesis by (simp add: studio_def)
qed

lemma studio_failing:
  "5000 \<le> s \<Longrightarrow> s \<le> 5500 \<Longrightarrow> failing_report 2 (5000 * SECOND) (5500 * SECOND) (studio s 7)"
proof -
  have "\<not> isl (diagnose (vm_network_readout (studio 0 7)) (bootpd_readout (studio 0 7))
      (de_config (studio 0 7)) (pfd_readout (studio 0 7)))" by code_simp
  moreover assume "5000 \<le> s" "s \<le> 5500"
  ultimately show ?thesis
    by (simp add: failing_report_def studio_simps vm_network_readout_def bootpd_readout_def pfd_readout_def)
qed

theorem breaker_opens_at_threshold_witness:
  "\<not> guarded (no_ip_run [(studio 5000 7, ''a'', ''vm1'')] BreakerAbsent)
   \<and> guarded (no_ip_run [(studio 5000 7, ''a'', ''vm1''), (studio 5500 7, ''b'', ''vm2'')] BreakerAbsent)"
  using breaker_opens_at_threshold
      [of "[(studio 5000 7, ''a'', ''vm1'')]" 2 "5000 * SECOND" "5500 * SECOND" BreakerAbsent]
    breaker_opens_at_threshold
      [of "[(studio 5000 7, ''a'', ''vm1''), (studio 5500 7, ''b'', ''vm2'')]" 2 "5000 * SECOND" "5500 * SECOND" BreakerAbsent]
    studio_failing [of 5000] studio_failing [of 5500]
  by (simp add: load_breaker_def)

definition proving :: breaker where
  "proving = (bare_breaker BreakerVerifying)\<lparr>bk_boot_time := Some (1000 * SECOND), bk_probe_lane := Some ''a'',
     bk_probe_started_at := Some (2000 * SECOND)\<rparr>"

theorem crashed_probe_frees_slot_witness:
  "\<exists>b'. fst (check (studio 3000 7) ''b'' (BreakerStored proving)) = BreakerStored b'
     \<and> (rebooted (studio 3300 7) b' \<or> ck_action (snd (check (studio 3300 7) ''c'' (BreakerStored b'))) = Probe)"
proof -
  have "bk_state proving = BreakerVerifying" "probing proving" "bk_probe_started_at proving = Some (2000 * SECOND)"
    "\<not> rebooted (studio 3000 7) proving"
    by (simp_all add: proving_def bare_breaker_def probing_def rebooted_def studio_def)
  from crashed_probe_frees_slot [OF this, of "''b''"] obtain b' where
    "fst (check (studio 3000 7) ''b'' (BreakerStored proving)) = BreakerStored b'"
    "\<forall>e' lane'. \<not> rebooted e' b'
         \<longrightarrow> de_now e' - de_now (studio 3000 7) \<ge> setting e' ''TARTCI_VM_DHCP_PROBE_SECS'' PROBE_SECS * SECOND
         \<longrightarrow> ck_action (snd (check e' lane' (BreakerStored b'))) = Probe"
    by (auto simp: studio_simps)
  moreover have "de_now (studio 3300 7) - de_now (studio 3000 7)
      \<ge> setting (studio 3300 7) ''TARTCI_VM_DHCP_PROBE_SECS'' PROBE_SECS * SECOND" by (simp add: studio_simps)
  ultimately show ?thesis by blast
qed

theorem cancelled_probe_costs_nothing_witness:
  "\<exists>b'. fst (cancel ''a'' ''pre_clone'' (fst (check (studio 5400 7) ''a'' (BreakerStored opened)))) = BreakerStored b'
     \<and> bk_probes b' = bk_probes opened \<and> ck_action (snd (check (studio 5400 7) ''b'' (BreakerStored b'))) = Probe"
proof -
  have "bk_state opened = BreakerOpen" "\<not> rebooted (studio 5400 7) opened"
    by (simp_all add: opened_def open_breaker_def bare_breaker_def Let_def rebooted_def studio_def)
  moreover have due: "probe_due (studio 5400 7) opened"
    by (simp add: opened_def open_breaker_def bare_breaker_def Let_def probe_due_def last_look_def studio_simps)
  moreover from calculation have "ck_action (snd (check (studio 5400 7) ''a'' (BreakerStored opened))) = Probe"
    by (auto simp: check_def load_breaker_def open_check_def Let_def)
  ultimately show ?thesis
    using cancelled_probe_costs_nothing [of opened "studio 5400 7" "''a''" "''pre_clone''" "''b''"] by blast
qed

text \<open>a cancelled probe can use up the operator's fix. When the grant was triggered by a change of the
  VM-network chain, cancelling it gives the count back but not the trigger: the chain was stored as
  seen, so the next check, ten seconds after the fix, backs off and waits out the interval.\<close>

theorem cancelled_chain_probe_lost:
  "let f1 = fst (check (studio 5010 8) ''a'' (BreakerStored opened));
       f2 = fst (cancel ''a'' ''pre_clone'' f1)
   in ck_action (snd (check (studio 5010 8) ''a'' (BreakerStored opened))) = Probe
      \<and> ck_action (snd (check (studio 5020 8) ''b'' f2)) = Backoff"
  by code_simp

end
