(* ===== verification/Sha256.thy ===== *)
theory Sha256
  imports Prelude "HOL-Library.Word"
begin

section \<open>SHA-256\<close>

text \<open>
  \<open>hashlib.sha256(body.encode()).hexdigest()\<close>, which \<open>scripts/job_claim.py\<close> names its claim
  files after: the UTF-8 bytes of a string, the padding to blocks of 64 bytes with the length in
  bits, the message schedule and the 64 rounds on eight 32-bit words, where addition wraps, and the
  lower-case hexadecimal digest.
\<close>

unbundle bit_operations_syntax

type_synonym word32 = "32 word"

type_synonym hash_state = "word32 list"

subsection \<open>Bytes and blocks\<close>

text \<open>\<open>str.encode()\<close> of a character below 256.\<close>

definition utf8_char :: "char \<Rightarrow> nat list" where
  "utf8_char c = (let n = (of_char c :: nat) in if n < 128 then [n] else [192 + n div 64, 128 + n mod 64])"

definition encode :: "string \<Rightarrow> nat list" where
  "encode s = concat (map utf8_char s)"

definition big_endian :: "nat \<Rightarrow> nat \<Rightarrow> nat list" where
  "big_endian width n = map (\<lambda>i. n div 256 ^ (width - 1 - i) mod 256) [0..<width]"

definition pad :: "nat list \<Rightarrow> nat list" where
  "pad bytes = bytes @ [128] @ replicate ((119 - length bytes mod 64) mod 64) 0 @ big_endian 8 (8 * length bytes)"

text \<open>The bytes in groups of \<open>n\<close>; a last group that is not full is dropped, which \<open>pad\<close> excludes.\<close>

function chunks :: "nat \<Rightarrow> 'a list \<Rightarrow> 'a list list" where
  "chunks n xs = (if n = 0 \<or> length xs < n then [] else take n xs # chunks n (drop n xs))"
  by pat_completeness auto

termination by (relation "measure (\<lambda>(n, xs). length xs)") auto

declare chunks.simps [simp del]

definition word_of_bytes :: "nat list \<Rightarrow> word32" where
  "word_of_bytes bs = of_nat (foldl (\<lambda>acc b. acc * 256 + b) 0 bs)"

lemma pad_length: "length (pad bytes) mod 64 = 0"
proof -
  define r where "r = length bytes mod 64"
  have "r < 64" by (simp add: r_def)
  then have "(r + (9 + (119 - r) mod 64)) mod 64 = 0"
    by (cases "r \<le> 55") (auto simp: mod_if)
  then have "(length bytes + (9 + (119 - r) mod 64)) mod 64 = 0"
    using mod_add_left_eq [of "length bytes" 64] by (simp only: r_def)
  then show ?thesis by (simp add: pad_def big_endian_def r_def add.commute add.left_commute)
qed

lemma chunks_concat: "0 < n \<Longrightarrow> length xs mod n = 0 \<Longrightarrow> concat (chunks n xs) = xs"
proof (induction n xs rule: chunks.induct)
  case (1 n xs)
  show ?case
  proof (cases "length xs < n")
    case True
    with "1.prems" have "xs = []" by simp
    then show ?thesis using "1.prems"(1) by (simp add: chunks.simps [of n "[]"])
  next
    case False
    with "1.prems" have "(length xs - n) mod n = 0" by (simp add: mod_if)
    with 1 False show ?thesis by (subst chunks.simps) (simp add: mod_if)
  qed
qed

subsection \<open>The compression function\<close>

definition round_constants :: "word32 list" where
  "round_constants =
     [1116352408, 1899447441, 3049323471, 3921009573, 961987163, 1508970993, 2453635748, 2870763221,
      3624381080, 310598401, 607225278, 1426881987, 1925078388, 2162078206, 2614888103, 3248222580,
      3835390401, 4022224774, 264347078, 604807628, 770255983, 1249150122, 1555081692, 1996064986,
      2554220882, 2821834349, 2952996808, 3210313671, 3336571891, 3584528711, 113926993, 338241895,
      666307205, 773529912, 1294757372, 1396182291, 1695183700, 1986661051, 2177026350, 2456956037,
      2730485921, 2820302411, 3259730800, 3345764771, 3516065817, 3600352804, 4094571909, 275423344,
      430227734, 506948616, 659060556, 883997877, 958139571, 1322822218, 1537002063, 1747873779,
      1955562222, 2024104815, 2227730452, 2361852424, 2428436474, 2756734187, 3204031479, 3329325298]"

definition initial_hash :: hash_state where
  "initial_hash =
     [1779033703, 3144134277, 1013904242, 2773480762, 1359893119, 2600822924, 528734635, 1541459225]"

definition small_sigma0 :: "word32 \<Rightarrow> word32" where
  "small_sigma0 x = word_rotr 7 x XOR word_rotr 18 x XOR drop_bit 3 x"

definition small_sigma1 :: "word32 \<Rightarrow> word32" where
  "small_sigma1 x = word_rotr 17 x XOR word_rotr 19 x XOR drop_bit 10 x"

definition big_sigma0 :: "word32 \<Rightarrow> word32" where
  "big_sigma0 x = word_rotr 2 x XOR word_rotr 13 x XOR word_rotr 22 x"

definition big_sigma1 :: "word32 \<Rightarrow> word32" where
  "big_sigma1 x = word_rotr 6 x XOR word_rotr 11 x XOR word_rotr 25 x"

definition choice :: "word32 \<Rightarrow> word32 \<Rightarrow> word32 \<Rightarrow> word32" where
  "choice x y z = (x AND y) XOR (NOT x AND z)"

definition majority :: "word32 \<Rightarrow> word32 \<Rightarrow> word32 \<Rightarrow> word32" where
  "majority x y z = (x AND y) XOR (x AND z) XOR (y AND z)"

text \<open>The message schedule, newest word first: \<open>n\<close> more words after the given ones.\<close>

fun schedule :: "nat \<Rightarrow> word32 list \<Rightarrow> word32 list" where
  "schedule 0 ws = ws"
| "schedule (Suc n) ws =
     schedule n ((small_sigma1 (ws ! 1) + ws ! 6 + small_sigma0 (ws ! 14) + ws ! 15) # ws)"

lemma schedule_length: "length (schedule n ws) = n + length ws"
  by (induction n ws rule: schedule.induct) auto

definition hash_round :: "hash_state \<Rightarrow> word32 \<times> word32 \<Rightarrow> hash_state" where
  "hash_round st kw = (case st of
     [a, b, c, d, e, f, g, h] \<Rightarrow>
       (let t1 = h + big_sigma1 e + choice e f g + fst kw + snd kw;
            t2 = big_sigma0 a + majority a b c
        in [t1 + t2, a, b, c, d + t1, e, f, g])
   | _ \<Rightarrow> st)"

lemma hash_round_length: "length (hash_round st kw) = length st"
  by (auto simp: hash_round_def Let_def split: list.split)

definition compress :: "hash_state \<Rightarrow> nat list \<Rightarrow> hash_state" where
  "compress st block =
     (let ws = rev (schedule 48 (rev (map word_of_bytes (chunks 4 block))))
      in map2 (+) st (foldl hash_round st (zip round_constants ws)))"

lemma compress_length: "length (compress st block) = length st"
proof -
  have "length (foldl hash_round s kws) = length s" for s kws
    by (induction kws arbitrary: s) (auto simp: hash_round_length)
  then show ?thesis by (simp add: compress_def Let_def)
qed

definition hash_words :: "nat list \<Rightarrow> hash_state" where
  "hash_words bytes = foldl compress initial_hash (chunks 64 (pad bytes))"

lemma hash_words_length: "length (hash_words bytes) = 8"
proof -
  have "length (foldl compress s bs) = length s" for s bs
    by (induction bs arbitrary: s) (auto simp: compress_length)
  then show ?thesis by (simp add: hash_words_def initial_hash_def)
qed

subsection \<open>The digest\<close>

definition hex_char :: "nat \<Rightarrow> char" where
  "hex_char d = (if d < 10 then char_of (48 + d) else char_of (87 + d))"

definition hex_word :: "word32 \<Rightarrow> string" where
  "hex_word w = map (\<lambda>i. hex_char (unat w div 16 ^ (7 - i) mod 16)) [0..<8]"

definition hexdigest :: "string \<Rightarrow> string" where
  "hexdigest s = concat (map hex_word (hash_words (encode s)))"

lemma hexdigest_length: "length (hexdigest s) = 64"
proof -
  have "length (concat (map hex_word ws)) = 8 * length ws" for ws
    by (induction ws) (auto simp: hex_word_def)
  then show ?thesis by (simp add: hexdigest_def hash_words_length)
qed

end
