(* ===== verification/JobClaim.thy ===== *)
theory JobClaim
  imports Owners Sha256
begin

section \<open>Boot claims: at most one booting VM per queued job\<close>

text \<open>
  \<open>scripts/job_claim.py\<close>: before a lane clones a VM for a queued job it takes a
  claim in the file of its (repository, runner labels) key. \<open>acquire_claim\<close>,
  \<open>release_claim\<close> and \<open>claim_status\<close> are the commands \<open>acquire\<close>, \<open>release\<close> and \<open>status\<close>;
  each runs under the exclusive lock of its key's file, so a command is one step.
  The directory is a function from keys to files. A stored row is the record that
  \<open>save\<close> writes; times are integers of microseconds. The listings a caller passes
  (idle runners, peers' published claims) enter as the rows the JSON parser returns,
  \<open>None\<close> for a line that is not an object of the expected shape.
\<close>

subsection \<open>Keys\<close>

definition normalized_labels :: "string \<Rightarrow> string list" where
  "normalized_labels labels =
     sort (remdups (map (\<lambda>item. lower (strip item))
       (filter (\<lambda>item. strip item \<noteq> []) (split_on (CHR '','') labels))))"

definition claim_key :: "string \<Rightarrow> string \<Rightarrow> string" where
  "claim_key repo labels =
     take 32 (hexdigest (lower repo @ [CHR 0x0A] @ join '','' (normalized_labels labels)))"

subsection \<open>The claim files\<close>

record claim_row =
  cl_claim_id :: string
  cl_lane :: string
  cl_vm :: string
  cl_pid :: int
  cl_pid_start :: string
  cl_repo :: string
  cl_labels :: string
  cl_created_at :: string
  cl_expires_at :: int

datatype claim_file = ClaimsAbsent | ClaimsInvalid | ClaimsStored "claim_row list"

type_synonym claim_dir = "string \<Rightarrow> claim_file"

definition load_claims :: "claim_file \<Rightarrow> claim_row list result" where
  "load_claims f = (case f of
     ClaimsAbsent \<Rightarrow> Inr []
   | ClaimsInvalid \<Rightarrow> Inl (ValueError ''invalid claim store shape'')
   | ClaimsStored rows \<Rightarrow> Inr rows)"

definition owner_alive :: "host \<Rightarrow> claim_row \<Rightarrow> bool" where
  "owner_alive h row =
     (if cl_pid row \<le> 0 then False
      else let start = pid_start h (cl_pid row) in
        if start = [] then False
        else let recorded = squeeze (cl_pid_start row) in recorded = [] \<or> recorded = start)"

definition is_live :: "host \<Rightarrow> int \<Rightarrow> claim_row \<Rightarrow> bool" where
  "is_live h now row = (cl_expires_at row > now \<and> owner_alive h row)"

definition live :: "host \<Rightarrow> int \<Rightarrow> claim_row list \<Rightarrow> claim_row list" where
  "live h now rows = filter (is_live h now) rows"

subsection \<open>What other hosts hold\<close>

record runner_row =
  rn_name :: string
  rn_labels :: "string list"

datatype 'a lines_file = NoPath | Unreadable | LinesOf "'a option list"

definition serves_labels :: "string list \<Rightarrow> runner_row \<Rightarrow> bool" where
  "serves_labels want row = (want \<noteq> [] \<and> set want \<subseteq> set (map lower (rn_labels row)))"

definition fleet_idle_names :: "runner_row lines_file \<Rightarrow> string \<Rightarrow> string list result" where
  "fleet_idle_names file labels = (case file of
     NoPath \<Rightarrow> Inr []
   | Unreadable \<Rightarrow> Inl (RuntimeError ''OSError'')
   | LinesOf rows \<Rightarrow> Inr (sort (remdups (map rn_name
       (filter (serves_labels (normalized_labels labels)) (List.map_filter id rows))))))"

text \<open>A published claim; its age is \<open>None\<close> when the host sent something that is not a number, its VM
  when it is not a string. A peer's row has no status when the peer was not read. Both ages, the one the
  host declares for its claims and the one of a claim, are in microseconds here.\<close>

record peer_claim =
  pc_key :: string
  pc_age :: "int option"
  pc_vm :: "string option"

record peer_row =
  pr_host :: string
  pr_max_age :: "int option"
  pr_claims :: "peer_claim option list option"

record peer_view =
  pv_booting :: "string list"
  pv_read :: "string list"
  pv_unread :: "string list"

definition DEFAULT_REMOTE_MAX_AGE_SECS :: int where
  "DEFAULT_REMOTE_MAX_AGE_SECS = 900"

definition age_limit :: "int \<Rightarrow> peer_row \<Rightarrow> int" where
  "age_limit ttl row = (case pr_max_age row of
     Some declared \<Rightarrow> if declared \<le> 0 then DEFAULT_REMOTE_MAX_AGE_SECS * 1000000 else min declared (ttl * 1000000)
   | None \<Rightarrow> DEFAULT_REMOTE_MAX_AGE_SECS * 1000000)"

definition booting_vm :: "string \<Rightarrow> int \<Rightarrow> peer_claim option \<Rightarrow> string option" where
  "booting_vm key limit claim = (case claim of
     None \<Rightarrow> None
   | Some c \<Rightarrow> if pc_key c \<noteq> key then None
       else (case pc_age c of None \<Rightarrow> None
         | Some age \<Rightarrow> if 0 \<le> age \<and> age \<le> limit then pc_vm c else None))"

definition peer_claims :: "peer_row lines_file \<Rightarrow> string \<Rightarrow> int \<Rightarrow> peer_view" where
  "peer_claims file key ttl = (case file of
     LinesOf rows \<Rightarrow>
       (let peers = List.map_filter id rows in
        \<lparr>pv_booting = concat (map (\<lambda>p. case pr_claims p of None \<Rightarrow> []
             | Some cs \<Rightarrow> List.map_filter (booting_vm key (age_limit ttl p)) cs) peers),
         pv_read = map pr_host (filter (\<lambda>p. pr_claims p \<noteq> None) peers),
         pv_unread = map pr_host (filter (\<lambda>p. pr_claims p = None) peers)\<rparr>)
   | _ \<Rightarrow> \<lparr>pv_booting = [], pv_read = [], pv_unread = []\<rparr>)"

subsection \<open>Taking and giving back a claim\<close>

record claim_args =
  ja_repo :: string
  ja_labels :: string
  ja_claim_id :: string
  ja_lane :: string
  ja_vm :: string
  ja_pid :: int
  ja_queued :: int
  ja_lower_bound :: bool
  ja_ttl :: int
  ja_fleet_runners :: "runner_row lines_file"
  ja_fleet_claims :: "peer_row lines_file"

datatype claim_verdict = Claimed | NeedExact | Contended

record claim_reply =
  cr_key :: string
  cr_queued :: int
  cr_local_claims :: "(string \<times> string) list"
  cr_fleet_idle_runners :: "string list"
  cr_fleet_booting :: "string list"
  cr_peers_read :: "string list"
  cr_peers_unread :: "string list"
  cr_standing_claims :: int
  cr_verdict :: claim_verdict

definition claim_rc :: "claim_verdict \<Rightarrow> int" where
  "claim_rc v = (case v of Claimed \<Rightarrow> 0 | Contended \<Rightarrow> 3 | NeedExact \<Rightarrow> 4)"

text \<open>The claims that stand against a request: other lanes of this host, idle runners of the fleet
  and VMs that boot elsewhere, each VM counted once.\<close>

definition other_claims :: "host \<Rightarrow> claim_args \<Rightarrow> claim_row list \<Rightarrow> claim_row list" where
  "other_claims h a rows = filter (\<lambda>r. cl_claim_id r \<noteq> ja_claim_id a) (live h (utcnow h) rows)"

definition remote_idle :: "claim_args \<Rightarrow> claim_row list \<Rightarrow> string list \<Rightarrow> string list" where
  "remote_idle a others idle = filter (\<lambda>n. n \<notin> set (map cl_vm others) \<and> n \<noteq> ja_vm a) idle"

definition remote_booting :: "claim_args \<Rightarrow> claim_row list \<Rightarrow> string list \<Rightarrow> string list \<Rightarrow> string list" where
  "remote_booting a others remote booting = sort (remdups
     (filter (\<lambda>vm. vm \<notin> set (map cl_vm others) \<and> vm \<notin> set remote \<and> vm \<noteq> ja_vm a) booting))"

definition claim_row_of :: "host \<Rightarrow> claim_args \<Rightarrow> claim_row" where
  "claim_row_of h a =
     \<lparr>cl_claim_id = ja_claim_id a, cl_lane = ja_lane a, cl_vm = ja_vm a, cl_pid = ja_pid a,
      cl_pid_start = pid_start h (ja_pid a), cl_repo = ja_repo a,
      cl_labels = join '','' (normalized_labels (ja_labels a)), cl_created_at = iso (utcnow h),
      cl_expires_at = utcnow h + ja_ttl a * 1000000\<rparr>"

definition decide_claim :: "host \<Rightarrow> claim_args \<Rightarrow> string list \<Rightarrow> peer_view \<Rightarrow> claim_row list
    \<Rightarrow> claim_row list \<times> claim_reply" where
  "decide_claim h a idle peers rows =
     (let others = other_claims h a rows;
          remote = remote_idle a others idle;
          booting = remote_booting a others remote (pv_booting peers);
          standing = int (length others) + int (length remote) + int (length booting);
          v = (if ja_queued a > standing then Claimed
               else if ja_lower_bound a \<and> ja_queued a > 0 then NeedExact else Contended)
      in (if v = Claimed then others @ [claim_row_of h a] else others,
          \<lparr>cr_key = claim_key (ja_repo a) (ja_labels a), cr_queued = ja_queued a,
           cr_local_claims = map (\<lambda>r. (cl_lane r, cl_vm r)) others, cr_fleet_idle_runners = remote,
           cr_fleet_booting = booting, cr_peers_read = pv_read peers, cr_peers_unread = pv_unread peers,
           cr_standing_claims = standing, cr_verdict = v\<rparr>))"

definition acquire_claim :: "host \<Rightarrow> claim_args \<Rightarrow> claim_dir \<Rightarrow> claim_dir \<times> claim_reply result" where
  "acquire_claim h a d =
     (if ja_queued a < 0 then (d, Inl (ValueError ''queued must be non-negative''))
      else if ja_ttl a \<le> 0 then (d, Inl (ValueError ''ttl must be positive''))
      else let key = claim_key (ja_repo a) (ja_labels a) in
      case fleet_idle_names (ja_fleet_runners a) (ja_labels a) of
        Inl err \<Rightarrow> (d, Inl err)
      | Inr idle \<Rightarrow>
          (let peers = peer_claims (ja_fleet_claims a) key (ja_ttl a) in
           case load_claims (d key) of
             Inl err \<Rightarrow> (d, Inl err)
           | Inr rows \<Rightarrow>
               (let (rows', reply) = decide_claim h a idle peers rows
                in (d(key := ClaimsStored rows'), Inr reply))))"

definition release_claim :: "host \<Rightarrow> string \<Rightarrow> string \<Rightarrow> string \<Rightarrow> claim_dir
    \<Rightarrow> claim_dir \<times> (bool \<times> int) result" where
  "release_claim h repo labels claim_id d =
     (let key = claim_key repo labels in
      case load_claims (d key) of
        Inl err \<Rightarrow> (d, Inl err)
      | Inr rows \<Rightarrow>
          (let kept = filter (\<lambda>r. cl_claim_id r \<noteq> claim_id) (live h (utcnow h) rows)
           in (d(key := ClaimsStored kept), Inr (length rows \<noteq> length kept, int (length kept)))))"

text \<open>\<open>status\<close> over the claim files in the order of their keys: what \<open>--publish\<close> shows to peers, in
  the fields a peer reads (key, age and VM of each live claim). The age is in microseconds, rounded to a tenth of a second, half to even.\<close>

definition round_tenth :: "int \<Rightarrow> int" where
  "round_tenth t = (let q = t div 100000; r = t mod 100000 in
     (if r > 50000 \<or> (r = 50000 \<and> odd q) then q + 1 else q) * 100000)"

definition published_claim :: "host \<Rightarrow> string \<Rightarrow> claim_row \<Rightarrow> peer_claim" where
  "published_claim h key row =
     \<lparr>pc_key = key, pc_age = map_option (\<lambda>created. round_tenth (utcnow h - created)) (parse_utc (cl_created_at row)),
      pc_vm = Some (cl_vm row)\<rparr>"

definition claim_status :: "host \<Rightarrow> string list \<Rightarrow> claim_dir \<Rightarrow> peer_claim list" where
  "claim_status h keys d = concat (map (\<lambda>key. case load_claims (d key) of
     Inl err \<Rightarrow> []
   | Inr rows \<Rightarrow> map (published_claim h key) (live h (utcnow h) rows)) (sort keys))"

text \<open>How long the claims of a host may count elsewhere: \<open>host.job_claim_max_age_seconds\<close> of its fleet
  profile, when it is a positive integer. \<open>published_status\<close> is what \<open>status --publish\<close> prints, as the row
  a reader of the peer \<open>host\<close> keeps of it.\<close>

definition declared_max_age :: "pydict \<Rightarrow> int option" where
  "declared_max_age profile = (case dget profile ''job_claim_max_age_seconds'' of
     PInt secs \<Rightarrow> if 0 < secs then Some secs else None
   | _ \<Rightarrow> None)"

definition published_status :: "string \<Rightarrow> pydict \<Rightarrow> host \<Rightarrow> string list \<Rightarrow> claim_dir \<Rightarrow> peer_row" where
  "published_status host profile h keys d =
     \<lparr>pr_host = host, pr_max_age = map_option (\<lambda>secs. secs * 1000000) (declared_max_age profile),
      pr_claims = Some (map Some (claim_status h keys d))\<rparr>"

subsection \<open>What a request is measured against\<close>

lemma decide_claim_verdict:
  assumes "decide_claim h a idle peers rows = (rows', reply)"
  defines "others \<equiv> other_claims h a rows"
  shows "(cr_verdict reply = Claimed) = (cr_standing_claims reply < ja_queued a)"
    and "(cr_verdict reply = NeedExact)
      = (ja_lower_bound a \<and> 0 < ja_queued a \<and> ja_queued a \<le> cr_standing_claims reply)"
    and "cr_standing_claims reply
      = int (length others + length (cr_fleet_idle_runners reply) + length (cr_fleet_booting reply))"
    and "rows' = others @ (if cr_verdict reply = Claimed then [claim_row_of h a] else [])"
    and "cr_fleet_idle_runners reply = remote_idle a others idle"
    and "cr_fleet_booting reply = remote_booting a others (cr_fleet_idle_runners reply) (pv_booting peers)"
  using assms by (auto simp: decide_claim_def Let_def split: if_splits)

lemma acquire_claim_Inr:
  assumes "acquire_claim h a d = (d', Inr reply)"
  obtains idle rows rows' where
    "fleet_idle_names (ja_fleet_runners a) (ja_labels a) = Inr idle"
    "load_claims (d (claim_key (ja_repo a) (ja_labels a))) = Inr rows"
    "decide_claim h a idle (peer_claims (ja_fleet_claims a) (claim_key (ja_repo a) (ja_labels a)) (ja_ttl a)) rows
       = (rows', reply)"
    "d' = d(claim_key (ja_repo a) (ja_labels a) := ClaimsStored rows')"
  using assms
  by (auto simp: acquire_claim_def Let_def case_prod_beta prod_eq_iff split: if_splits sum.splits)

lemma acquire_claim_answers:
  assumes "0 \<le> ja_queued a" and "0 < ja_ttl a" and "fleet_idle_names (ja_fleet_runners a) (ja_labels a) = Inr idle"
    and "load_claims (d (claim_key (ja_repo a) (ja_labels a))) = Inr rows"
  shows "\<exists>d' reply. acquire_claim h a d = (d', Inr reply)"
  using assms by (simp add: acquire_claim_def Let_def case_prod_beta)

lemma fleet_idle_distinct: "fleet_idle_names file labels = Inr idle \<Longrightarrow> distinct idle"
  by (auto simp: fleet_idle_names_def split: lines_file.splits)

text \<open>a lane boots exactly when a queued job has no VM yet. A request is granted if and only if the
  queued jobs outnumber the standing claims, which are the live claims of the host's other lanes, the
  idle runners and the VMs booting on other hosts, no VM being counted twice; a count that is only a
  lower bound asks for the exact one instead of giving up; and no other key's claims are touched.\<close>

theorem claim_granted_exactly:
  assumes "acquire_claim h a d = (d', Inr reply)"
  shows "(cr_verdict reply = Claimed) = (cr_standing_claims reply < ja_queued a)
    \<and> (cr_verdict reply = NeedExact)
        = (ja_lower_bound a \<and> 0 < ja_queued a \<and> ja_queued a \<le> cr_standing_claims reply)
    \<and> cr_standing_claims reply = int (length (cr_local_claims reply)
        + length (cr_fleet_idle_runners reply) + length (cr_fleet_booting reply))
    \<and> distinct (cr_fleet_idle_runners reply @ cr_fleet_booting reply)
    \<and> set (cr_fleet_idle_runners reply @ cr_fleet_booting reply)
        \<inter> insert (ja_vm a) (snd ` set (cr_local_claims reply)) = {}
    \<and> (\<forall>key. key \<noteq> claim_key (ja_repo a) (ja_labels a) \<longrightarrow> d' key = d key)"
proof -
  obtain idle rows rows' where idle: "fleet_idle_names (ja_fleet_runners a) (ja_labels a) = Inr idle"
    and run: "decide_claim h a idle
        (peer_claims (ja_fleet_claims a) (claim_key (ja_repo a) (ja_labels a)) (ja_ttl a)) rows = (rows', reply)"
    and d': "d' = d(claim_key (ja_repo a) (ja_labels a) := ClaimsStored rows')"
    using assms by (rule acquire_claim_Inr)
  note v = decide_claim_verdict [OF run]
  have names: "cr_local_claims reply = map (\<lambda>r. (cl_lane r, cl_vm r)) (other_claims h a rows)"
    using run by (auto simp: decide_claim_def Let_def)
  have "distinct (cr_fleet_idle_runners reply @ cr_fleet_booting reply)"
    unfolding v(6) unfolding v(5)
    using fleet_idle_distinct [OF idle] by (auto simp: remote_idle_def remote_booting_def)
  moreover have "set (cr_fleet_idle_runners reply @ cr_fleet_booting reply)
        \<inter> insert (ja_vm a) (snd ` set (cr_local_claims reply)) = {}"
    unfolding v(6) names unfolding v(5) by (auto simp: remote_idle_def remote_booting_def)
  ultimately show ?thesis using v(1-3) d' by (simp add: names)
qed

subsection \<open>Never more claims than jobs\<close>

datatype claim_op = OpClaim host claim_args | OpUnclaim host string string string

fun claim_step :: "claim_op \<Rightarrow> claim_dir \<Rightarrow> claim_dir" where
  "claim_step (OpClaim h a) d = fst (acquire_claim h a d)"
| "claim_step (OpUnclaim h repo labels claim_id) d = fst (release_claim h repo labels claim_id d)"

text \<open>\<open>q\<close> bounds the queued count any lane sees for a key.\<close>

fun sees_at_most :: "(string \<Rightarrow> int) \<Rightarrow> claim_op \<Rightarrow> bool" where
  "sees_at_most q (OpClaim h a) = (ja_queued a \<le> q (claim_key (ja_repo a) (ja_labels a)))"
| "sees_at_most q (OpUnclaim h repo labels claim_id) = True"

definition claims_within :: "int \<Rightarrow> claim_file \<Rightarrow> bool" where
  "claims_within n f = (case f of
     ClaimsAbsent \<Rightarrow> True
   | ClaimsInvalid \<Rightarrow> False
   | ClaimsStored rows \<Rightarrow> int (length rows) \<le> n \<and> distinct (map cl_claim_id rows))"

lemma claims_within_load:
  "claims_within n f \<Longrightarrow> 0 \<le> n \<Longrightarrow> \<exists>rows. load_claims f = Inr rows \<and> int (length rows) \<le> n \<and> distinct (map cl_claim_id rows)"
  by (auto simp: claims_within_def load_claims_def split: claim_file.splits)

lemma filter_within:
  "int (length rows) \<le> n \<Longrightarrow> distinct (map cl_claim_id rows) \<Longrightarrow> claims_within n (ClaimsStored (filter P rows))"
  by (simp add: claims_within_def distinct_map_filter order_trans [of _ "int (length rows)"])

lemma other_claims_filter:
  "other_claims h a rows = filter (\<lambda>r. is_live h (utcnow h) r \<and> cl_claim_id r \<noteq> ja_claim_id a) rows"
  by (simp add: other_claims_def live_def conj_commute)

lemma decide_claim_within:
  assumes "decide_claim h a idle peers rows = (rows', reply)" and "ja_queued a \<le> n"
    and "int (length rows) \<le> n" and "distinct (map cl_claim_id rows)"
  shows "claims_within n (ClaimsStored rows')"
proof (cases "cr_verdict reply = Claimed")
  case True
  note v = decide_claim_verdict [OF assms(1)]
  have "int (length rows') \<le> n" using v(1,3,4) True assms(2) by simp
  moreover have "distinct (map cl_claim_id rows')"
    using v(4) True assms(4)
    by (auto simp: other_claims_filter claim_row_of_def distinct_map_filter)
  ultimately show ?thesis by (simp add: claims_within_def)
next
  case False
  then show ?thesis
    using decide_claim_verdict(4) [OF assms(1)] filter_within [OF assms(3,4)] by (simp add: other_claims_filter)
qed

lemma claim_step_within:
  assumes "sees_at_most q op" and "\<forall>key. 0 \<le> q key" and "\<forall>key. claims_within (q key) (d key)"
  shows "\<forall>key. claims_within (q key) (claim_step op d key)"
proof (cases op)
  case (OpClaim h a)
  let ?key = "claim_key (ja_repo a) (ja_labels a)"
  show ?thesis
  proof (cases "snd (acquire_claim h a d)")
    case (Inl err)
    then have "fst (acquire_claim h a d) = d"
      by (auto simp: acquire_claim_def Let_def case_prod_beta split: if_splits sum.splits)
    with assms(3) OpClaim show ?thesis by simp
  next
    case (Inr reply)
    then have "acquire_claim h a d = (fst (acquire_claim h a d), Inr reply)" by (simp add: prod_eq_iff)
    then obtain idle rows rows' where rows: "load_claims (d ?key) = Inr rows"
      and run: "decide_claim h a idle (peer_claims (ja_fleet_claims a) ?key (ja_ttl a)) rows = (rows', reply)"
      and d': "fst (acquire_claim h a d) = d(?key := ClaimsStored rows')"
      by (rule acquire_claim_Inr)
    have "int (length rows) \<le> q ?key" "distinct (map cl_claim_id rows)"
      using claims_within_load [OF assms(3) [rule_format] assms(2) [rule_format], of ?key] rows by auto
    with decide_claim_within [OF run, of "q ?key"] assms(1) OpClaim
    have "claims_within (q ?key) (ClaimsStored rows')" by simp
    with assms(3) d' OpClaim show ?thesis by simp
  qed
next
  case (OpUnclaim h repo labels claim_id)
  let ?key = "claim_key repo labels"
  obtain rows where rows: "load_claims (d ?key) = Inr rows" "int (length rows) \<le> q ?key" "distinct (map cl_claim_id rows)"
    using claims_within_load [OF assms(3) [rule_format] assms(2) [rule_format], of ?key] by blast
  show ?thesis
    using assms(3) rows OpUnclaim filter_within [OF rows(2,3)]
    by (simp add: release_claim_def Let_def live_def)
qed

interpretation claim_machine: machine
  "\<lambda>d. (\<forall>key. 0 \<le> q key) \<and> (\<forall>key. d key = ClaimsAbsent)" "\<lambda>op d. sees_at_most q op" claim_step
  "\<lambda>d. (\<forall>key. 0 \<le> q key) \<and> (\<forall>key. claims_within (q key) (d key))" for q
  by unfold_locales (auto simp: claims_within_def [of _ ClaimsAbsent] dest: claim_step_within)

text \<open>C18: never more boots than jobs. Whatever lanes of a host acquire, refresh and release claims, in
  any order and with any crashes in between, the claims standing for a key never outnumber the
  queued jobs any of them saw, and no claim stands twice.\<close>

theorem claims_never_exceed_jobs:
  assumes "\<forall>key. d key = ClaimsAbsent" and "\<forall>key. 0 \<le> q key"
    and "legal_run (\<lambda>op d. sees_at_most q op) claim_step ops d"
  shows "\<forall>key. case fold claim_step ops d key of
      ClaimsStored rows \<Rightarrow> int (length rows) \<le> q key \<and> distinct (map cl_claim_id rows)
    | ClaimsAbsent \<Rightarrow> True
    | ClaimsInvalid \<Rightarrow> False"
proof -
  have "\<forall>key. claims_within (q key) (fold claim_step ops d key)"
    using claim_machine.run_safe [where q = q and s = d and ops = ops] assms by simp
  then show ?thesis by (simp add: claims_within_def)
qed

subsection \<open>Giving a claim back\<close>

text \<open>a claim taken and released leaves no trace. When every stored claim is live and the lane's
  claim is new, releasing after any answer of \<open>acquire\<close> gives back exactly the stored claims.\<close>

theorem claim_release_round_trip:
  assumes "acquire_claim h a d = (d', Inr reply)"
    and "load_claims (d (claim_key (ja_repo a) (ja_labels a))) = Inr rows"
    and "list_all (is_live h (utcnow h)) rows" and "ja_claim_id a \<notin> cl_claim_id ` set rows"
  shows "fst (release_claim h (ja_repo a) (ja_labels a) (ja_claim_id a) d')
    = d(claim_key (ja_repo a) (ja_labels a) := ClaimsStored rows)"
proof -
  obtain idle rows' where
    run: "decide_claim h a idle (peer_claims (ja_fleet_claims a) (claim_key (ja_repo a) (ja_labels a)) (ja_ttl a)) rows
       = (rows', reply)"
    and d': "d' = d(claim_key (ja_repo a) (ja_labels a) := ClaimsStored rows')"
    using assms(1,2) by (elim acquire_claim_Inr) simp
  have others: "other_claims h a rows = rows"
    using assms(3,4) by (force simp: other_claims_filter filter_id_conv list_all_iff)
  have "filter (\<lambda>r. cl_claim_id r \<noteq> ja_claim_id a) (live h (utcnow h) rows') = rows"
    using others decide_claim_verdict(4) [OF run]
    by (simp add: live_def claim_row_of_def) (simp add: other_claims_def live_def)
  then show ?thesis by (simp add: d' release_claim_def Let_def load_claims_def)
qed

subsection \<open>A claim on another host\<close>

lemma round_tenth_bounds: "0 \<le> t \<Longrightarrow> 0 \<le> round_tenth t \<and> round_tenth t \<le> t + 100000"
proof -
  assume t: "0 \<le> t"
  have "t div 100000 * 100000 \<le> t" using div_mult_mod_eq [of t 100000] pos_mod_sign [of 100000 t] by linarith
  moreover have "0 \<le> t div 100000" using t by simp
  ultimately show ?thesis by (auto simp: round_tenth_def Let_def distrib_right)
qed

lemma claim_row_live:
  assumes "0 < ja_pid a" and "pid_start h' (ja_pid a) = pid_start h (ja_pid a)" and "pid_start h (ja_pid a) \<noteq> []"
    and "utcnow h' < utcnow h + ja_ttl a * 1000000"
  shows "is_live h' (utcnow h') (claim_row_of h a)"
proof -
  have "squeeze (pid_start h (ja_pid a)) = pid_start h (ja_pid a)"
    by (simp add: pid_start_def split: option.split)
  with assms show ?thesis by (simp add: is_live_def owner_alive_def claim_row_of_def Let_def)
qed

lemma published_claim_booting:
  assumes "clock_range (utcnow h)" and "utcnow h \<le> utcnow h'" and "utcnow h' + 2000000 \<le> utcnow h + limit"
  shows "booting_vm key limit (Some (published_claim h' key (claim_row_of h a))) = Some (ja_vm a)"
proof -
  let ?t = "utcnow h' - (utcnow h - utcnow h mod 1000000)"
  have "0 \<le> ?t" "?t + 1000000 \<le> limit"
    using assms(2,3) pos_mod_sign [of 1000000 "utcnow h"] pos_mod_bound [of 1000000 "utcnow h"] by linarith+
  with round_tenth_bounds [of ?t] have "0 \<le> round_tenth ?t" "round_tenth ?t \<le> limit" by linarith+
  moreover have "parse_utc (cl_created_at (claim_row_of h a)) = Some (utcnow h - utcnow h mod 1000000)"
    using parse_utc_iso [OF assms(1)] by (simp add: claim_row_of_def)
  ultimately show ?thesis
    by (simp add: booting_vm_def published_claim_def) (simp add: claim_row_of_def)
qed

lemma published_age_limit:
  "age_limit ttl (published_status host profile h keys d)
     = 1000000 * (case declared_max_age profile of None \<Rightarrow> 900 | Some secs \<Rightarrow> min secs ttl)"
  by (auto simp: age_limit_def published_status_def declared_max_age_def DEFAULT_REMOTE_MAX_AGE_SECS_def min_def
      split: pyval.splits)

lemma status_publishes:
  assumes "load_claims (d key) = Inr rows" and "row \<in> set rows" and "is_live h (utcnow h) row" and "key \<in> set keys"
  shows "published_claim h key row \<in> set (claim_status h keys d)"
  using assms by (auto simp: claim_status_def live_def intro!: bexI [of _ key])

lemma in_map_filter: "x \<in> set xs \<Longrightarrow> f x = Some y \<Longrightarrow> y \<in> set (List.map_filter f xs)"
  by (force simp: List.map_filter_def)

lemma peer_claims_booting:
  assumes "Some peer \<in> set rows" and "pr_claims peer = Some cs" and "c \<in> set cs"
    and "booting_vm key (age_limit ttl peer) c = Some vm"
  shows "vm \<in> set (pv_booting (peer_claims (LinesOf rows) key ttl))"
proof -
  have "peer \<in> set (List.map_filter id rows)" using assms(1) by (intro in_map_filter) simp_all
  moreover have "vm \<in> set (List.map_filter (booting_vm key (age_limit ttl peer)) cs)"
    using assms(3,4) by (rule in_map_filter)
  ultimately show ?thesis using assms(2) by (auto simp: peer_claims_def Let_def intro!: bexI [of _ peer])
qed

lemma booting_elsewhere_stands:
  assumes "decide_claim h a idle peers rows = (rows', reply)" and "vm \<in> set (pv_booting peers)" and "vm \<noteq> ja_vm a"
  shows "1 \<le> cr_standing_claims reply"
proof -
  let ?others = "other_claims h a rows"
  note v = decide_claim_verdict [OF assms(1)]
  consider "vm \<in> cl_vm ` set ?others" | "vm \<in> set (cr_fleet_idle_runners reply)"
    | "vm \<in> set (cr_fleet_booting reply)"
    using assms(2,3) v(6) by (auto simp: remote_booting_def)
  then have "0 < length ?others + length (cr_fleet_idle_runners reply) + length (cr_fleet_booting reply)"
    by cases (auto simp: length_greater_0_conv [symmetric] simp del: length_greater_0_conv dest!: length_pos_if_in_set)
  then show ?thesis using v(3) by linarith
qed

text \<open>C34: a published claim counts on other hosts. Suppose a lane took the boot claim of a job, its
  supervisor still runs and the claim's own time to live has not passed when its host publishes its
  claims. Then a lane of another host that reads that publication, for the same repository and labels
  and with one job queued, is not granted a claim for its own, different VM, as long as the publication was
  taken at least two seconds (the cut and the rounding of the timestamps) before the claim reached the
  age the reader honours: the one the publishing host declares, at most the reader's time to live, or
  fifteen minutes when it declares none.\<close>

theorem published_claim_counts_elsewhere:
  fixes host :: string and profile :: pydict and h' :: host and keys :: "string list" and d' :: claim_dir
  defines "peer \<equiv> published_status host profile h' keys d'"
  assumes "acquire_claim h a d = (d', Inr reply)" and "cr_verdict reply = Claimed"
    and "clock_range (utcnow h)" and "utcnow h \<le> utcnow h'" and "utcnow h' + 2000000 \<le> utcnow h
          + 1000000 * (case declared_max_age profile of None \<Rightarrow> 900 | Some secs \<Rightarrow> min secs (ja_ttl b))"
    and "utcnow h' < utcnow h + ja_ttl a * 1000000"
    and "0 < ja_pid a" and "pid_start h' (ja_pid a) = pid_start h (ja_pid a)" and "pid_start h (ja_pid a) \<noteq> []"
    and "claim_key (ja_repo a) (ja_labels a) \<in> set keys"
    and "acquire_claim h2 b d2 = (d2', Inr reply2)"
    and "claim_key (ja_repo b) (ja_labels b) = claim_key (ja_repo a) (ja_labels a)"
    and "ja_fleet_claims b = LinesOf peers" and "Some peer \<in> set peers" and "ja_queued b = 1" and "ja_vm b \<noteq> ja_vm a"
  shows "cr_verdict reply2 \<noteq> Claimed"
proof -
  let ?key = "claim_key (ja_repo a) (ja_labels a)" and ?row = "claim_row_of h a"
  obtain idle rows rows' where run: "decide_claim h a idle (peer_claims (ja_fleet_claims a) ?key (ja_ttl a)) rows = (rows', reply)"
    and d': "d' = d(?key := ClaimsStored rows')"
    using assms(2) by (rule acquire_claim_Inr)
  have "?row \<in> set rows'" using decide_claim_verdict(4) [OF run] assms(3) by simp
  then have listed: "published_claim h' ?key ?row \<in> set (claim_status h' keys d')"
    using claim_row_live [OF assms(8,9,10,7)] assms(11) by (intro status_publishes) (auto simp: d' load_claims_def)
  have young: "booting_vm ?key (age_limit (ja_ttl b) peer) (Some (published_claim h' ?key ?row)) = Some (ja_vm a)"
    using assms(4-6) by (intro published_claim_booting) (simp_all add: assms(1) published_age_limit)
  have published: "pr_claims peer = Some (map Some (claim_status h' keys d'))"
    by (simp add: assms(1) published_status_def)
  have boots: "ja_vm a \<in> set (pv_booting (peer_claims (ja_fleet_claims b) ?key (ja_ttl b)))"
    unfolding assms(14) by (rule peer_claims_booting [OF assms(15) published _ young]) (simp add: listed)
  obtain idle2 rows2 rows2' where
    "decide_claim h2 b idle2 (peer_claims (ja_fleet_claims b) (claim_key (ja_repo b) (ja_labels b)) (ja_ttl b)) rows2
       = (rows2', reply2)"
    using assms(12) by (rule acquire_claim_Inr)
  then show ?thesis
    using booting_elsewhere_stands [of h2 b idle2 _ rows2 rows2' reply2 "ja_vm a"] decide_claim_verdict(1)
      boots assms(13,16,17) by fastforce
qed

subsection \<open>At concrete lanes\<close>

definition lanes_host :: "int \<Rightarrow> host" where
  "lanes_host secs =
     \<lparr>utcnow = secs * 1000000,
      ps_lstart = (\<lambda>pid. if pid = 100 \<or> pid = 200 then Some ''Thu Oct  1 10:00:00 2026'' else None),
      kill0 = (\<lambda>pid. KillDelivered), kill0_again = (\<lambda>pid. KillDelivered), sysctl_boottime = None,
      proc_boot_id = None, proc_stat = None, os_getpgid = Some, os_getsid = Some, tart_list = TartAbsent\<rparr>"

definition lane_claim :: "string \<Rightarrow> int \<Rightarrow> peer_row lines_file \<Rightarrow> claim_args" where
  "lane_claim vm pid peers =
     \<lparr>ja_repo = ''danielraffel/pulp'', ja_labels = ''macos,gate'', ja_claim_id = vm, ja_lane = vm, ja_vm = vm,
      ja_pid = pid, ja_queued = 1, ja_lower_bound = False, ja_ttl = 1800, ja_fleet_runners = NoPath,
      ja_fleet_claims = peers\<rparr>"

definition lane_key :: string where
  "lane_key = claim_key ''danielraffel/pulp'' ''macos,gate''"

definition no_claims :: claim_dir where
  "no_claims = (\<lambda>key. ClaimsAbsent)"

lemma first_claim:
  "\<exists>d' reply. acquire_claim (lanes_host s) (lane_claim ''vm1'' 100 NoPath) no_claims = (d', Inr reply)
     \<and> cr_verdict reply = Claimed"
  by (simp add: acquire_claim_def lane_claim_def fleet_idle_names_def no_claims_def load_claims_def
      decide_claim_def Let_def other_claims_def live_def remote_idle_def remote_booting_def peer_claims_def)

theorem claim_granted_exactly_witness:
  "\<exists>d' reply. acquire_claim (lanes_host 0) (lane_claim ''vm1'' 100 NoPath) no_claims = (d', Inr reply)
     \<and> cr_standing_claims reply < 1 \<and> d' ''other'' = (if ''other'' = lane_key then d' lane_key else ClaimsAbsent)"
proof -
  obtain d' reply where run: "acquire_claim (lanes_host 0) (lane_claim ''vm1'' 100 NoPath) no_claims = (d', Inr reply)"
    and v: "cr_verdict reply = Claimed" using first_claim by blast
  from claim_granted_exactly [OF run] v have "cr_standing_claims reply < 1"
    "\<forall>key. key \<noteq> lane_key \<longrightarrow> d' key = no_claims key"
    by (auto simp: lane_claim_def lane_key_def)
  with run show ?thesis by (auto simp: no_claims_def)
qed

theorem claims_never_exceed_jobs_witness:
  "case fold claim_step [OpClaim (lanes_host 10) (lane_claim ''vm1'' 100 NoPath),
       OpClaim (lanes_host 20) (lane_claim ''vm2'' 200 NoPath)] no_claims lane_key of
     ClaimsStored rows \<Rightarrow> int (length rows) \<le> 1 \<and> distinct (map cl_claim_id rows)
   | ClaimsAbsent \<Rightarrow> True
   | ClaimsInvalid \<Rightarrow> False"
  using claims_never_exceed_jobs [of no_claims "\<lambda>key. 1"
      "[OpClaim (lanes_host 10) (lane_claim ''vm1'' 100 NoPath), OpClaim (lanes_host 20) (lane_claim ''vm2'' 200 NoPath)]"]
  by (simp add: no_claims_def lane_claim_def del: claim_step.simps)

definition standing_row :: claim_row where
  "standing_row = claim_row_of (lanes_host 0) (lane_claim ''vm2'' 200 NoPath)"

lemma standing_row_live: "is_live (lanes_host 5) (utcnow (lanes_host 5)) standing_row"
  unfolding standing_row_def
  by (rule claim_row_live) (simp_all add: lanes_host_def lane_claim_def pid_start_def squeeze_def split_ws_def is_space_def)

theorem claim_release_round_trip_witness:
  "\<exists>d'. fst (acquire_claim (lanes_host 5) (lane_claim ''vm1'' 100 NoPath)
         (no_claims(lane_key := ClaimsStored [standing_row]))) = d'
     \<and> fst (release_claim (lanes_host 5) ''danielraffel/pulp'' ''macos,gate'' ''vm1'' d')
         = no_claims(lane_key := ClaimsStored [standing_row])"
proof -
  let ?a = "lane_claim ''vm1'' 100 NoPath" and ?d = "no_claims(lane_key := ClaimsStored [standing_row])"
  have a: "ja_repo ?a = ''danielraffel/pulp''" "ja_labels ?a = ''macos,gate''" "ja_claim_id ?a = ''vm1''"
    by (simp_all add: lane_claim_def)
  have rows: "load_claims (?d (claim_key (ja_repo ?a) (ja_labels ?a))) = Inr [standing_row]"
    by (simp add: a lane_key_def load_claims_def)
  have "0 \<le> ja_queued ?a" "0 < ja_ttl ?a" "fleet_idle_names (ja_fleet_runners ?a) (ja_labels ?a) = Inr []"
    by (simp_all add: lane_claim_def fleet_idle_names_def)
  then obtain d' reply where run: "acquire_claim (lanes_host 5) ?a ?d = (d', Inr reply)"
    using acquire_claim_answers [of ?a "[]" ?d "[standing_row]" "lanes_host 5"] rows by blast
  have "fst (release_claim (lanes_host 5) (ja_repo ?a) (ja_labels ?a) (ja_claim_id ?a) d')
      = ?d(claim_key (ja_repo ?a) (ja_labels ?a) := ClaimsStored [standing_row])"
    by (rule claim_release_round_trip [OF run rows])
      (simp_all add: standing_row_live a, simp add: standing_row_def claim_row_of_def lane_claim_def)
  then show ?thesis using run by (simp add: a lane_key_def)
qed

definition slow_boots :: pydict where
  "slow_boots = [''job_claim_max_age_seconds'' \<mapsto> PInt 1500]"

theorem published_claim_counts_elsewhere_witness:
  "\<exists>d1 reply1 d2 reply2. acquire_claim (lanes_host 1000) (lane_claim ''vm1'' 100 NoPath) no_claims = (d1, Inr reply1)
     \<and> acquire_claim (lanes_host 2300)
         (lane_claim ''vm2'' 200 (LinesOf [Some (published_status ''m3'' slow_boots (lanes_host 2200) [lane_key] d1)])) no_claims
       = (d2, Inr reply2)
     \<and> cr_verdict reply2 \<noteq> Claimed"
proof -
  obtain d1 reply1 where first: "acquire_claim (lanes_host 1000) (lane_claim ''vm1'' 100 NoPath) no_claims = (d1, Inr reply1)"
    and v: "cr_verdict reply1 = Claimed" using first_claim by blast
  let ?peer = "published_status ''m3'' slow_boots (lanes_host 2200) [lane_key] d1"
  let ?b = "lane_claim ''vm2'' 200 (LinesOf [Some ?peer])"
  have "\<exists>d2 reply2. acquire_claim (lanes_host 2300) ?b no_claims = (d2, Inr reply2)"
    by (rule acquire_claim_answers [where idle = "[]" and rows = "[]"])
      (simp_all add: lane_claim_def fleet_idle_names_def no_claims_def load_claims_def)
  then obtain d2 reply2 where second: "acquire_claim (lanes_host 2300) ?b no_claims = (d2, Inr reply2)" by blast
  have peers: "ja_fleet_claims ?b = LinesOf [Some ?peer]" "Some ?peer \<in> set [Some ?peer]"
    by (simp_all add: lane_claim_def)
  have limit: "declared_max_age slow_boots = Some 1500"
    by (simp add: declared_max_age_def slow_boots_def dget_def)
  have "cr_verdict reply2 \<noteq> Claimed"
    by (rule published_claim_counts_elsewhere [OF first v _ _ _ _ _ _ _ _ second _ peers])
      (simp_all add: limit lane_key_def lane_claim_def lanes_host_def clock_range_def pid_start_def
        squeeze_def split_ws_def is_space_def)
  with first second show ?thesis by blast
qed

end
