(* ===== verification/RunnerCensus.thy ===== *)
theory RunnerCensus
  imports Prelude
begin

section \<open>The census of GitHub runners\<close>

text \<open>
  \<open>scripts/runner_census.py\<close>: which self-hosted runners serve a repository. Both
  registration scopes are read, a scope that could not be read stays marked as
  unread, and a label that was not found answers unserved only when every scope
  that exists was read. The GitHub CLI is the parameter \<open>run_json\<close>: what the
  command answers under an environment. An API row is an object whose fields are
  scalars but for its labels, as the runner API documents it; an entry of a page
  that is not an object is \<open>None\<close>.
\<close>

subsection \<open>Repositories and endpoints\<close>

datatype runner_scope = RepositoryScope | OrganizationScope

definition scope_name :: "runner_scope \<Rightarrow> string" where
  "scope_name s = (case s of RepositoryScope \<Rightarrow> ''repository'' | OrganizationScope \<Rightarrow> ''organization'')"

definition SCOPES :: "runner_scope list" where
  "SCOPES = [RepositoryScope, OrganizationScope]"

definition is_alnum :: "char \<Rightarrow> bool" where
  "is_alnum c = (let n = (of_char c :: nat) in
     (48 \<le> n \<and> n \<le> 57) \<or> (65 \<le> n \<and> n \<le> 90) \<or> (97 \<le> n \<and> n \<le> 122))"

text \<open>\<open>text.split("/", 1)\<close>, when there is a slash.\<close>

definition cut_slash :: "string \<Rightarrow> (string \<times> string) option" where
  "cut_slash s = (let owner = takeWhile (\<lambda>c. c \<noteq> CHR ''/'') s in
     case drop (length owner) s of [] \<Rightarrow> None | _ # name \<Rightarrow> Some (owner, name))"

text \<open>The error text quotes the argument as \<open>repr\<close> does for a text without quotes, backslashes and
  control characters.\<close>

definition split_repo :: "string \<Rightarrow> (string \<times> string) result" where
  "split_repo repo = (case cut_slash (strip repo) of
     Some (owner, name) \<Rightarrow>
       if owner \<noteq> [] \<and> is_alnum (hd owner) \<and> list_all (\<lambda>c. is_alnum c \<or> c = CHR ''-'') owner
          \<and> name \<noteq> [] \<and> list_all (\<lambda>c. is_alnum c \<or> c \<in> set ''_.-'') name
       then Inr (owner, name)
       else Inl (ValueError (''expected OWNER/REPO, got '' @ [CHR 0x27] @ repo @ [CHR 0x27]))
   | None \<Rightarrow> Inl (ValueError (''expected OWNER/REPO, got '' @ [CHR 0x27] @ repo @ [CHR 0x27])))"

definition scope_endpoint :: "runner_scope \<Rightarrow> string \<Rightarrow> string result" where
  "scope_endpoint scope repo = rbind (split_repo repo) (\<lambda>(owner, name).
     Inr (case scope of
       RepositoryScope \<Rightarrow> ''repos/'' @ owner @ ''/'' @ name @ ''/actions/runners''
     | OrganizationScope \<Rightarrow> ''orgs/'' @ owner @ ''/actions/runners''))"

subsection \<open>The identity of the CLI\<close>

type_synonym environ = "string \<rightharpoonup> string"

definition IDENTITY_ENV_NAMES :: "string list" where
  "IDENTITY_ENV_NAMES = [''SHIPYARD_GHAPP_REPO'', ''GH_REPO'', ''SHIPYARD_GH_APP_REPO'']"

definition identity_env :: "string \<Rightarrow> (string \<times> string) list result" where
  "identity_env repo = rbind (split_repo repo) (\<lambda>_. Inr (map (\<lambda>name. (name, repo)) IDENTITY_ENV_NAMES))"

definition bind_identity :: "string \<Rightarrow> environ \<Rightarrow> ((string \<times> string option) list \<times> environ) result" where
  "bind_identity repo env = rbind (identity_env repo) (\<lambda>kvs.
     Inr (map (\<lambda>name. (name, env name)) IDENTITY_ENV_NAMES, foldl (\<lambda>e (k, v). e(k \<mapsto> v)) env kvs))"

definition restore_identity :: "(string \<times> string option) list \<Rightarrow> environ \<Rightarrow> environ" where
  "restore_identity saved env = foldl (\<lambda>e (k, v). e(k := v)) env saved"

subsection \<open>Naming a failure\<close>

definition is_word :: "char \<Rightarrow> bool" where
  "is_word c = (is_alnum c \<or> c = CHR ''_'')"

definition word_ends :: "string \<Rightarrow> bool" where
  "word_ends rest = (case rest of [] \<Rightarrow> True | c # _ \<Rightarrow> \<not> is_word c)"

text \<open>\<open>re.search\<close> of a pattern that is tried at every suffix; \<open>prev\<close> is the character before it.\<close>

fun search :: "(char option \<Rightarrow> string \<Rightarrow> bool) \<Rightarrow> char option \<Rightarrow> string \<Rightarrow> bool" where
  "search p prev [] = p prev []"
| "search p prev (c # cs) = (p prev (c # cs) \<or> search p (Some c) cs)"

text \<open>Groups of one to three digits, the last at a word boundary: \<open>\d{1,3}(?:\.\d{1,3}){n}\b\<close>.\<close>

fun dotted_at :: "nat \<Rightarrow> string \<Rightarrow> bool" where
  "dotted_at n s =
     (let ds = takeWhile is_digit s; rest = drop (length ds) s in
      1 \<le> length ds \<and> length ds \<le> 3 \<and>
      (case n of 0 \<Rightarrow> word_ends rest
       | Suc m \<Rightarrow> (case rest of c # cs \<Rightarrow> c = CHR ''.'' \<and> dotted_at m cs | [] \<Rightarrow> False)))"

declare dotted_at.simps [simp del]

definition anonymous_rate_limit :: "string \<Rightarrow> bool" where
  "anonymous_rate_limit text =
     (search (\<lambda>prev s. startswith s ''rate limit exceeded for ''
        \<and> dotted_at 3 (drop (length ''rate limit exceeded for '') s)) None text
      \<or> contains ''authenticated requests get a higher rate limit'' text)"

definition unauthenticated :: "string \<Rightarrow> bool" where
  "unauthenticated text = list_ex (\<lambda>needle. contains needle text)
     [''bad credentials'', ''requires authentication'', ''http 401'', ''401 unauthorized'',
      ''must authenticate'', ''gh auth login'', ''not logged in'']"

definition classify_census_failure :: "string \<Rightarrow> string \<Rightarrow> string \<Rightarrow> (string \<times> string) option" where
  "classify_census_failure text cli repo =
     (let message = strip text; excerpt = take 300 message; low = lower message;
          tick = ''`'' @ cli @ ''`'' in
      if anonymous_rate_limit low \<or> unauthenticated low
      then Some (''census_unauthenticated'',
        tick @ '' reached GitHub without a valid credential while reading runners for '' @ repo @
        '' (anonymous requests share one 60/hour allowance per IP across every host behind it). '' @
        ''Fix: run with TARTCI_GH_CLI=ghapp, or repair '' @ tick @ '' authentication. '' @
        ''This is not a capacity or permission problem. GitHub said: '' @ excerpt)
      else if contains ''resource not accessible by integration'' low
      then Some (''census_identity_lacks_access'',
        ''the GitHub App identity '' @ tick @ '' used, requested for '' @ repo @
        '', cannot read that scope'' @ [CHR 0x27] @ ''s runners. Check which installation '' @ tick @
        '' minted a token for: the census binds it to '' @ repo @ '' through '' @
        join ''/'' IDENTITY_ENV_NAMES @ '', and a token minted for another repository'' @ [CHR 0x27] @
        ''s installation is refused here even when '' @ repo @ [CHR 0x27] @
        ''s installation holds org runner read. GitHub said: '' @ excerpt)
      else None)"

subsection \<open>Rows and records\<close>

datatype label_entry = LabelObject pyval | LabelValue pyval

record api_row =
  ar_fields :: pydict
  ar_labels :: "label_entry list"

datatype page = PageObject "api_row option list" | PageRows "api_row option list" | PageOther

text \<open>What \<open>json.loads\<close> returns: an object with its \<open>runners\<close> and its \<open>type\<close>, the list of pages, or
  something else.\<close>

datatype payload = PayloadObject "api_row option list" pyval | PayloadPages "page list" | PayloadOther

definition objects :: "api_row option list \<Rightarrow> api_row list" where
  "objects rows = List.map_filter id rows"

definition extract_runners :: "payload \<Rightarrow> api_row list" where
  "extract_runners p = (case p of
     PayloadObject rows _ \<Rightarrow> objects rows
   | PayloadPages pages \<Rightarrow> concat (map (\<lambda>page. case page of
       PageObject rows \<Rightarrow> objects rows | PageRows rows \<Rightarrow> objects rows | PageOther \<Rightarrow> []) pages)
   | PayloadOther \<Rightarrow> [])"

record runner_record =
  rr_id :: pyval
  rr_name :: string
  rr_status :: string
  rr_busy :: bool
  rr_labels :: "string list"
  rr_scope :: runner_scope
  rr_endpoint :: string
  rr_raw :: api_row

definition label_text :: "label_entry \<Rightarrow> string option" where
  "label_text entry = (case entry of
     LabelObject (PStr s) \<Rightarrow> if s \<noteq> [] then Some s else None
   | LabelValue (PStr s) \<Rightarrow> if s \<noteq> [] then Some s else None
   | _ \<Rightarrow> None)"

definition normalise :: "api_row \<Rightarrow> runner_scope \<Rightarrow> string \<Rightarrow> runner_record" where
  "normalise row scope endpoint =
     \<lparr>rr_id = dget (ar_fields row) ''id'', rr_name = text_field (ar_fields row) ''name'',
      rr_status = text_field (ar_fields row) ''status'', rr_busy = truthy (dget (ar_fields row) ''busy''),
      rr_labels = List.map_filter label_text (ar_labels row), rr_scope = scope,
      rr_endpoint = endpoint, rr_raw = row\<rparr>"

definition online :: "runner_record \<Rightarrow> bool" where
  "online r = (rr_status r = ''online'')"

definition carries :: "string \<Rightarrow> runner_record \<Rightarrow> bool" where
  "carries label r = (label \<in> set (rr_labels r))"

subsection \<open>The census\<close>

record scope_census =
  sc_scope :: runner_scope
  sc_endpoint :: string
  sc_reachable :: bool
  sc_error :: string
  sc_runners :: "runner_record list"
  sc_applicable :: bool

record census =
  cn_repo :: string
  cn_scopes :: "scope_census list"

definition same_key :: "runner_record \<Rightarrow> runner_record \<Rightarrow> bool" where
  "same_key r s = (rr_scope r = rr_scope s \<and> py_eq (rr_id r) (rr_id s))"

fun merged :: "runner_record list \<Rightarrow> runner_record list \<Rightarrow> runner_record list" where
  "merged seen [] = []"
| "merged seen (r # rs) =
     (if list_ex (same_key r) seen then merged seen rs else r # merged (r # seen) rs)"

definition runners :: "census \<Rightarrow> runner_record list" where
  "runners c = merged [] (concat (map sc_runners (cn_scopes c)))"

definition complete :: "census \<Rightarrow> bool" where
  "complete c = list_all (\<lambda>s. sc_reachable s \<or> \<not> sc_applicable s) (cn_scopes c)"

definition unreachable :: "census \<Rightarrow> scope_census list" where
  "unreachable c = filter (\<lambda>s. \<not> sc_reachable s \<and> sc_applicable s) (cn_scopes c)"

definition unreachable_detail :: "census \<Rightarrow> string" where
  "unreachable_detail c = join ''; '' (map (\<lambda>s.
     scope_name (sc_scope s) @ '' scope ('' @ sc_endpoint s @ ''): '' @
     (if sc_error s = [] then ''unreadable'' else sc_error s)) (unreachable c))"

text \<open>What reading one scope answers: the error the fetcher names, any other error as its type and
  text, or the rows.\<close>

datatype fetch_answer = FetchScopeError string string | FetchRaised string | FetchRows "api_row list"

record fetcher =
  fe_fetch :: "runner_scope \<Rightarrow> string \<Rightarrow> fetch_answer"
  fe_owner_type :: "(string \<Rightarrow> string option result) option"

definition is_not_found :: "string \<Rightarrow> bool" where
  "is_not_found error =
     (let low = lower error in
      contains ''http 404'' low
      \<or> search (\<lambda>prev s. \<not> (case prev of Some c \<Rightarrow> is_word c | None \<Rightarrow> False)
           \<and> startswith s ''404 not found'' \<and> word_ends (drop (length ''404 not found'') s)) None low)"

definition organization_scope_absent :: "fetcher \<Rightarrow> string \<Rightarrow> string \<Rightarrow> bool" where
  "organization_scope_absent fetch repo error =
     (if \<not> is_not_found error then False
      else (case fe_owner_type fetch of
        None \<Rightarrow> False
      | Some owner_type \<Rightarrow>
          (case rbind (split_repo repo) (\<lambda>(owner, _). owner_type owner) of
             Inr (Some t) \<Rightarrow> t = ''User'' | _ \<Rightarrow> False)))"

definition unread_scope :: "runner_scope \<Rightarrow> string \<Rightarrow> string \<Rightarrow> bool \<Rightarrow> scope_census" where
  "unread_scope scope endpoint error applicable =
     \<lparr>sc_scope = scope, sc_endpoint = endpoint, sc_reachable = False, sc_error = error,
      sc_runners = [], sc_applicable = applicable\<rparr>"

definition scope_error :: "string \<Rightarrow> string \<Rightarrow> string" where
  "scope_error code detail = (if detail = [] then code else code @ '': '' @ detail)"

definition read_scope :: "fetcher \<Rightarrow> string \<Rightarrow> string \<Rightarrow> runner_scope \<Rightarrow> scope_census result" where
  "read_scope fetch repo owner scope = rbind (scope_endpoint scope repo) (\<lambda>endpoint.
     Inr (case fe_fetch fetch scope endpoint of
       FetchScopeError code detail \<Rightarrow>
         (let error = scope_error code detail in
          if scope = OrganizationScope \<and> organization_scope_absent fetch repo error
          then unread_scope scope endpoint
            (''not applicable: '' @ owner @ '' is a user account, which has no organization runners'') False
          else unread_scope scope endpoint error True)
     | FetchRaised error \<Rightarrow> unread_scope scope endpoint error True
     | FetchRows rows \<Rightarrow>
         \<lparr>sc_scope = scope, sc_endpoint = endpoint, sc_reachable = True, sc_error = [],
          sc_runners = map (\<lambda>row. normalise row scope endpoint) rows, sc_applicable = True\<rparr>))"

text \<open>\<open>fetch_for\<close> gives the fetcher bound to a repository, a constant function for one that cannot
  bind.\<close>

definition collect :: "string \<Rightarrow> (string \<Rightarrow> fetcher) \<Rightarrow> census result" where
  "collect repo fetch_for = rbind (split_repo repo) (\<lambda>(owner, _).
     rbind (rtraverse (read_scope (fetch_for repo) repo owner) SCOPES)
       (\<lambda>scopes. Inr \<lparr>cn_repo = repo, cn_scopes = scopes\<rparr>))"

subsection \<open>The fetcher over the CLI\<close>

text \<open>What the CLI answers: an exception with its problem code (empty when it has none), its type
  and its text, or the parsed output.\<close>

datatype run_answer = RunRaised string string string | RunJson payload

definition under_identity :: "string option \<Rightarrow> environ \<Rightarrow> environ result" where
  "under_identity repo env = (case repo of
     None \<Rightarrow> Inr env
   | Some r \<Rightarrow> rbind (bind_identity r env) (\<lambda>(saved, bound). Inr bound))"

definition cli_fetch ::
  "string \<Rightarrow> (environ \<Rightarrow> string list \<Rightarrow> run_answer) \<Rightarrow> environ \<Rightarrow> string option
   \<Rightarrow> runner_scope \<Rightarrow> string \<Rightarrow> fetch_answer" where
  "cli_fetch cli run_json env repo scope endpoint =
     (case under_identity repo env of
        Inl (ValueError m) \<Rightarrow> FetchRaised (''ValueError: '' @ m)
      | Inl _ \<Rightarrow> FetchRaised ''ValueError''
      | Inr bound \<Rightarrow>
          (case run_json bound [cli, ''api'', endpoint @ ''?per_page=100'', ''--paginate'', ''--slurp''] of
             RunJson p \<Rightarrow> FetchRows (extract_runners p)
           | RunRaised problem_code kind text \<Rightarrow>
               (case classify_census_failure text cli (case repo of None \<Rightarrow> ''?'' | Some r \<Rightarrow> r) of
                  Some (code, message) \<Rightarrow> FetchScopeError code message
                | None \<Rightarrow> FetchScopeError (if problem_code = [] then kind else problem_code) text)))"

definition cli_owner_type ::
  "string \<Rightarrow> (environ \<Rightarrow> string list \<Rightarrow> run_answer) \<Rightarrow> environ \<Rightarrow> string option
   \<Rightarrow> string \<Rightarrow> string option result" where
  "cli_owner_type cli run_json env repo owner = rbind (under_identity repo env) (\<lambda>bound.
     case run_json bound [cli, ''api'', ''users/'' @ owner] of
       RunRaised _ _ text \<Rightarrow> Inl (RuntimeError text)
     | RunJson (PayloadObject _ (PStr t)) \<Rightarrow> Inr (Some t)
     | RunJson _ \<Rightarrow> Inr None)"

definition cli_fetcher ::
  "string \<Rightarrow> (environ \<Rightarrow> string list \<Rightarrow> run_answer) \<Rightarrow> environ \<Rightarrow> string \<Rightarrow> fetcher" where
  "cli_fetcher cli run_json env repo =
     \<lparr>fe_fetch = cli_fetch cli run_json env (Some repo),
      fe_owner_type = Some (cli_owner_type cli run_json env (Some repo))\<rparr>"

subsection \<open>The status of a label\<close>

datatype serving = Served | Unserved | Unknown

record label_result =
  lr_label :: string
  lr_status :: serving
  lr_online :: "runner_record list"
  lr_offline :: "runner_record list"
  lr_detail :: string

definition label_status :: "census \<Rightarrow> string \<Rightarrow> (runner_record \<Rightarrow> bool) \<Rightarrow> label_result" where
  "label_status c label exclude =
     (let rows = filter (\<lambda>r. carries label r \<and> \<not> exclude r) (runners c);
          up = filter online rows; down = filter (\<lambda>r. \<not> online r) rows;
          answer = (\<lambda>s detail. \<lparr>lr_label = label, lr_status = s, lr_online = up, lr_offline = down,
             lr_detail = detail\<rparr>)
      in if up \<noteq> [] then answer Served []
         else if \<not> complete c then answer Unknown (unreachable_detail c)
         else answer Unserved [])"

definition census_main_rc :: "census \<Rightarrow> int" where
  "census_main_rc c = (if complete c then 0 else 4)"

subsection \<open>What the census promises\<close>

lemma merged_subset: "set (merged seen rs) \<subseteq> set rs"
  by (induction rs arbitrary: seen) auto

lemma same_key_refl [simp]: "same_key r r"
  by (simp add: same_key_def)

text \<open>A row is dropped only for one of the same registration that came before it.\<close>

lemma merged_covers:
  "r \<in> set rs \<Longrightarrow> r \<in> set (merged seen rs) \<or> (\<exists>s \<in> set seen \<union> set (merged seen rs). same_key r s)"
proof (induction rs arbitrary: seen)
  case (Cons x rs)
  show ?case
  proof (cases "list_ex (same_key x) seen")
    case True
    with Cons show ?thesis by (auto simp: list_ex_iff)
  next
    case False
    show ?thesis
    proof (cases "r = x")
      case True
      with False show ?thesis by simp
    next
      case other: False
      with Cons.prems have "r \<in> set (merged (x # seen) rs)
          \<or> (\<exists>s \<in> set (x # seen) \<union> set (merged (x # seen) rs). same_key r s)"
        by (intro Cons.IH) simp
      with False show ?thesis by (simp only: merged.simps if_False) auto
    qed
  qed
qed simp

lemma merged_seen: "s \<in> set seen \<Longrightarrow> r \<in> set (merged seen rs) \<Longrightarrow> \<not> same_key r s"
proof (induction rs arbitrary: seen)
  case (Cons x rs)
  then show ?case
    using Cons.IH [of seen] Cons.IH [of "x # seen"]
    by (cases "list_ex (same_key x) seen") (auto simp: list_ex_iff)
qed simp

lemma merged_distinct: "distinct (merged seen rs)"
proof (induction rs arbitrary: seen)
  case (Cons x rs)
  have "x \<notin> set (merged (x # seen) rs)"
    using merged_seen [of x "x # seen" x rs] by auto
  with Cons show ?case by simp
qed simp

lemma collect_scopes:
  assumes "collect repo fetch_for = Inr c"
  obtains owner name where "split_repo repo = Inr (owner, name)"
    "list_all2 (\<lambda>scope sc. read_scope (fetch_for repo) repo owner scope = Inr sc) SCOPES (cn_scopes c)"
  using assms by (auto simp: collect_def rbind_eq_Inr dest!: rtraverse_Inr)

lemma collect_scope:
  assumes "collect repo fetch_for = Inr c"
  shows "\<exists>sc owner. sc \<in> set (cn_scopes c) \<and> read_scope (fetch_for repo) repo owner scope = Inr sc"
proof -
  obtain owner name where
    "list_all2 (\<lambda>scope sc. read_scope (fetch_for repo) repo owner scope = Inr sc) SCOPES (cn_scopes c)"
    using collect_scopes [OF assms] by metis
  then show ?thesis
    by (cases scope) (auto simp: SCOPES_def list_all2_Cons1)
qed

text \<open>What one scope of a complete census shows: its rows were read, or it is the organization scope
  of an owner the CLI confirms to be a user.\<close>

lemma read_scope_complete:
  assumes "read_scope fetch repo owner scope = Inr sc" and "sc_reachable sc \<or> \<not> sc_applicable sc"
    and "scope_endpoint scope repo = Inr endpoint"
  shows "(\<exists>rows. fe_fetch fetch scope endpoint = FetchRows rows
           \<and> sc_runners sc = map (\<lambda>row. normalise row scope endpoint) rows)
       \<or> scope = OrganizationScope \<and> (\<exists>code detail. fe_fetch fetch scope endpoint = FetchScopeError code detail
           \<and> organization_scope_absent fetch repo (scope_error code detail))"
  using assms
  by (auto simp: read_scope_def unread_scope_def Let_def split: fetch_answer.splits if_splits)

text \<open>C20: a label answers unserved only when nobody could serve it. If the status of a label is
  unserved, then every scope was read, the organization scope of a confirmed user account apart,
  and a row of a scope that is online, carries the label and is not excluded can only repeat
  another row of the same registration. A failed read of a scope never ends in this answer.\<close>

theorem unserved_only_when_all_read:
  assumes "collect repo fetch_for = Inr c" and "lr_status (label_status c label exclude) = Unserved"
    and "scope_endpoint scope repo = Inr endpoint"
  shows "(\<exists>rows. fe_fetch (fetch_for repo) scope endpoint = FetchRows rows
       \<and> (\<forall>row \<in> set rows. let r = normalise row scope endpoint in
            online r \<longrightarrow> carries label r \<longrightarrow> \<not> exclude r \<longrightarrow>
            (\<exists>r' \<in> set (runners c). r' \<noteq> r \<and> same_key r r')))
     \<or> scope = OrganizationScope \<and> (\<exists>code detail. fe_fetch (fetch_for repo) scope endpoint = FetchScopeError code detail
         \<and> organization_scope_absent (fetch_for repo) repo (scope_error code detail))"
proof -
  obtain sc owner where sc: "sc \<in> set (cn_scopes c)" "read_scope (fetch_for repo) repo owner scope = Inr sc"
    using collect_scope [OF assms(1)] by blast
  have none: "complete c" "\<not> (\<exists>r \<in> set (runners c). online r \<and> carries label r \<and> \<not> exclude r)"
    using assms(2) by (auto simp: label_status_def Let_def filter_empty_conv split: if_splits)
  then have sc_ok: "sc_reachable sc \<or> \<not> sc_applicable sc" using sc(1) by (auto simp: complete_def list_all_iff)
  have "\<exists>r' \<in> set (runners c). r' \<noteq> r \<and> same_key r r'"
    if "r \<in> set (sc_runners sc)" "online r" "carries label r" "\<not> exclude r" for r
  proof -
    have "r \<notin> set (runners c)" using none(2) that by blast
    have "r \<in> set (concat (map sc_runners (cn_scopes c)))" using that(1) sc(1) by auto
    then have "r \<in> set (runners c) \<or> (\<exists>s \<in> set (runners c). same_key r s)"
      using merged_covers [of r _ "[]"] by (fastforce simp: runners_def)
    with \<open>r \<notin> set (runners c)\<close> show ?thesis by metis
  qed
  with read_scope_complete [OF sc(2) sc_ok assms(3)] show ?thesis by (auto simp: Let_def)
qed

text \<open>a call under the repository's identity leaves the environment as it was, and during the
  call every name a wrapper reads its installation from is bound to the queried repository.\<close>

theorem identity_round_trip:
  assumes "bind_identity repo env = Inr (saved, bound)"
  shows "restore_identity saved bound = env
    \<and> (\<forall>name. bound name = (if name \<in> set IDENTITY_ENV_NAMES then Some repo else env name))"
  using assms
  by (auto simp: bind_identity_def identity_env_def rbind_eq_Inr restore_identity_def IDENTITY_ENV_NAMES_def)

text \<open>A repository of a user account whose organization scope is the expected 404 and whose own
  runners are one online lane.\<close>

definition user_row :: api_row where
  "user_row = \<lparr>ar_fields = [''id'' \<mapsto> PInt 7, ''name'' \<mapsto> PStr ''studio-gate-01'', ''status'' \<mapsto> PStr ''online''],
     ar_labels = [LabelObject (PStr ''macOS'')]\<rparr>"

definition user_cli :: "environ \<Rightarrow> string list \<Rightarrow> run_answer" where
  "user_cli env argv =
     (if last argv = ''users/dan'' then RunJson (PayloadObject [] (PStr ''User''))
      else if env ''GH_REPO'' = Some ''dan/pulp'' \<and> argv ! 2 = ''repos/dan/pulp/actions/runners?per_page=100''
      then RunJson (PayloadPages [PageObject [Some user_row, None]])
      else RunRaised [] ''RuntimeError'' ''gh: Not Found (HTTP 404)'')"

definition user_census :: census where
  "user_census = \<lparr>cn_repo = ''dan/pulp'', cn_scopes =
     [\<lparr>sc_scope = RepositoryScope, sc_endpoint = ''repos/dan/pulp/actions/runners'', sc_reachable = True,
       sc_error = [], sc_runners = [normalise user_row RepositoryScope ''repos/dan/pulp/actions/runners''],
       sc_applicable = True\<rparr>,
      unread_scope OrganizationScope ''orgs/dan/actions/runners''
        ''not applicable: dan is a user account, which has no organization runners'' False]\<rparr>"

lemma user_repo: "split_repo ''dan/pulp'' = Inr (''dan'', ''pulp'')"
  by code_simp

lemma user_rows: "extract_runners (PayloadPages [PageObject [Some user_row, None]]) = [user_row]"
  by (simp add: extract_runners_def objects_def List.map_filter_def)

lemma user_fetch:
  "fe_fetch (cli_fetcher ''gh'' user_cli Map.empty ''dan/pulp'') RepositoryScope ''repos/dan/pulp/actions/runners''
     = FetchRows [user_row]"
  "fe_fetch (cli_fetcher ''gh'' user_cli Map.empty ''dan/pulp'') OrganizationScope ''orgs/dan/actions/runners''
     = FetchScopeError ''RuntimeError'' ''gh: Not Found (HTTP 404)''"
proof -
  have "classify_census_failure ''gh: Not Found (HTTP 404)'' ''gh'' ''dan/pulp'' = None" by code_simp
  then show "fe_fetch (cli_fetcher ''gh'' user_cli Map.empty ''dan/pulp'') OrganizationScope ''orgs/dan/actions/runners''
     = FetchScopeError ''RuntimeError'' ''gh: Not Found (HTTP 404)''"
    by (simp add: cli_fetcher_def cli_fetch_def under_identity_def bind_identity_def identity_env_def
        IDENTITY_ENV_NAMES_def user_cli_def user_repo)
qed (simp add: cli_fetcher_def cli_fetch_def under_identity_def bind_identity_def identity_env_def
        IDENTITY_ENV_NAMES_def user_cli_def user_repo user_rows)

lemma user_census: "collect ''dan/pulp'' (cli_fetcher ''gh'' user_cli Map.empty) = Inr user_census"
proof -
  have "is_not_found (scope_error ''RuntimeError'' ''gh: Not Found (HTTP 404)'')" by code_simp
  then have "organization_scope_absent (cli_fetcher ''gh'' user_cli Map.empty ''dan/pulp'') ''dan/pulp''
      (scope_error ''RuntimeError'' ''gh: Not Found (HTTP 404)'')"
    by (simp add: organization_scope_absent_def cli_fetcher_def cli_owner_type_def under_identity_def
        bind_identity_def identity_env_def IDENTITY_ENV_NAMES_def user_cli_def user_repo)
  then show ?thesis
    by (simp add: collect_def SCOPES_def read_scope_def scope_endpoint_def user_repo user_fetch user_census_def)
qed

theorem unserved_only_when_all_read_witness:
  "lr_status (label_status user_census ''macOS'' (\<lambda>r. False)) = Served
   \<and> lr_status (label_status user_census ''Windows'' (\<lambda>r. False)) = Unserved
   \<and> (\<exists>rows. fe_fetch (cli_fetcher ''gh'' user_cli Map.empty ''dan/pulp'') RepositoryScope
        ''repos/dan/pulp/actions/runners'' = FetchRows rows)"
proof -
  have un: "lr_status (label_status user_census ''Windows'' (\<lambda>r. False)) = Unserved"
    and up: "lr_status (label_status user_census ''macOS'' (\<lambda>r. False)) = Served"
    and ep: "scope_endpoint RepositoryScope ''dan/pulp'' = Inr ''repos/dan/pulp/actions/runners''"
    by code_simp+
  show ?thesis
    using unserved_only_when_all_read [OF user_census un ep] un up by auto
qed

theorem identity_round_trip_witness:
  "restore_identity [(''SHIPYARD_GHAPP_REPO'', None), (''GH_REPO'', Some ''x/y''), (''SHIPYARD_GH_APP_REPO'', None)]
     [''GH_REPO'' \<mapsto> ''dan/pulp'', ''SHIPYARD_GHAPP_REPO'' \<mapsto> ''dan/pulp'', ''SHIPYARD_GH_APP_REPO'' \<mapsto> ''dan/pulp'']
   = [''GH_REPO'' \<mapsto> ''x/y'']"
proof -
  have "bind_identity ''dan/pulp'' [''GH_REPO'' \<mapsto> ''x/y''] = Inr
      ([(''SHIPYARD_GHAPP_REPO'', None), (''GH_REPO'', Some ''x/y''), (''SHIPYARD_GH_APP_REPO'', None)],
       [''GH_REPO'' \<mapsto> ''dan/pulp'', ''SHIPYARD_GHAPP_REPO'' \<mapsto> ''dan/pulp'', ''SHIPYARD_GH_APP_REPO'' \<mapsto> ''dan/pulp''])"
    by (auto simp: bind_identity_def identity_env_def IDENTITY_ENV_NAMES_def user_repo)
  from identity_round_trip [OF this] show ?thesis by simp
qed

end
