(* ===== verification/FleetLanes.thy ===== *)
theory FleetLanes
  imports RunnerCensus
begin

section \<open>Runner identities and the lanes a host runs\<close>

text \<open>
  \<open>scripts/macos_runner_identity.py\<close> derives the runner name and the state file of a
  macOS supervisor from its arguments and environment;
  \<open>scripts/fleet_lane_discovery.py\<close> reads the loaded lanes from launchd and derives
  the name prefixes of their VMs and the coverage a digest reports. A property list is
  its arguments and its environment, both of scalars. What the operating system
  answers (home directories, the working directory, \<open>launchctl list\<close>, the files) is a
  parameter.
\<close>

subsection \<open>Text and paths\<close>

definition is_lower_alnum :: "char \<Rightarrow> bool" where
  "is_lower_alnum c = (is_alnum c \<and> \<not> (65 \<le> (of_char c :: nat) \<and> (of_char c :: nat) \<le> 90))"

text \<open>\<open>re.sub(r"[^a-z0-9]+", "-", s)\<close>.\<close>

fun dashes :: "bool \<Rightarrow> string \<Rightarrow> string" where
  "dashes inside [] = []"
| "dashes inside (c # cs) =
     (if is_lower_alnum c then c # dashes False cs
      else if inside then dashes True cs else CHR ''-'' # dashes True cs)"

definition strip_dash :: "string \<Rightarrow> string" where
  "strip_dash s = rev (dropWhile (\<lambda>c. c = CHR ''-'') (rev (dropWhile (\<lambda>c. c = CHR ''-'') s)))"

definition slug :: "string \<Rightarrow> string" where
  "slug s = strip_dash (dashes False (lower s))"

record path_env =
  pe_home :: string
  pe_cwd :: string
  pe_user_home :: "string \<rightharpoonup> string"

definition rstrip_slash :: "string \<Rightarrow> string" where
  "rstrip_slash s = rev (dropWhile (\<lambda>c. c = CHR ''/'') (rev s))"

text \<open>\<open>os.path.expanduser\<close>: an unknown user leaves the path as it is.\<close>

definition expanduser :: "path_env \<Rightarrow> string \<Rightarrow> string" where
  "expanduser pe p = (case p of
     c # cs \<Rightarrow>
       if c \<noteq> CHR ''~'' then p
       else let user = takeWhile (\<lambda>c. c \<noteq> CHR ''/'') cs; rest = drop (length user) cs in
         (case (if user = [] then Some (pe_home pe) else pe_user_home pe user) of
            None \<Rightarrow> p
          | Some home \<Rightarrow> let q = rstrip_slash home @ rest in if q = [] then ''/'' else q)
   | [] \<Rightarrow> [])"

definition path_join :: "string \<Rightarrow> string \<Rightarrow> string" where
  "path_join a b = (if startswith b ''/'' then b
     else if a = [] \<or> endswith a ''/'' then a @ b else a @ ''/'' @ b)"

definition leading_slashes :: "string \<Rightarrow> string" where
  "leading_slashes p = (if \<not> startswith p ''/'' then []
     else if startswith p ''//'' \<and> \<not> startswith p ''///'' then ''//'' else ''/'')"

text \<open>One component of \<open>os.path.normpath\<close>; the stack has the last component first.\<close>

definition norm_step :: "bool \<Rightarrow> string list \<Rightarrow> string \<Rightarrow> string list" where
  "norm_step rooted stack part =
     (if part = [] \<or> part = ''.'' then stack
      else if part \<noteq> ''..'' \<or> (\<not> rooted \<and> stack = []) \<or> (stack \<noteq> [] \<and> hd stack = ''..'')
      then part # stack
      else (case stack of [] \<Rightarrow> [] | _ # below \<Rightarrow> below))"

definition normpath :: "string \<Rightarrow> string" where
  "normpath p = (if p = [] then ''.'' else
     let root = leading_slashes p;
         q = root @ join ''/'' (rev (foldl (norm_step (root \<noteq> [])) [] (split_on (CHR ''/'') p)))
     in if q = [] then ''.'' else q)"

definition abspath :: "path_env \<Rightarrow> string \<Rightarrow> string" where
  "abspath pe p = normpath (if startswith p ''/'' then p else path_join (pe_cwd pe) p)"

text \<open>\<open>text.replace("$HOME", home)\<close>.\<close>

function replace_home :: "string \<Rightarrow> string \<Rightarrow> string" where
  "replace_home home [] = []"
| "replace_home home (c # cs) =
     (if startswith (c # cs) ''$HOME'' then home @ replace_home home (drop 4 cs)
      else c # replace_home home cs)"
  by pat_completeness auto
termination by (relation "measure (\<lambda>(home, s). length s)") auto

text \<open>\<open>pathlib.Path(text)\<close> as its text, and its \<open>expanduser\<close>, which refuses an unknown user.\<close>

definition path_parts :: "string \<Rightarrow> string list" where
  "path_parts p = filter (\<lambda>c. c \<noteq> [] \<and> c \<noteq> ''.'') (split_on (CHR ''/'') p)"

definition path_text :: "string \<Rightarrow> string" where
  "path_text p = (let q = leading_slashes p @ join ''/'' (path_parts p) in if q = [] then ''.'' else q)"

definition path_expanduser :: "path_env \<Rightarrow> string \<Rightarrow> string result" where
  "path_expanduser pe p = (case path_parts p of
     first # rest \<Rightarrow>
       if leading_slashes p = [] \<and> startswith first ''~''
       then (let home = expanduser pe first in
             if startswith home ''~'' then Inl (RuntimeError ''Could not determine home directory.'')
             else Inr (path_text (join ''/'' (home # rest))))
       else Inr (path_text p)
   | [] \<Rightarrow> Inr (path_text p))"

subsection \<open>The identity of a supervisor\<close>

definition DEFAULT_LABELS :: string where
  "DEFAULT_LABELS = ''self-hosted,macOS,ARM64,pulp-build-vm''"

record runner_identity =
  ri_runner_name :: string
  ri_state_dir :: string
  ri_state_file :: string

fun argument :: "string list \<Rightarrow> string \<Rightarrow> string" where
  "argument [] flag = []"
| "argument (a # args) flag =
     (if a = flag then (case args of [] \<Rightarrow> [] | v # _ \<Rightarrow> v) else argument args flag)"

text \<open>\<open>f"{n:02d}"\<close> of a positive number.\<close>

definition two_digits :: "int \<Rightarrow> string" where
  "two_digits n = (if n < 10 then ''0'' @ int_str n else int_str n)"

definition label_classes :: "string \<Rightarrow> string list" where
  "label_classes labels = map (drop (length ''pulp-build-''))
     (filter (\<lambda>l. startswith l ''pulp-build-'' \<and> length l > 11) (split_on (CHR '','') labels))"

definition default_prefix :: "string \<Rightarrow> string \<Rightarrow> string" where
  "default_prefix labels hostname =
     ''pulp-'' @ (let classes = label_classes labels in if classes \<noteq> [] then last classes else slug hostname)"

definition slot_number :: "string \<Rightarrow> int option" where
  "slot_number slot = (if isdigit slot then int_of_string slot else None)"

definition derive_identity :: "path_env \<Rightarrow> string \<Rightarrow> string \<Rightarrow> string \<Rightarrow> string \<Rightarrow> string \<Rightarrow> string \<Rightarrow> string
    \<Rightarrow> runner_identity result" where
  "derive_identity pe name name_prefix slot labels state_dir home hostname =
     (case slot_number slot of
        None \<Rightarrow> Inl (ValueError ''runner slot must be a positive integer'')
      | Some n \<Rightarrow>
          if n < 1 then Inl (ValueError ''runner slot must be a positive integer'')
          else
          let labels' = (if labels = [] then DEFAULT_LABELS else labels);
              prefix = (if name_prefix = [] then default_prefix labels' hostname else name_prefix);
              resolved = (if name = [] then prefix @ ''-'' @ two_digits n else name);
              home' = (if home = [] then pe_home pe else home);
              dir = (if state_dir = [] then path_join home' ''.tartci/state/macos'' else state_dir);
              dir' = abspath pe (expanduser pe (replace_home home' dir))
          in Inr \<lparr>ri_runner_name = resolved, ri_state_dir = dir',
                 ri_state_file = path_join dir' (resolved @ ''.state.json'')\<rparr>)"

record plist =
  pl_args :: "pyval list"
  pl_env :: pydict

text \<open>\<open>argument(args, flag) or env.get(key) or env.get(key') or ...\<close>.\<close>

definition setting_of :: "plist \<Rightarrow> string \<Rightarrow> string list \<Rightarrow> string" where
  "setting_of p flag keys =
     (let given = argument (map py_str (pl_args p)) flag;
          found = filter (\<lambda>v. v \<noteq> []) (given # List.map_filter (\<lambda>k. map_option py_str (pl_env p k)) keys)
      in case found of [] \<Rightarrow> [] | v # _ \<Rightarrow> v)"

definition resolve_plist_identity :: "path_env \<Rightarrow> plist \<Rightarrow> string \<Rightarrow> runner_identity result" where
  "resolve_plist_identity pe p hostname =
     derive_identity pe
       (setting_of p ''--name'' [''TARTCI_RUNNER_NAME'', ''PULP_RUNNER_NAME''])
       (setting_of p ''--name-prefix'' [''TARTCI_RUNNER_NAME_PREFIX'', ''PULP_RUNNER_NAME_PREFIX''])
       (let slot = setting_of p ''--slot'' [''TARTCI_RUNNER_SLOT'', ''PULP_RUNNER_SLOT'']
        in if slot = [] then ''1'' else slot)
       (setting_of p ''--labels'' [''TARTCI_RUNNER_LABELS'', ''PULP_RUNNER_LABELS''])
       (setting_of p ''--state-dir'' [''TARTCI_STATE_DIR''])
       (case pl_env p ''HOME'' of None \<Rightarrow> pe_home pe | Some v \<Rightarrow> py_str v) hostname"

subsection \<open>Discovery\<close>

definition FLEET_LABEL_PREFIX :: string where
  "FLEET_LABEL_PREFIX = ''com.danielraffel.tartci.tart-runner-macos-fleet.''"

record lane =
  ln_label :: string
  ln_identity :: string
  ln_state_dir :: "string option"
  ln_runner_name :: string

definition listed_label :: "string \<Rightarrow> string option" where
  "listed_label row = (let parts = split_on (CHR 0x09) row in
     if length parts < 3 then None
     else let label = strip (parts ! 2) in
       if startswith label FLEET_LABEL_PREFIX then Some label else None)"

fun append_new :: "'a list \<Rightarrow> 'a list \<Rightarrow> 'a list" where
  "append_new acc [] = acc"
| "append_new acc (x # xs) = append_new (if x \<in> set acc then acc else acc @ [x]) xs"

definition fleet_labels :: "string list \<Rightarrow> string list" where
  "fleet_labels lines = append_new [] (List.map_filter listed_label lines)"

definition lane_identity :: "string \<Rightarrow> string" where
  "lane_identity label =
     (let identity = (if startswith label FLEET_LABEL_PREFIX
            then drop (length FLEET_LABEL_PREFIX) label else label);
          host = takeWhile (\<lambda>c. c \<noteq> CHR ''.'') identity
      in if length host < length identity then drop (Suc (length host)) identity else identity)"

definition lane_from_plist :: "path_env \<Rightarrow> string \<Rightarrow> string \<Rightarrow> plist \<Rightarrow> lane result" where
  "lane_from_plist pe hostname label p =
     rbind (case dget (pl_env p) ''TARTCI_STATE_DIR'' of
              PStr raw \<Rightarrow> if strip raw \<noteq> [] then rbind (path_expanduser pe raw) (\<lambda>d. Inr (Some d)) else Inr None
            | _ \<Rightarrow> Inr None) (\<lambda>state_dir.
       Inr \<lparr>ln_label = label, ln_identity = lane_identity label, ln_state_dir = state_dir,
           ln_runner_name = (case resolve_plist_identity pe p hostname of
             Inr identity \<Rightarrow> ri_runner_name identity
           | Inl _ \<Rightarrow> (case dget (pl_env p) ''TARTCI_RUNNER_NAME'' of PStr s \<Rightarrow> s | _ \<Rightarrow> []))\<rparr>)"

text \<open>What reading a property list gives: its contents; an error the code catches (the file cannot be
  read, or is no property list); or \<open>xml.parsers.expat.ExpatError\<close>, which \<open>plistlib\<close> raises for XML that
  is not well formed and which no handler names.\<close>

datatype plist_file = PlistRead plist | PlistUnreadable string | PlistMalformed string

definition expat_error :: "string \<Rightarrow> py_error" where
  "expat_error text = RuntimeError (''ExpatError: '' @ text)"

fun discover :: "path_env \<Rightarrow> string \<Rightarrow> (string \<Rightarrow> plist_file) \<Rightarrow> string list \<Rightarrow> (lane list \<times> string list) result" where
  "discover pe hostname plists [] = Inr ([], [])"
| "discover pe hostname plists (label # labels) =
     (case plists label of
        PlistMalformed text \<Rightarrow> Inl (expat_error text)
      | PlistUnreadable text \<Rightarrow> rbind (discover pe hostname plists labels) (\<lambda>(lanes, problems).
          Inr (lanes, (''lane_plist_unreadable:'' @ label @ '':'' @ text) # problems))
      | PlistRead p \<Rightarrow> rbind (lane_from_plist pe hostname label p) (\<lambda>lane.
          rbind (discover pe hostname plists labels) (\<lambda>(lanes, problems).
            Inr (lane # lanes, (if ln_state_dir lane = None then [''lane_state_dir_missing:'' @ label] else [])
              @ problems))))"

definition discover_lanes ::
  "path_env \<Rightarrow> string \<Rightarrow> (string \<Rightarrow> plist_file) \<Rightarrow> string list option \<Rightarrow> (lane list option \<times> string list) result" where
  "discover_lanes pe hostname plists listing = (case listing of
     None \<Rightarrow> Inr (None, [''launchctl_unreadable:cannot enumerate loaded fleet lanes''])
   | Some lines \<Rightarrow> rbind (discover pe hostname plists (fleet_labels lines)) (\<lambda>(lanes, problems).
       Inr (Some lanes, problems)))"

definition lane_state_dirs :: "lane list option \<Rightarrow> string list" where
  "lane_state_dirs lanes = (case lanes of None \<Rightarrow> []
   | Some ls \<Rightarrow> append_new [] (List.map_filter ln_state_dir ls))"

subsection \<open>Prefixes\<close>

text \<open>A trailing \<open>-<digits>\<close>: what stands before it and the digits.\<close>

definition number_suffix :: "string \<Rightarrow> (string \<times> string) option" where
  "number_suffix s =
     (let ds = takeWhile is_digit (rev s); rest = drop (length ds) (rev s) in
      case rest of c # before \<Rightarrow> if ds \<noteq> [] \<and> c = CHR ''-'' then Some (rev before, rev ds) else None
      | [] \<Rightarrow> None)"

text \<open>\<open>re.sub(r"-\d+(-\d+)?$", "", s)\<close>; the end may stand before a last newline.\<close>

definition drop_numbers :: "string \<Rightarrow> string" where
  "drop_numbers s = (case number_suffix s of
     None \<Rightarrow> s
   | Some (before, _) \<Rightarrow> (case number_suffix before of None \<Rightarrow> before | Some (stem, _) \<Rightarrow> stem))"

definition boot_stem :: "string \<Rightarrow> string" where
  "boot_stem s = (if s \<noteq> [] \<and> last s = CHR 0x0A then drop_numbers (butlast s) @ [CHR 0x0A] else drop_numbers s)"

definition runner_name_prefixes :: "lane list \<Rightarrow> string list" where
  "runner_name_prefixes lanes =
     append_new [] (map (\<lambda>candidate. let stem = boot_stem candidate in
         if endswith stem ''-'' then stem else stem @ ''-'')
       (filter (\<lambda>c. c \<noteq> []) (concat (map (\<lambda>l. [ln_runner_name l, ln_identity l @ ''-'']) lanes))))"

subsection \<open>Coverage\<close>

record coverage_of =
  cv_matched :: int
  cv_expected :: "int option"
  cv_source :: string

definition coverage :: "int \<Rightarrow> lane list option \<Rightarrow> string \<Rightarrow> coverage_of" where
  "coverage matched lanes source =
     \<lparr>cv_matched = matched, cv_expected = map_option (\<lambda>ls. int (length ls)) lanes, cv_source = source\<rparr>"

definition shortfall :: "coverage_of \<Rightarrow> bool" where
  "shortfall cov = (case cv_expected cov of None \<Rightarrow> False | Some n \<Rightarrow> cv_matched cov < n)"

definition coverage_problem :: "coverage_of \<Rightarrow> string option" where
  "coverage_problem cov = (case cv_expected cov of
     None \<Rightarrow> None
   | Some n \<Rightarrow> if \<not> shortfall cov then None
       else Some (''supervisor_coverage:'' @ int_str (cv_matched cov) @ ''/'' @ int_str n @
         '':matched fewer macOS fleet supervisors than '' @ cv_source cov @ '' reports loaded''))"

subsection \<open>Slots never share a name\<close>

lemma int_str_inj: "int_str a = int_str b \<Longrightarrow> a = b"
  by (metis int_of_string_int_str option.inject)

lemma nat_str_hd: "n > 0 \<Longrightarrow> hd (nat_str n) \<noteq> CHR ''0''"
proof (induction n rule: nat_str.induct)
  case (1 n)
  show ?case
  proof (cases "n < 10")
    case True
    have zero: "digit_val (CHR ''0'') = 0" by (simp add: digit_val_def)
    have "digit_char n \<noteq> CHR ''0''"
    proof
      assume "digit_char n = CHR ''0''"
      then have "digit_val (digit_char n) = 0" by (simp only: zero)
      with True 1(2) show False by simp
    qed
    then show ?thesis using True by (simp add: nat_str.simps [of n])
  next
    case False
    then have "hd (nat_str (n div 10)) \<noteq> CHR ''0''" by (intro 1(1)) auto
    then show ?thesis using False by (simp add: nat_str.simps [of n])
  qed
qed

lemma two_digits_inj:
  assumes "two_digits a = two_digits b" and "1 \<le> a" and "1 \<le> b"
  shows "a = b"
proof -
  have "int_str k \<noteq> CHR ''0'' # s" if "1 \<le> k" for k s
    using nat_str_hd [of "nat k"] that by (auto simp: int_str_def)
  from this [of a] this [of b] assms have "int_str a = int_str b"
    by (cases "a < 10"; cases "b < 10") (simp_all add: two_digits_def, metis)
  then show ?thesis by (rule int_str_inj)
qed

text \<open>two supervisors of a host that share prefix, labels and state directory but not the slot
  number have different runner names; whatever the settings, a slot that is not a positive number
  is refused.\<close>

theorem slots_have_distinct_names:
  assumes "derive_identity pe [] prefix slot labels dir home hostname = Inr a"
    and "derive_identity pe [] prefix slot' labels dir' home' hostname = Inr b"
    and "slot_number slot \<noteq> slot_number slot'"
  shows "ri_runner_name a \<noteq> ri_runner_name b"
proof -
  obtain n n' where n: "slot_number slot = Some n" "slot_number slot' = Some n'" "1 \<le> n" "1 \<le> n'"
    using assms(1,2) by (auto simp: derive_identity_def split: option.splits if_splits)
  obtain stem where "ri_runner_name a = stem @ ''-'' @ two_digits n" "ri_runner_name b = stem @ ''-'' @ two_digits n'"
    using assms(1,2) n by (auto simp: derive_identity_def Let_def)
  moreover have "two_digits n \<noteq> two_digits n'" using two_digits_inj [of n n'] n assms(3) by auto
  ultimately show ?thesis by simp
qed

subsection \<open>No loaded lane is lost\<close>

lemma append_new_set [simp]: "set (append_new acc xs) = set acc \<union> set xs"
  by (induction acc xs rule: append_new.induct) auto

lemma append_new_distinct: "distinct acc \<Longrightarrow> distinct (append_new acc xs)"
  by (induction acc xs rule: append_new.induct) auto

lemma lane_from_plist_label: "lane_from_plist pe hostname label p = Inr lane \<Longrightarrow> ln_label lane = label"
  by (auto simp: lane_from_plist_def rbind_eq_Inr)

lemma discover_labels:
  "discover pe hostname plists labels = Inr (lanes, problems) \<Longrightarrow>
     map ln_label lanes = filter (\<lambda>l. \<exists>p. plists l = PlistRead p) labels
     \<and> (\<forall>label \<in> set labels. label \<notin> ln_label ` set lanes \<longrightarrow>
          (\<exists>text. plists label = PlistUnreadable text
             \<and> ''lane_plist_unreadable:'' @ label @ '':'' @ text \<in> set problems))"
proof (induction labels arbitrary: lanes problems)
  case (Cons label labels)
  show ?case
  proof (cases "plists label")
    case (PlistUnreadable message)
    with Cons show ?thesis by (fastforce simp: rbind_eq_Inr)
  next
    case (PlistRead p)
    with Cons show ?thesis by (fastforce simp: rbind_eq_Inr dest: lane_from_plist_label)
  next
    case (PlistMalformed message)
    with Cons.prems show ?thesis by simp
  qed
qed simp

lemma malformed_stops_discover:
  "label \<in> set labels \<Longrightarrow> plists label = PlistMalformed text \<Longrightarrow> \<exists>err. discover pe hostname plists labels = Inl err"
proof (induction labels)
  case (Cons l labels)
  show ?case
  proof (cases "plists l")
    case (PlistMalformed message)
    then show ?thesis by simp
  next
    case (PlistUnreadable message)
    with Cons show ?thesis by (auto simp: rbind_def)
  next
    case (PlistRead p)
    with Cons show ?thesis by (cases "lane_from_plist pe hostname l p") (auto simp: rbind_def)
  qed
qed simp

text \<open>C24: every lane launchd has loaded is accounted for when discovery returns. It gives one lane per
  loaded fleet label whose property list was read, in launchd's order and none twice; every other
  loaded label has a problem that names it and the error; so a digest that matched fewer supervisors
  than there are lanes always carries a problem. (When the property list of one loaded label is
  malformed XML, discovery does not return: \<open>malformed_stops_discover\<close>.)\<close>

theorem no_loaded_lane_lost:
  assumes "discover_lanes pe hostname plists (Some lines) = Inr (Some lanes, problems)"
  shows "map ln_label lanes = filter (\<lambda>l. \<exists>p. plists l = PlistRead p) (fleet_labels lines)
     \<and> distinct (map ln_label lanes)
     \<and> (\<forall>label \<in> set (fleet_labels lines). label \<in> ln_label ` set lanes
          \<or> (\<exists>text. plists label = PlistUnreadable text
               \<and> ''lane_plist_unreadable:'' @ label @ '':'' @ text \<in> set problems))
     \<and> ((coverage_problem (coverage matched (Some lanes) source) \<noteq> None) = (matched < int (length lanes)))"
proof -
  have d: "discover pe hostname plists (fleet_labels lines) = Inr (lanes, problems)"
    using assms by (auto simp: discover_lanes_def rbind_eq_Inr)
  moreover have "distinct (map ln_label lanes)"
    using discover_labels [OF d] by (simp add: fleet_labels_def append_new_distinct)
  ultimately show ?thesis
    using discover_labels [OF d] by (auto simp: coverage_def coverage_problem_def shortfall_def)
qed

subsection \<open>The VMs of a lane\<close>

lemma number_suffix_split: "number_suffix s = Some (before, ds) \<Longrightarrow> s = before @ ''-'' @ ds"
proof -
  assume a: "number_suffix s = Some (before, ds)"
  let ?ds = "takeWhile is_digit (rev s)"
  obtain before' where "drop (length ?ds) (rev s) = CHR ''-'' # before'" "before = rev before'" "ds = rev ?ds"
    using a by (auto simp: number_suffix_def Let_def split: list.splits if_splits)
  moreover have "rev s = ?ds @ drop (length ?ds) (rev s)"
    by (metis dropWhile_eq_drop takeWhile_dropWhile_id)
  ultimately have "rev s = ?ds @ CHR ''-'' # rev before" "ds = rev ?ds" by simp_all
  then show ?thesis by (metis append_Cons append_Nil append_assoc rev.simps(2) rev_append rev_rev_ident)
qed

lemma startswith_append [simp]: "startswith (p @ s) p"
  by (simp add: startswith_def)

lemma number_suffix_prefix:
  "number_suffix s = Some (before, ds) \<Longrightarrow> startswith (s @ t) (before @ ''-'')"
  using number_suffix_split [of s before ds] by (simp add: startswith_def)

lemma drop_numbers_prefix: "startswith (s @ ''-'' @ t) (drop_numbers s @ ''-'')"
proof (cases "number_suffix s")
  case None
  then show ?thesis by (simp add: drop_numbers_def startswith_def)
next
  case (Some p)
  obtain before ds where p: "p = (before, ds)" by (cases p)
  note s = number_suffix_split [OF Some [unfolded p]]
  show ?thesis
  proof (cases "number_suffix before")
    case None
    with Some p show ?thesis by (simp add: drop_numbers_def s startswith_def)
  next
    case (Some q)
    obtain stem ds' where q: "q = (stem, ds')" by (cases q)
    note number_suffix_split [OF Some [unfolded q]]
    with Some q \<open>number_suffix s = Some p\<close> p show ?thesis by (simp add: drop_numbers_def s startswith_def)
  qed
qed

lemma startswith_butlast: "startswith s (p @ q) \<Longrightarrow> startswith s p"
proof -
  assume "startswith s (p @ q)"
  then have "take (length p) (take (length (p @ q)) s) = p" by (simp add: startswith_def)
  then show ?thesis by (simp add: startswith_def)
qed

text \<open>the janitor and the observers recognise every VM a loaded lane boots. A VM name
  \<open><runner>-<pid>-<n>\<close> of a discovered lane starts with one of the prefixes derived from the lanes,
  numbered runner names included.\<close>

theorem lane_vms_match_prefixes:
  assumes "lane \<in> set lanes" and "ln_runner_name lane \<noteq> []" and "last (ln_runner_name lane) \<noteq> CHR 0x0A"
  shows "\<exists>p \<in> set (runner_name_prefixes lanes). p \<noteq> [] \<and> startswith (ln_runner_name lane @ ''-'' @ tail) p"
proof -
  let ?stem = "drop_numbers (ln_runner_name lane)"
  let ?p = "if endswith ?stem ''-'' then ?stem else ?stem @ ''-''"
  have "boot_stem (ln_runner_name lane) = ?stem" using assms(2,3) by (simp add: boot_stem_def)
  moreover have "ln_runner_name lane \<in> set (filter (\<lambda>c. c \<noteq> []) (concat (map (\<lambda>l. [ln_runner_name l, ln_identity l @ ''-'']) lanes)))"
    using assms(1,2) by auto
  ultimately have "?p \<in> set (runner_name_prefixes lanes)"
    unfolding runner_name_prefixes_def append_new_set set_map Let_def by (intro UnI2 image_eqI) simp_all
  moreover have "startswith (ln_runner_name lane @ ''-'' @ tail) ?p"
    using drop_numbers_prefix [of "ln_runner_name lane" tail] startswith_butlast by auto
  moreover have "?p \<noteq> []" by (auto simp: endswith_def)
  ultimately show ?thesis by blast
qed

subsection \<open>A host with two gate lanes\<close>

definition studio_paths :: path_env where
  "studio_paths = \<lparr>pe_home = ''/Users/ci'', pe_cwd = ''/'', pe_user_home = Map.empty\<rparr>"

definition gate_plist :: plist where
  "gate_plist = \<lparr>pl_args = [PStr ''runner.sh'', PStr ''--slot'', PStr ''2''],
     pl_env = [''TARTCI_RUNNER_NAME_PREFIX'' \<mapsto> PStr ''studio-gate'', ''TARTCI_STATE_DIR'' \<mapsto> PStr ''~/state/gate'']\<rparr>"

definition studio_listing :: "string list" where
  "studio_listing = [[CHR ''9'', CHR 0x09, CHR ''0'', CHR 0x09] @ FLEET_LABEL_PREFIX @ ''studio.gate'',
     [CHR ''-'', CHR 0x09, CHR ''0'', CHR 0x09] @ FLEET_LABEL_PREFIX @ ''studio.bench'']"

definition studio_plists :: "string \<Rightarrow> plist_file" where
  "studio_plists label = (if endswith label ''gate'' then PlistRead gate_plist else PlistUnreadable ''no such file'')"

definition studio_gate :: lane where
  "studio_gate = \<lparr>ln_label = FLEET_LABEL_PREFIX @ ''studio.gate'', ln_identity = ''gate'',
     ln_state_dir = Some ''/Users/ci/state/gate'', ln_runner_name = ''studio-gate-02''\<rparr>"

lemma studio_lanes: "discover_lanes studio_paths ''studio.local'' studio_plists (Some studio_listing) = Inr (Some [studio_gate],
    [''lane_plist_unreadable:'' @ FLEET_LABEL_PREFIX @ ''studio.bench'' @ '':no such file''])"
  by code_simp

theorem no_loaded_lane_lost_witness:
  "map ln_label [studio_gate] = filter (\<lambda>l. \<exists>p. studio_plists l = PlistRead p) (fleet_labels studio_listing)
   \<and> coverage_problem (coverage 0 (Some [studio_gate]) ''launchctl'') \<noteq> None"
  using no_loaded_lane_lost [OF studio_lanes, of 0 "''launchctl''"] by simp

theorem lane_vms_match_prefixes_witness:
  "\<exists>p \<in> set (runner_name_prefixes [studio_gate]). p \<noteq> [] \<and> startswith ''studio-gate-02-4711-3'' p"
  using lane_vms_match_prefixes [of studio_gate "[studio_gate]" "''4711-3''"] by (simp add: studio_gate_def)

theorem slots_have_distinct_names_witness:
  "\<exists>a b. derive_identity studio_paths [] ''studio-gate'' ''1'' [] [] [] ''studio'' = Inr a
     \<and> derive_identity studio_paths [] ''studio-gate'' ''12'' [] [] [] ''studio'' = Inr b
     \<and> ri_runner_name a \<noteq> ri_runner_name b"
proof -
  have n: "slot_number ''1'' = Some 1" "slot_number ''12'' = Some 12" by code_simp+
  then have ex: "\<exists>a. derive_identity studio_paths [] ''studio-gate'' ''1'' [] [] [] ''studio'' = Inr a"
    "\<exists>b. derive_identity studio_paths [] ''studio-gate'' ''12'' [] [] [] ''studio'' = Inr b"
    by (simp_all add: derive_identity_def Let_def)
  then obtain a b where ab: "derive_identity studio_paths [] ''studio-gate'' ''1'' [] [] [] ''studio'' = Inr a"
    "derive_identity studio_paths [] ''studio-gate'' ''12'' [] [] [] ''studio'' = Inr b" by metis
  from slots_have_distinct_names [OF ab] n ab show ?thesis by auto
qed

end
