(* ===== verification/ReapRules.thy ===== *)
theory ReapRules
  imports FleetLanes Waiters
begin

section \<open>What the janitor may delete\<close>

text \<open>
  The rules of \<open>scripts/vm_reap.py\<close>: which names are protected, which runner
  registrations this host minted, which state files own a VM, and when a VM without a
  state file is an orphan. Times are integers of microseconds. State files and plists
  are observed values; \<open>kill\<close> with signal 0 answers success, no such process or no
  permission.
\<close>

subsection \<open>Names\<close>

definition starts_with_any :: "string \<Rightarrow> string list \<Rightarrow> bool" where
  "starts_with_any name prefixes = list_ex (\<lambda>p. p \<noteq> [] \<and> startswith name p) prefixes"

definition comma_list :: "string \<Rightarrow> string list" where
  "comma_list s = filter (\<lambda>p. p \<noteq> []) (split_on (CHR '','') s)"

text \<open>\<open>PER_BOOT_RUNNER_RE\<close> and \<open>ORPHAN_NAME_RE\<close>: \<open><runner>-<pid>-<n>\<close>, the three parts; the end may stand
  before a last newline and the runner has none.\<close>

definition boot_name :: "string \<Rightarrow> (string \<times> string \<times> string) option" where
  "boot_name s =
     (let s' = (if s \<noteq> [] \<and> last s = CHR 0x0A then butlast s else s) in
      case number_suffix s' of None \<Rightarrow> None
      | Some (rest, n) \<Rightarrow> (case number_suffix rest of None \<Rightarrow> None
          | Some (runner, pid) \<Rightarrow>
              if runner \<noteq> [] \<and> CHR 0x0A \<notin> set runner then Some (runner, pid, n) else None))"

definition is_held :: "string \<Rightarrow> bool" where
  "is_held name = startswith name ''held-''"

definition is_protected_name :: "string \<Rightarrow> string list \<Rightarrow> bool" where
  "is_protected_name name protected =
     (name = [] \<or> CHR '':'' \<in> set name \<or> name \<in> set protected
      \<or> startswith name ''bench-'' \<or> endswith name ''-bench'' \<or> contains ''-bench-'' name
      \<or> endswith name '':latest'' \<or> is_held name)"

subsection \<open>Registrations this host minted\<close>

definition runner_label_names :: "api_row \<Rightarrow> string list" where
  "runner_label_names runner = List.map_filter label_text (ar_labels runner)"

definition foreign_runner_reason ::
  "api_row \<Rightarrow> string list \<Rightarrow> string list \<Rightarrow> string list \<Rightarrow> string list \<Rightarrow> string" where
  "foreign_runner_reason runner persistent host_label_prefixes own_host_labels own_name_prefixes =
     (let name = text_field (ar_fields runner) ''name'' in
      if name \<in> set persistent then ''persistent_runner''
      else if boot_name name = None then ''not_a_per_boot_name''
      else if \<not> starts_with_any name own_name_prefixes then ''not_this_hosts_prefix''
      else (case find (\<lambda>l. starts_with_any l host_label_prefixes \<and> l \<notin> set own_host_labels)
              (runner_label_names runner) of
        Some label \<Rightarrow> ''bound_to_other_host:'' @ label
      | None \<Rightarrow> []))"

definition resolve_host_labels :: "string list \<Rightarrow> string list \<Rightarrow> string list \<times> string" where
  "resolve_host_labels collected host_label_prefixes =
     (let bound = sort (remdups (filter (\<lambda>l. starts_with_any l host_label_prefixes) collected)) in
      if length bound > 1
      then (filter (\<lambda>l. \<not> starts_with_any l host_label_prefixes) collected,
            ''host_label_conflict:'' @ join '','' bound)
      else (collected, []))"

definition host_slug :: "string \<Rightarrow> string" where
  "host_slug hostname =
     (let first = takeWhile (\<lambda>c. c \<noteq> CHR ''.'') hostname;
          s = slug (if first = [] then ''host'' else first)
      in if s = [] then ''host'' else s)"

fun flag_values :: "string \<Rightarrow> string list \<Rightarrow> string list" where
  "flag_values flag (a # b # args) =
     (if a = flag then b # flag_values flag (b # args) else flag_values flag (b # args))"
| "flag_values flag _ = []"

definition LOCAL_LANE_PLISTS :: "(string \<times> bool) list" where
  "LOCAL_LANE_PLISTS = [(''com.danielraffel.pulp.tart-runner-linux.plist'', True),
     (''com.danielraffel.pulp.qemu-runner-windows.plist'', False)]"

definition plist_labels :: "plist \<Rightarrow> string list" where
  "plist_labels p = filter (\<lambda>l. l \<noteq> []) (map strip (concat (map (split_on (CHR '',''))
     (flag_values ''--labels'' (map py_str (pl_args p)) @ [text_field (pl_env p) ''TARTCI_RUNNER_LABELS'']))))"

definition plist_prefix :: "string \<Rightarrow> bool \<Rightarrow> plist \<Rightarrow> string" where
  "plist_prefix hostname linux p =
     (if linux then ''linux-ephr-''
      else py_str (py_or (dget (pl_env p) ''TARTCI_RUNNER_NAME_PREFIX'')
             (py_or (dget (pl_env p) ''PULP_RUNNER_NAME_PREFIX'') (PStr (''win-ephr-'' @ host_slug hostname)))) @ ''-'')"

text \<open>The files of the agents directory; a missing file is one that cannot be read.\<close>

fun agent_plists :: "(string \<Rightarrow> plist_file) \<Rightarrow> (string \<times> bool) list \<Rightarrow> (bool \<times> plist) list result" where
  "agent_plists files [] = Inr []"
| "agent_plists files ((file, linux) # rest) = (case files file of
     PlistMalformed text \<Rightarrow> Inl (expat_error text)
   | PlistUnreadable text \<Rightarrow> agent_plists files rest
   | PlistRead p \<Rightarrow> rbind (agent_plists files rest) (\<lambda>found. Inr ((linux, p) # found)))"

definition local_lane_identity :: "string \<Rightarrow> (string \<Rightarrow> plist_file) option \<Rightarrow> (string list \<times> string list) result" where
  "local_lane_identity hostname agents = (case agents of
     None \<Rightarrow> Inr ([], [])
   | Some files \<Rightarrow> rbind (agent_plists files LOCAL_LANE_PLISTS) (\<lambda>found.
       Inr (append_new [] (concat (map (\<lambda>(linux, p). plist_labels p) found)),
            append_new [] (map (\<lambda>(linux, p). plist_prefix hostname linux p) found))))"

definition rstrip_dash :: "string \<Rightarrow> string" where
  "rstrip_dash s = rev (dropWhile (\<lambda>c. c = CHR ''-'') (rev s))"

definition own_lane_name_prefixes :: "lane list \<Rightarrow> string list" where
  "own_lane_name_prefixes lanes =
     append_new [] (map (\<lambda>l. rstrip_dash (ln_runner_name l) @ ''-'')
       (filter (\<lambda>l. ln_runner_name l \<noteq> []) lanes))"

subsection \<open>State files\<close>

datatype state_content = StateUnreadable string | StateNotObject | StateDoc pydict

record state_file =
  sf_path :: string
  sf_resolved :: string
  sf_content :: state_content
  sf_mtime :: "int option"

record reap_state =
  rs_doc :: pydict
  rs_path :: string
  rs_age :: int
  rs_owner_alive :: bool

definition reap_parse_ts :: "pyval \<Rightarrow> int option" where
  "reap_parse_ts v = (case v of PStr s \<Rightarrow> parse_ts (PStr (strip s)) | _ \<Rightarrow> None)"

definition pid_alive_same :: "host \<Rightarrow> pyval \<Rightarrow> pyval \<Rightarrow> bool" where
  "pid_alive_same h pid_value expected_start = (case py_int pid_value of
     None \<Rightarrow> False
   | Some pid \<Rightarrow>
       if pid \<le> 0 then False
       else let current = pid_start h pid in
         if current = [] then False
         else (case expected_start of
           PStr s \<Rightarrow> if strip s \<noteq> [] then current = squeeze (strip s) else True
         | _ \<Rightarrow> True))"

text \<open>The files of the directories in order, each resolved path once.\<close>

fun new_files :: "string list \<Rightarrow> state_file list \<Rightarrow> state_file list" where
  "new_files seen [] = []"
| "new_files seen (f # fs) =
     (if sf_resolved f \<in> set seen then new_files seen fs else f # new_files (sf_resolved f # seen) fs)"

definition state_files :: "(string \<Rightarrow> state_file list) \<Rightarrow> string list \<Rightarrow> state_file list" where
  "state_files listing dirs = new_files [] (concat (map listing dirs))"

definition load_state :: "host \<Rightarrow> int \<Rightarrow> state_file \<Rightarrow> pydict \<Rightarrow> reap_state" where
  "load_state h now f doc =
     (let ts = (case reap_parse_ts (dget doc ''ts'') of Some t \<Rightarrow> t
            | None \<Rightarrow> (case sf_mtime f of Some m \<Rightarrow> m | None \<Rightarrow> now))
      in \<lparr>rs_doc = doc, rs_path = sf_path f, rs_age = max 0 ((now - ts) div 1000000),
         rs_owner_alive = pid_alive_same h (dget doc ''supervisor_pid'') (dget doc ''supervisor_pid_started_at'')\<rparr>)"

fun load_states :: "host \<Rightarrow> int \<Rightarrow> state_file list \<Rightarrow> (reap_state list \<times> string list) result" where
  "load_states h now [] = Inr ([], [])"
| "load_states h now (f # fs) = (case sf_content f of
     StateNotObject \<Rightarrow> Inl (TypeError ''list indices must be integers or slices, not str'')
   | StateUnreadable exc \<Rightarrow> rbind (load_states h now fs) (\<lambda>(states, problems).
       Inr (states, (''state_unreadable:'' @ sf_path f @ '':'' @ exc) # problems))
   | StateDoc doc \<Rightarrow> rbind (load_states h now fs) (\<lambda>(states, problems).
       Inr (load_state h now f doc # states, problems)))"

definition state_field :: "string \<Rightarrow> reap_state \<Rightarrow> string" where
  "state_field k s = text_field (rs_doc s) k"

text \<open>A dictionary built in file order: a later file of the same key replaces an earlier one.\<close>

definition states_by :: "string \<Rightarrow> reap_state list \<Rightarrow> string \<rightharpoonup> reap_state" where
  "states_by key states = map_of (rev (map (\<lambda>s. (state_field key s, s)) (filter (\<lambda>s. state_field key s \<noteq> []) states)))"

subsection \<open>Orphans\<close>

definition vm_name :: "pydict \<Rightarrow> string" where
  "vm_name vm = py_str (py_or (py_or (dget vm ''Name'') (dget vm ''name'')) (PStr []))"

definition vm_state :: "pydict \<Rightarrow> string" where
  "vm_state vm = py_str (py_or (py_or (dget vm ''State'') (dget vm ''state'')) (PStr []))"

definition is_running_state :: "string \<Rightarrow> bool" where
  "is_running_state state = startswith (lower state) ''run''"

definition pid_alive :: "host \<Rightarrow> int \<Rightarrow> bool" where
  "pid_alive h pid = (kill0 h pid \<noteq> NoSuchProcess)"

text \<open>Every VM name a lease record names; \<open>None\<close> for a store that cannot be read. An empty file is
  the empty list.\<close>

definition lease_references :: "rows_file \<Rightarrow> string list option" where
  "lease_references f = (case f of
     FileAbsent \<Rightarrow> Some []
   | FileGarbled \<Rightarrow> None
   | FileNotList \<Rightarrow> None
   | FileRows rows \<Rightarrow> Some (concat (map (\<lambda>row. case row of
       None \<Rightarrow> []
     | Some r \<Rightarrow> List.map_filter (\<lambda>key. case dget r key of
         PStr s \<Rightarrow> if s \<noteq> [] then Some s else None | _ \<Rightarrow> None) [''vm_name'', ''id'', ''label'']) rows)))"

definition RETIRED_LANE_MIN_AGE_SECS :: int where
  "RETIRED_LANE_MIN_AGE_SECS = 24 * 3600"

text \<open>\<open>tart_image_prune.named_in\<close>: the name as a word of its own in a text.\<close>

definition name_char :: "char \<Rightarrow> bool" where
  "name_char c = (is_alnum c \<or> c \<in> set ''_.:-'')"

definition named_in :: "string \<Rightarrow> string \<Rightarrow> bool" where
  "named_in name text = search (\<lambda>prev s.
     \<not> (case prev of Some c \<Rightarrow> name_char c | None \<Rightarrow> False) \<and> startswith s name
     \<and> \<not> (case drop (length name) s of c # _ \<Rightarrow> name_char c | [] \<Rightarrow> False)) None text"

text \<open>\<open>TartciNames\<close>: the string values of the fleet profile (\<open>None\<close> when it cannot be read) and the text
  of the files that may name a VM.\<close>

record tartci_names =
  tn_values :: "string list option"
  tn_text :: string

definition names_vm :: "tartci_names \<Rightarrow> string \<Rightarrow> bool" where
  "names_vm t name = (case tn_values t of
     None \<Rightarrow> True | Some values \<Rightarrow> name \<in> set values \<or> named_in name (tn_text t))"

text \<open>The lane state files under the state root: \<open>None\<close> for a link or a file that is no JSON object.\<close>

definition retired_lane_record :: "pydict option list \<Rightarrow> string \<Rightarrow> string \<Rightarrow> string \<Rightarrow> bool" where
  "retired_lane_record files name runner pid = list_ex (\<lambda>f. case f of
     None \<Rightarrow> False
   | Some data \<Rightarrow> dget data ''vm'' = PStr name \<and> startswith (text_field data ''provider'') ''tart-''
       \<and> dget data ''runner'' = PStr runner \<and> py_str (dget data ''supervisor_pid'') = pid) files"

definition retired_lane_runner :: "string \<Rightarrow> string option \<Rightarrow> string list \<Rightarrow> bool" where
  "retired_lane_runner runner host_id prefixes = (case host_id of
     None \<Rightarrow> False
   | Some host \<Rightarrow>
       if host = [] \<or> host \<notin> set (split_on (CHR ''-'') runner) then False
       else startswith runner (host @ ''-'') \<or> starts_with_any runner prefixes)"

text \<open>\<open>int(seconds)\<close> of a time difference.\<close>

definition int_secs :: "int \<Rightarrow> int" where
  "int_secs t = (if t < 0 then - ((- t) div 1000000) else t div 1000000)"

record orphan_view =
  ov_lane_runners :: "string list"
  ov_leases :: "string list option"
  ov_bundle_mtime :: "string \<rightharpoonup> int"
  ov_min_age :: int
  ov_alive :: "int \<Rightarrow> bool"
  ov_host_id :: "string option"
  ov_prefixes :: "string list"
  ov_named :: "string \<Rightarrow> bool"
  ov_record :: "string \<Rightarrow> string \<Rightarrow> string \<Rightarrow> bool"
  ov_retired_enabled :: bool

text \<open>The verdict once the name is known to be a lane's: \<open>retired\<close> for a lane that is not loaded.\<close>

definition abandoned_verdict ::
  "orphan_view \<Rightarrow> string \<Rightarrow> bool \<Rightarrow> (string \<rightharpoonup> reap_state) \<Rightarrow> int \<Rightarrow> string \<Rightarrow> bool \<Rightarrow> bool \<times> string" where
  "abandoned_verdict v name running by_vm now pid retired =
     (let min_age = (if retired then max (ov_min_age v) RETIRED_LANE_MIN_AGE_SECS else ov_min_age v) in
      if running then (False, ''running'')
      else if by_vm name \<noteq> None then (False, ''state_file_names_it'')
      else (case ov_leases v of
        None \<Rightarrow> (False, ''lease_store_unreadable'')
      | Some leases \<Rightarrow>
          if name \<in> set leases \<or> list_ex (\<lambda>ref. endswith ref (''-'' @ name)) leases then (False, ''lease_names_it'')
          else if ov_alive v (case int_of_string pid of Some n \<Rightarrow> n | None \<Rightarrow> 0) then (False, ''supervisor_pid_alive'')
          else (case ov_bundle_mtime v name of
            None \<Rightarrow> (False, ''vm_bundle_unreadable'')
          | Some mtime \<Rightarrow>
              (let age = now - mtime in
               if age < min_age * 1000000 then (False, ''recent'')
               else if retired \<and> \<not> ov_retired_enabled v
               then (False, ''retired_clone_reap_off: would delete (retired lane, supervisor '' @ pid @
                       '' gone, stopped '' @ int_str (int_secs age) @ ''s)'')
               else (True, (if retired then ''retired lane '' else []) @ ''supervisor '' @ pid @
                       '' gone, stopped '' @ int_str (int_secs age) @ ''s'')))))"

definition orphan_verdict ::
  "orphan_view \<Rightarrow> string \<Rightarrow> bool \<Rightarrow> (string \<rightharpoonup> reap_state) \<Rightarrow> int \<Rightarrow> bool \<times> string" where
  "orphan_verdict v name running by_vm now = (case boot_name name of
     None \<Rightarrow> (False, ''not_a_lane_vm'')
   | Some (runner, pid, n) \<Rightarrow>
       if runner \<in> set (ov_lane_runners v) then abandoned_verdict v name running by_vm now pid False
       else if CHR '':'' \<in> set name \<or> \<not> retired_lane_runner runner (ov_host_id v) (ov_prefixes v)
       then (False, ''not_a_lane_vm'')
       else if ov_named v name then (False, ''named_by_tartci'')
       else if \<not> ov_record v name runner pid then (False, ''no_retired_lane_record'')
       else abandoned_verdict v name running by_vm now pid True)"

subsection \<open>One owner per registration\<close>

text \<open>The verdict without its order of tests.\<close>

lemma abandoned_iff:
  "fst (abandoned_verdict v name running by_vm now pid retired) =
     (\<not> running \<and> by_vm name = None
      \<and> (\<exists>leases. ov_leases v = Some leases \<and> name \<notin> set leases \<and> (\<forall>ref \<in> set leases. \<not> endswith ref (''-'' @ name)))
      \<and> \<not> ov_alive v (case int_of_string pid of Some n \<Rightarrow> n | None \<Rightarrow> 0)
      \<and> (\<exists>mtime. ov_bundle_mtime v name = Some mtime
           \<and> (if retired then max (ov_min_age v) RETIRED_LANE_MIN_AGE_SECS else ov_min_age v) * 1000000 \<le> now - mtime)
      \<and> (retired \<longrightarrow> ov_retired_enabled v))"
  unfolding abandoned_verdict_def Let_def
  by (cases "running \<or> by_vm name \<noteq> None"; cases "ov_leases v"; cases "ov_bundle_mtime v name")
    (auto simp: list_ex_iff)

lemma foreign_reason_none:
  assumes "foreign_runner_reason runner persistent host_prefixes own own_names = []"
  shows "text_field (ar_fields runner) ''name'' \<notin> set persistent"
    "boot_name (text_field (ar_fields runner) ''name'') \<noteq> None"
    "starts_with_any (text_field (ar_fields runner) ''name'') own_names"
    "l \<in> set (runner_label_names runner) \<Longrightarrow> starts_with_any l host_prefixes \<Longrightarrow> l \<in> set own"
  using assms by (auto simp: foreign_runner_reason_def Let_def find_None_iff split: if_splits option.splits)

lemma resolved_bound_unique:
  assumes "a \<in> set (fst (resolve_host_labels collected prefixes))" and "starts_with_any a prefixes"
    and "b \<in> set (fst (resolve_host_labels collected prefixes))" and "starts_with_any b prefixes"
  shows "a = b"
proof -
  let ?bound = "remdups (filter (\<lambda>l. starts_with_any l prefixes) collected)"
  have short: "length ?bound \<le> 1" and mem: "a \<in> set ?bound" "b \<in> set ?bound"
    using assms by (auto simp: resolve_host_labels_def Let_def split: if_splits)
  from short mem show ?thesis by (cases ?bound) auto
qed

text \<open>no two hosts may delete the same host-bound registration unless they claim the same host label. If a
  runner carries a host-bound label and the rules of two hosts, each with the labels it resolved
  from its own plists and settings, both allow deleting it, then that label is the one host-bound
  label both own. A host whose sources disagree owns no host-bound label and deletes no such
  runner.\<close>

theorem registration_has_one_owner:
  assumes "label \<in> set (runner_label_names runner)" and "starts_with_any label prefixes"
    and "foreign_runner_reason runner pers_a prefixes (fst (resolve_host_labels labels_a prefixes)) names_a = []"
    and "foreign_runner_reason runner pers_b prefixes (fst (resolve_host_labels labels_b prefixes)) names_b = []"
  shows "filter (\<lambda>l. starts_with_any l prefixes) (remdups labels_a) = [label]
       \<and> filter (\<lambda>l. starts_with_any l prefixes) (remdups labels_b) = [label]"
proof -
  have single: "filter (\<lambda>l. starts_with_any l prefixes) (remdups labels) = [label]"
    if own: "label \<in> set (fst (resolve_host_labels labels prefixes))" for labels
  proof -
    let ?bound = "filter (\<lambda>l. starts_with_any l prefixes) (remdups labels)"
    have eq: "remdups (filter (\<lambda>l. starts_with_any l prefixes) labels) = ?bound" by (simp add: remdups_filter)
    have "length ?bound \<le> 1" "label \<in> set ?bound"
      using own assms(2) unfolding eq [symmetric]
      by (auto simp: resolve_host_labels_def Let_def split: if_splits)
    then show ?thesis by (cases ?bound) auto
  qed
  show ?thesis
    using single foreign_reason_none(4) [OF assms(3) assms(1,2)] foreign_reason_none(4) [OF assms(4) assms(1,2)]
    by blast
qed

subsection \<open>A leased VM is no orphan\<close>

lemma number_suffix_dash: "number_suffix s = Some (before, ds) \<Longrightarrow> CHR ''-'' \<in> set s \<and> ds \<noteq> []"
  using number_suffix_split [of s before ds]
  by (auto simp: number_suffix_def Let_def split: list.splits if_splits)

lemma boot_name_dash:
  assumes "boot_name s = Some (runner, pid, n)"
  shows "\<exists>nl. s = runner @ ''-'' @ pid @ ''-'' @ n @ nl \<and> runner \<noteq> []"
proof -
  let ?s = "if s \<noteq> [] \<and> last s = CHR 0x0A then butlast s else s"
  obtain rest where r: "number_suffix ?s = Some (rest, n)" "number_suffix rest = Some (runner, pid)" "runner \<noteq> []"
    using assms by (auto simp: boot_name_def Let_def split: option.splits if_splits)
  have split: "?s = runner @ ''-'' @ pid @ ''-'' @ n"
    unfolding number_suffix_split [OF r(1)] number_suffix_split [OF r(2)] by simp
  have "\<exists>nl. s = ?s @ nl"
    by (cases s rule: rev_cases) auto
  then obtain nl where "s = ?s @ nl" ..
  then have "s = runner @ ''-'' @ pid @ ''-'' @ n @ nl" unfolding split by simp
  with r(3) show ?thesis by blast
qed

text \<open>Only a string reads as a name with a dash inside.\<close>

lemma scalar_no_inner_dash:
  assumes "py_str v = a @ ''-'' @ b" and "a \<noteq> []"
  shows "\<exists>s. v = PStr s"
proof (cases v)
  case (PInt i)
  have "CHR ''-'' \<notin> set (tl (int_str i))"
    using nat_str_digits [of "CHR ''-''"] list.set_sel(2) [of "nat_str (nat i)" "CHR ''-''"]
    by (auto simp: int_str_def is_digit_def)
  then show ?thesis using assms PInt by (cases a) auto
next
  case (PBool b')
  then show ?thesis using assms by (cases a; cases b') (auto simp: Cons_eq_append_conv)
next
  case PNone
  then show ?thesis using assms by (auto simp: append_eq_Cons_conv Cons_eq_append_conv)
qed simp

lemma endswith_append [simp]: "endswith (a @ b) b"
  by (simp add: endswith_def)

lemma text_field_string:
  assumes "text_field r k = a @ ''-'' @ b" and "a \<noteq> []"
  shows "dget r k = PStr (text_field r k)"
proof -
  have "py_str (py_or (dget r k) (PStr [])) = a @ ''-'' @ b" using assms(1) by (simp add: text_field_def)
  from scalar_no_inner_dash [OF this assms(2)] show ?thesis
    using assms by (auto simp: text_field_def py_or_def split: if_splits)
qed

lemma lease_references_garbled [simp]:
  "lease_references FileGarbled = None" "lease_references FileNotList = None"
  by (simp_all add: lease_references_def)

lemma lease_reference_in:
  assumes "load_records st = Inr rs" and "r \<in> set rs" and "dget r k = PStr ref" and "ref \<noteq> []"
    and "k \<in> {''vm_name'', ''id'', ''label''}"
  shows "\<exists>refs. lease_references (st_leases st) = Some refs \<and> ref \<in> set refs"
proof -
  obtain rows where rows: "st_leases st = FileRows rows" "Some r \<in> set rows"
    using assms(1,2) by (auto simp: load_records_def list_all_iff Option.is_none_def split: rows_file.splits if_splits)
  have "ref \<in> set (List.map_filter (\<lambda>key. case dget r key of
         PStr s \<Rightarrow> if s \<noteq> [] then Some s else None | _ \<Rightarrow> None) [''vm_name'', ''id'', ''label''])"
    using assms(3-5) by (auto simp: List.map_filter_def split: pyval.splits)
  with rows show ?thesis by (force simp: lease_references_def)
qed

lemma leased_name_referenced:
  assumes "load_records st = Inr rs" and "r \<in> set rs" and "boot_name (record_vm_name r) = Some (runner, pid, n)"
  shows "\<exists>refs. lease_references (st_leases st) = Some refs
    \<and> (record_vm_name r \<in> set refs \<or> (\<exists>ref \<in> set refs. endswith ref (''-'' @ record_vm_name r)))"
proof -
  obtain tail where name: "record_vm_name r = runner @ ''-'' @ tail" "runner \<noteq> []"
    using boot_name_dash [OF assms(3)] by (metis append.assoc)
  show ?thesis
  proof (cases "text_field r ''vm_name'' = []")
    case False
    then have vm: "record_vm_name r = text_field r ''vm_name''" by (simp add: record_vm_name_def Let_def)
    then have "dget r ''vm_name'' = PStr (record_vm_name r)"
      using text_field_string [of r "''vm_name''" runner tail] name by simp
    from lease_reference_in [OF assms(1,2) this] name show ?thesis by auto
  next
    case True
    define prefix where "prefix = ''vm-'' @ py_str (dget r ''command_kind'') @ ''-''"
    have "text_field r ''id'' = prefix @ record_vm_name r"
      using True name unfolding record_vm_name_def Let_def prefix_def [symmetric]
      by (auto simp: startswith_def split: if_splits) (metis append_take_drop_id)
    then have id: "text_field r ''id'' = ''vm'' @ ''-'' @ py_str (dget r ''command_kind'') @ ''-'' @ record_vm_name r"
      by (simp add: prefix_def)
    then have "dget r ''id'' = PStr (text_field r ''id'')"
      using text_field_string [of r "''id''" "''vm''"] by simp
    from lease_reference_in [OF assms(1,2) this] id
    obtain refs where "lease_references (st_leases st) = Some refs" "text_field r ''id'' \<in> set refs" by auto
    moreover have "endswith (text_field r ''id'') (''-'' @ record_vm_name r)"
      using endswith_append [of "''vm'' @ ''-'' @ py_str (dget r ''command_kind'')" "''-'' @ record_vm_name r"] id by simp
    ultimately show ?thesis by blast
  qed
qed

lemma leased_not_orphan:
  assumes "ov_leases v = lease_references (st_leases st)"
    and "(\<exists>rs r. load_records st = Inr rs \<and> r \<in> set rs \<and> record_vm_name r = name)
       \<or> st_leases st \<in> {FileGarbled, FileNotList}"
  shows "\<not> fst (orphan_verdict v name running by_vm now)"
proof (cases "boot_name name")
  case None
  then show ?thesis by (simp add: orphan_verdict_def)
next
  case (Some parts)
  obtain runner pid n where "boot_name name = Some (runner, pid, n)" using Some by (cases parts) auto
  then have "(\<exists>refs. ov_leases v = Some refs \<and> (name \<in> set refs \<or> (\<exists>ref \<in> set refs. endswith ref (''-'' @ name))))
      \<or> ov_leases v = None"
    using assms(2) leased_name_referenced unfolding assms(1) by (metis emptyE insertE lease_references_garbled)
  then have "\<not> fst (abandoned_verdict v name running by_vm now pid retired)" for pid retired
    by (auto simp: abandoned_iff)
  then show ?thesis by (simp add: orphan_verdict_def split: option.split)
qed

text \<open>the janitor never takes a leased VM for an orphan. While the lease store is the one the lease
  commands write, a VM that a stored lease names, in its \<open>vm_name\<close> or in the id the VM helper derives
  from it, gets no deletion verdict, whatever its name, its age and the lanes of the host are; and
  neither does any VM while the store cannot be read.\<close>

theorem leased_vm_never_orphan:
  assumes "ov_leases v = lease_references (st_leases st)"
    and "(\<exists>rs r. load_records st = Inr rs \<and> r \<in> set rs \<and> record_vm_name r = name)
       \<or> st_leases st \<in> {FileGarbled, FileNotList}"
  shows "\<not> fst (orphan_verdict v name running by_vm now)"
  using assms by (rule leased_not_orphan)


subsection \<open>A pool host\<close>

definition ghost_row :: api_row where
  "ghost_row = \<lparr>ar_fields = [''id'' \<mapsto> PInt 4, ''name'' \<mapsto> PStr ''linux-ephr-81-2'', ''status'' \<mapsto> PStr ''offline''],
     ar_labels = [LabelObject (PStr ''Linux''), LabelObject (PStr ''pulp-host-m1'')]\<rparr>"

theorem registration_has_one_owner_witness:
  "filter (\<lambda>l. starts_with_any l [''pulp-host-'']) (remdups [''pulp-host-m1'']) = [''pulp-host-m1'']
   \<and> filter (\<lambda>l. starts_with_any l [''pulp-host-'']) (remdups [''Linux'', ''pulp-host-m1'']) = [''pulp-host-m1'']"
proof -
  have lab: "''pulp-host-m1'' \<in> set (runner_label_names ghost_row)"
    by (simp add: ghost_row_def runner_label_names_def List.map_filter_def label_text_def)
  have "starts_with_any ''pulp-host-m1'' [''pulp-host-'']"
    "foreign_runner_reason ghost_row [] [''pulp-host-''] (fst (resolve_host_labels [''pulp-host-m1''] [''pulp-host-'']))
       [''linux-ephr-''] = []"
    "foreign_runner_reason ghost_row [] [''pulp-host-''] (fst (resolve_host_labels [''Linux'', ''pulp-host-m1''] [''pulp-host-'']))
       [''linux-ephr-''] = []"
    by code_simp+
  from registration_has_one_owner [OF lab this] show ?thesis .
qed

definition leased_vm :: pydict where
  "leased_vm = [''id'' \<mapsto> PStr ''vm-tart-macos-vm-gate-01-81-2'', ''command_kind'' \<mapsto> PStr ''tart-macos-vm'']"

definition quiet_view :: orphan_view where
  "quiet_view = \<lparr>ov_lane_runners = [''gate-01''], ov_leases = Some [''vm-tart-macos-vm-gate-01-81-2''],
     ov_bundle_mtime = (\<lambda>_. Some 0), ov_min_age = 3600, ov_alive = (\<lambda>_. False), ov_host_id = None,
     ov_prefixes = [], ov_named = (\<lambda>_. False), ov_record = (\<lambda>_ _ _. False), ov_retired_enabled = False\<rparr>"

definition leased_store :: store where
  "leased_store = \<lparr>st_dir = ''s'', st_leases = FileRows [Some leased_vm], st_waiters = FileAbsent,
     st_hint = HintUnreadable, st_events = []\<rparr>"

theorem leased_vm_never_orphan_witness:
  "\<not> fst (orphan_verdict quiet_view ''gate-01-81-2'' False Map.empty 9000000000)
   \<and> fst (orphan_verdict quiet_view ''gate-01-80-1'' False Map.empty 9000000000)"
proof -
  have view: "ov_leases quiet_view = lease_references (st_leases leased_store)"
    by (simp add: quiet_view_def lease_references_def leased_store_def leased_vm_def List.map_filter_def dget_def)
  have "record_vm_name leased_vm = ''gate-01-81-2''" by code_simp
  then have "\<exists>rs r. load_records leased_store = Inr rs \<and> r \<in> set rs \<and> record_vm_name r = ''gate-01-81-2''"
    by (simp add: load_records_def leased_store_def)
  note leased_vm_never_orphan [OF view disjI1 [OF this]]
  moreover have "boot_name ''gate-01-80-1'' = Some (''gate-01'', ''80'', ''1'')" by code_simp
  then have "fst (orphan_verdict quiet_view ''gate-01-80-1'' False Map.empty 9000000000)"
    by (simp add: orphan_verdict_def abandoned_iff) (simp add: quiet_view_def endswith_def)
  ultimately show ?thesis by simp
qed

end
