(* ===== verification/VmReap.thy ===== *)
theory VmReap
  imports ReapRules
begin

section \<open>A pass of the janitor\<close>

text \<open>
  \<open>build_digest\<close> and \<open>main\<close> of \<open>scripts/vm_reap.py\<close>: one pass observes the host, decides an action for
  every VM, state file and runner registration, carries the actions out under \<open>--fix\<close>, and rewrites
  the clocks of offline registrations. What the pass does to the outside is the list of its
  \<open>reap_effect\<close>s, in order; what \<open>tart\<close>, GitHub and the file system answer is the record \<open>reap_env\<close>.
  The report columns that no decision reads (sizes, addresses, streaks) are left out.
\<close>

subsection \<open>What a pass sees\<close>

datatype tart_answer = TartRaised string | TartVms "pydict list"

datatype os_answer = OsRefused string | OsUnknown | OsIs string

datatype lstat_answer = LstatMissing | LstatError | LstatLink | LstatOther

record offline_row =
  of_first :: int
  of_passes :: int

type_synonym tracker = "string \<rightharpoonup> offline_row"

datatype tracker_file = TrackerUnreadable | TrackerStored tracker

text \<open>How the write of the tracker ends: done; failed before the file was opened, which leaves it as it was;
  or failed after the open truncated it, which leaves text that is no JSON.\<close>

datatype tracker_write = TrackerWritten | TrackerNotOpened string | TrackerCutShort string

fun write_error :: "tracker_write \<Rightarrow> string option" where
  "write_error TrackerWritten = None"
| "write_error (TrackerNotOpened exc) = Some exc"
| "write_error (TrackerCutShort exc) = Some exc"

fun write_tracker :: "tracker_write \<Rightarrow> tracker \<Rightarrow> tracker_file \<Rightarrow> tracker_file" where
  "write_tracker TrackerWritten new old = TrackerStored new"
| "write_tracker (TrackerNotOpened exc) new old = old"
| "write_tracker (TrackerCutShort exc) new old = TrackerUnreadable"

record reap_args =
  ra_fix :: bool
  ra_dry_run :: bool
  ra_repo :: string
  ra_state_dir :: "string option"
  ra_state_root :: string
  ra_prefixes :: string
  ra_protected_names :: string
  ra_persistent_runners :: string
  ra_host_label_prefixes :: string
  ra_host_labels :: string
  ra_own_name_prefixes :: string
  ra_launch_agents_dir :: string
  ra_min_offline_secs :: int
  ra_min_offline_passes :: int
  ra_stopped_age_secs :: int
  ra_orphan_age_secs :: int
  ra_running_age_secs :: int
  ra_heartbeat_stale_secs :: int
  ra_keep_failed_age_secs :: int

record reap_env =
  re_now :: int
  re_host :: host
  re_hostname :: string
  re_paths :: path_env
  re_default_root :: string
  re_listing :: "string list option"
  re_plists :: "string \<Rightarrow> plist_file"
  re_agents :: "string \<Rightarrow> plist_file"
  re_state_files :: "string \<Rightarrow> state_file list"
  re_root_files :: "pydict option list"
  re_leases :: rows_file
  re_names :: tartci_names
  re_retired_enabled :: bool
  re_vm_mtime :: "string \<rightharpoonup> int"
  re_missing_tools :: "string list"
  re_tart :: tart_answer
  re_tart_os :: "string \<Rightarrow> os_answer"
  re_fetch :: "string \<Rightarrow> fetcher"
  re_tart_delete :: "string \<Rightarrow> string option"
  re_unlink :: "string \<Rightarrow> string option"
  re_runner_delete :: "string \<Rightarrow> string option"
  re_tracker_write :: tracker_write
  re_stop_pid :: "int \<Rightarrow> string + bool"
  re_lstat :: "string \<Rightarrow> lstat_answer"
  re_realpath :: "string \<Rightarrow> string"
  re_exists :: "string \<Rightarrow> bool"
  re_is_file :: "string \<Rightarrow> bool"
  re_chflags :: "string \<Rightarrow> string option"
  re_remove :: "string \<Rightarrow> string option"

subsection \<open>What a pass does\<close>

datatype reap_effect =
    TartStop string
  | TartDelete string
  | Unlink string
  | StopQemu int
  | ClearFlags string
  | RemovePath string
  | DeleteRunner string

datatype vm_action =
    NoAction | DeleteStoppedVm | StopDeleteOwnerless | SuspectStaleHeartbeat | DeleteOrphanedVm
  | DeleteStaleState | QemuPidUnknown | KeptFailed | StopDeleteQemu | DeleteQemuWorkdir | SuspectStaleQemu

fun action_name :: "vm_action \<Rightarrow> string" where
  "action_name NoAction = []"
| "action_name DeleteStoppedVm = ''delete_stopped_vm''"
| "action_name StopDeleteOwnerless = ''stop_delete_ownerless_running_vm''"
| "action_name SuspectStaleHeartbeat = ''suspect_live_owner_stale_heartbeat''"
| "action_name DeleteOrphanedVm = ''delete_orphaned_stopped_vm''"
| "action_name DeleteStaleState = ''delete_stale_state''"
| "action_name QemuPidUnknown = ''qemu_pid_unknown_preserve''"
| "action_name KeptFailed = ''kept_failed_wait_for_operator''"
| "action_name StopDeleteQemu = ''stop_delete_qemu_vm''"
| "action_name DeleteQemuWorkdir = ''delete_qemu_workdir''"
| "action_name SuspectStaleQemu = ''suspect_live_owner_stale_qemu_heartbeat''"

record vm_row =
  vr_name :: string
  vr_state :: string
  vr_owned :: bool
  vr_protected :: bool
  vr_owner_alive :: "bool option"
  vr_age :: int
  vr_stale :: bool
  vr_action :: vm_action
  vr_state_file :: "string option"
  vr_orphan :: "string option"

record reap_pass =
  rp_effects :: "reap_effect list"
  rp_fixed :: "string list"
  rp_problems :: "string list"
  rp_vms :: "vm_row list"

definition does :: "reap_effect list \<Rightarrow> reap_pass \<Rightarrow> reap_pass" where
  "does effects p = p\<lparr>rp_effects := rp_effects p @ effects\<rparr>"

definition repairs :: "string list \<Rightarrow> reap_pass \<Rightarrow> reap_pass" where
  "repairs items p = p\<lparr>rp_fixed := rp_fixed p @ items\<rparr>"

definition reports :: "string list \<Rightarrow> reap_pass \<Rightarrow> reap_pass" where
  "reports items p = p\<lparr>rp_problems := rp_problems p @ items\<rparr>"

definition lists_row :: "vm_row \<Rightarrow> reap_pass \<Rightarrow> reap_pass" where
  "lists_row row p = p\<lparr>rp_vms := rp_vms p @ [row]\<rparr>"

subsection \<open>The scope of a pass\<close>

definition split_paths :: "string option \<Rightarrow> string list" where
  "split_paths v = (case v of None \<Rightarrow> []
   | Some s \<Rightarrow> filter (\<lambda>c. c \<noteq> []) (map strip (split_on (CHR '':'') (map (\<lambda>c. if c = CHR '','' then CHR '':'' else c) s))))"

definition scoped_view :: "reap_args \<Rightarrow> reap_env \<Rightarrow> bool result" where
  "scoped_view a e =
     (if split_paths (ra_state_dir a) \<noteq> [] then Inr True
      else rbind (path_expanduser (re_paths e) (ra_state_root a)) (\<lambda>root.
           rbind (path_expanduser (re_paths e) (re_default_root e)) (\<lambda>dflt. Inr (root \<noteq> dflt))))"

definition state_dirs_from_args :: "reap_args \<Rightarrow> reap_env \<Rightarrow> lane list option \<Rightarrow> string list result" where
  "state_dirs_from_args a e lanes =
     (let explicit = split_paths (ra_state_dir a) in
      if explicit \<noteq> [] then rtraverse (path_expanduser (re_paths e)) explicit
      else rbind (path_expanduser (re_paths e) (ra_state_root a)) (\<lambda>root.
        Inr (append_new [root, path_join root ''macos'', path_join root ''linux'', path_join root ''windows'']
          (lane_state_dirs lanes))))"

record reap_scope =
  rc_lanes :: "lane list option"
  rc_states :: "reap_state list"
  rc_prefixes :: "string list"
  rc_protected :: "string list"
  rc_persistent :: "string list"
  rc_host_label_prefixes :: "string list"
  rc_own_labels :: "string list"
  rc_own_names :: "string list"
  rc_orphans :: orphan_view
  rc_tracker :: string
  rc_problems :: "string list"

definition host_word :: "string list \<Rightarrow> string option" where
  "host_word loaded = (case remdups (map (takeWhile (\<lambda>c. c \<noteq> CHR ''-'')) loaded) of
     [w] \<Rightarrow> Some w | _ \<Rightarrow> None)"

definition offline_tracker_path :: "path_env \<Rightarrow> string \<Rightarrow> string result" where
  "offline_tracker_path pe state_root =
     rbind (path_expanduser pe state_root) (\<lambda>root. Inr (path_join root ''reap/runner-offline.json''))"

definition reap_scope_of :: "reap_args \<Rightarrow> reap_env \<Rightarrow> reap_scope result" where
  "reap_scope_of a e =
     rbind (scoped_view a e) (\<lambda>scoped.
     rbind (if scoped then Inr (None, []) else discover_lanes (re_paths e) (re_hostname e) (re_plists e) (re_listing e))
       (\<lambda>(lanes, lane_problems).
     rbind (state_dirs_from_args a e lanes) (\<lambda>dirs.
     rbind (local_lane_identity (re_hostname e) (if ra_launch_agents_dir a \<noteq> [] \<or> \<not> scoped then Some (re_agents e) else None))
       (\<lambda>(lane_labels, lane_names).
     rbind (offline_tracker_path (re_paths e) (ra_state_root a)) (\<lambda>tracker_path.
     rbind (load_states (re_host e) (re_now e) (state_files (re_state_files e) dirs)) (\<lambda>(states, state_problems).
       let ls = (case lanes of None \<Rightarrow> [] | Some xs \<Rightarrow> xs);
           loaded = remdups (filter (\<lambda>r. r \<noteq> []) (map ln_runner_name ls));
           label_prefixes = comma_list (ra_host_label_prefixes a);
           labels = append_new (comma_list (ra_host_labels a))
             (filter (\<lambda>l. starts_with_any l label_prefixes) lane_labels);
           (own_labels, conflict) = resolve_host_labels labels label_prefixes;
           own_names = append_new (comma_list (ra_own_name_prefixes a)) (own_lane_name_prefixes ls @ lane_names);
           prefixes = append_new (append_new (comma_list (ra_prefixes a)) (runner_name_prefixes ls)) own_names
       in Inr \<lparr>rc_lanes = lanes, rc_states = states, rc_prefixes = prefixes,
            rc_protected = comma_list (ra_protected_names a), rc_persistent = comma_list (ra_persistent_runners a),
            rc_host_label_prefixes = label_prefixes, rc_own_labels = own_labels, rc_own_names = own_names,
            rc_orphans = \<lparr>ov_lane_runners = loaded,
              ov_leases = (if loaded = [] then Some [] else lease_references (re_leases e)),
              ov_bundle_mtime = re_vm_mtime e, ov_min_age = ra_orphan_age_secs a, ov_alive = pid_alive (re_host e),
              ov_host_id = host_word loaded, ov_prefixes = prefixes, ov_named = names_vm (re_names e),
              ov_record = retired_lane_record (re_root_files e), ov_retired_enabled = re_retired_enabled e\<rparr>,
            rc_tracker = tracker_path,
            rc_problems = lane_problems @ (if conflict = [] then [] else [conflict]) @ state_problems\<rparr>))))))"

subsection \<open>Tart VMs\<close>

definition tart_providers :: "string list" where
  "tart_providers = [[], ''tart-macos'', ''tart-linux'']"

definition vm_owned :: "reap_scope \<Rightarrow> string \<Rightarrow> reap_state option \<Rightarrow> bool" where
  "vm_owned c name state = (case state of None \<Rightarrow> False
   | Some s \<Rightarrow> state_field ''vm'' s = name \<and> starts_with_any name (rc_prefixes c)
       \<and> \<not> is_protected_name name (rc_protected c) \<and> state_field ''provider'' s \<in> set tart_providers
       \<and> (state_field ''runner'' s = [] \<or> starts_with_any (state_field ''runner'' s) (rc_prefixes c)))"

definition vm_decision :: "reap_args \<Rightarrow> reap_scope \<Rightarrow> int \<Rightarrow> string \<Rightarrow> bool \<Rightarrow> reap_state option
    \<Rightarrow> vm_action \<times> string list \<times> string option" where
  "vm_decision a c now name running state =
     (let owned = vm_owned c name state; protected = is_protected_name name (rc_protected c);
          age = (case state of None \<Rightarrow> 0 | Some s \<Rightarrow> rs_age s);
          alive = (case state of None \<Rightarrow> False | Some s \<Rightarrow> rs_owner_alive s);
          marker = (case state of None \<Rightarrow> False | Some s \<Rightarrow> state_field ''vm'' s = name);
          (action, problems) =
            (if owned \<and> \<not> running \<and> age \<ge> ra_stopped_age_secs a then (DeleteStoppedVm, [])
             else if owned \<and> running \<and> \<not> alive \<and> age \<ge> ra_running_age_secs a then (StopDeleteOwnerless, [])
             else if owned \<and> running \<and> alive \<and> age \<ge> ra_heartbeat_stale_secs a
             then (SuspectStaleHeartbeat, [''suspect_live_owner_stale_heartbeat:'' @ name])
             else if marker \<and> \<not> owned \<and> starts_with_any name (rc_prefixes c) \<and> protected
             then (NoAction, [''owned_marker_protected_name:'' @ name])
             else (NoAction, []))
      in if \<not> owned \<and> \<not> protected
         then (let (orphaned, reason) =
                 orphan_verdict (rc_orphans c) name running (states_by ''vm'' (rc_states c)) now
               in (if orphaned then DeleteOrphanedVm else action, problems, if reason = [] then None else Some reason))
         else (action, problems, None))"

text \<open>\<open>delete_vm\<close>: the commands it runs, and the exception or what it fixed.\<close>

definition delete_vm :: "reap_env \<Rightarrow> string \<Rightarrow> bool \<Rightarrow> reap_effect list \<times> (string + string list)" where
  "delete_vm e name running =
     ((if running then [TartStop name] else []) @ [TartDelete name],
      (case re_tart_delete e name of
         Some exc \<Rightarrow> Inl exc
       | None \<Rightarrow> Inr ((if running then [''vm_stopped:'' @ name] else []) @ [''vm_deleted:'' @ name])))"

definition unlink_state :: "reap_env \<Rightarrow> string \<Rightarrow> string \<Rightarrow> reap_pass \<Rightarrow> reap_pass" where
  "unlink_state e path failed p = (case re_unlink e path of
     None \<Rightarrow> repairs [''state_deleted:'' @ path] (does [Unlink path] p)
   | Some exc \<Rightarrow> reports [failed @ '':'' @ exc] (does [Unlink path] p))"

definition vm_fix :: "reap_env \<Rightarrow> vm_action \<Rightarrow> string \<Rightarrow> bool \<Rightarrow> reap_state option \<Rightarrow> reap_pass \<Rightarrow> reap_pass" where
  "vm_fix e action name running state p =
     (if action \<notin> {DeleteOrphanedVm, DeleteStoppedVm, StopDeleteOwnerless} then p
      else let failed = ''fix_failed:'' @ action_name action @ '':'' @ name;
               (effects, answer) = delete_vm e name (action \<noteq> DeleteOrphanedVm \<and> running);
               p1 = does effects p
           in (case answer of
                 Inl exc \<Rightarrow> reports [failed @ '':'' @ exc] p1
               | Inr items \<Rightarrow>
                   (let p2 = repairs items p1 in
                    if action = DeleteOrphanedVm then p2
                    else (case state of None \<Rightarrow> p2
                      | Some s \<Rightarrow> if rs_path s = [] then p2 else unlink_state e (rs_path s) failed p2))))"

definition vm_turn :: "reap_args \<Rightarrow> reap_env \<Rightarrow> reap_scope \<Rightarrow> pydict \<Rightarrow> reap_pass \<Rightarrow> reap_pass" where
  "vm_turn a e c vm p =
     (let name = vm_name vm in
      if name = [] then p
      else let running = is_running_state (vm_state vm);
               state = states_by ''vm'' (rc_states c) name;
               (action, problems, orphan) = vm_decision a c (re_now e) name running state;
               row = \<lparr>vr_name = name, vr_state = vm_state vm, vr_owned = vm_owned c name state,
                 vr_protected = is_protected_name name (rc_protected c),
                 vr_owner_alive = map_option rs_owner_alive state,
                 vr_age = (case state of None \<Rightarrow> 0 | Some s \<Rightarrow> rs_age s), vr_stale = (action \<noteq> NoAction),
                 vr_action = action, vr_state_file = map_option rs_path state, vr_orphan = orphan\<rparr>;
               p1 = lists_row row (reports problems p)
           in if ra_fix a then vm_fix e action name running state p1 else p1)"

subsection \<open>State files without a VM\<close>

definition state_row :: "string \<Rightarrow> string \<Rightarrow> bool \<Rightarrow> bool \<Rightarrow> bool \<Rightarrow> reap_state \<Rightarrow> vm_row" where
  "state_row name text owned protected stale s =
     \<lparr>vr_name = name, vr_state = text, vr_owned = owned, vr_protected = protected,
      vr_owner_alive = Some (rs_owner_alive s), vr_age = rs_age s, vr_stale = stale,
      vr_action = (if stale then DeleteStaleState else NoAction), vr_state_file = Some (rs_path s), vr_orphan = None\<rparr>"

definition state_turn ::
  "reap_args \<Rightarrow> reap_env \<Rightarrow> reap_scope \<Rightarrow> string list \<Rightarrow> reap_state \<Rightarrow> reap_pass \<Rightarrow> reap_pass" where
  "state_turn a e c seen s p =
     (let vm = state_field ''vm'' s; runner = state_field ''runner'' s; path = rs_path s;
          unlink = (\<lambda>p. if ra_fix a then unlink_state e path (''fix_failed:delete_stale_state:'' @ path) p else p)
      in if state_field ''provider'' s \<notin> set tart_providers then p
         else if vm = [] then
           (let protected = is_protected_name runner (rc_protected c);
                owned = (starts_with_any runner (rc_prefixes c) \<and> \<not> protected)
            in if owned \<and> path \<noteq> [] \<and> \<not> rs_owner_alive s \<and> rs_age s \<ge> ra_stopped_age_secs a
               then lists_row (state_row (if runner = [] then path else runner) ''no_vm_state'' owned protected True s) (unlink p)
               else p)
         else if vm \<in> set seen then p
         else (let protected = is_protected_name vm (rc_protected c);
                   marker = (starts_with_any vm (rc_prefixes c) \<and> \<not> protected);
                   stale = (marker \<and> \<not> rs_owner_alive s)
               in lists_row (state_row vm ''missing'' marker protected stale s) (if stale then unlink p else p)))"

subsection \<open>Windows VMs\<close>

definition safe_owned_path :: "path_env \<Rightarrow> pyval \<Rightarrow> string \<Rightarrow> string option result" where
  "safe_owned_path pe v runner = (case v of
     PStr raw \<Rightarrow>
       if strip raw = [] then Inr None
       else rbind (path_expanduser pe raw) (\<lambda>path.
         let parts = path_parts path; name = (if parts = [] then [] else last parts) in
         if path \<in> {[], ''/'', path_text (pe_home pe)} then Inr None
         else if runner \<noteq> [] \<and> (contains runner name \<or> contains runner path) then Inr (Some path)
         else if ''tartci-win'' \<in> set parts \<or> contains ''tartci'' name then Inr (Some path)
         else Inr None)
   | _ \<Rightarrow> Inr None)"

definition system_alias :: "string \<Rightarrow> string option" where
  "system_alias p = (if p = ''/var'' then Some ''/private/var'' else if p = ''/tmp'' then Some ''/private/tmp'' else None)"

fun reject_links :: "reap_env \<Rightarrow> string \<Rightarrow> string \<Rightarrow> string list \<Rightarrow> string option" where
  "reject_links e description current [] = None"
| "reject_links e description current (part # parts) =
     (let here = path_join current part in
      case re_lstat e here of
        LstatMissing \<Rightarrow> reject_links e description here parts
      | LstatError \<Rightarrow> Some (''cannot inspect '' @ description @ '' recovery path'')
      | LstatOther \<Rightarrow> reject_links e description here parts
      | LstatLink \<Rightarrow>
          if system_alias here \<noteq> None \<and> Some (path_text (re_realpath e here)) = system_alias here
          then reject_links e description here parts
          else Some (''linked Windows '' @ description @ '' recovery path''))"

definition reject_symlink_components :: "reap_env \<Rightarrow> string \<Rightarrow> string \<Rightarrow> string option" where
  "reject_symlink_components e path description =
     (if \<not> startswith path ''/'' then Some (''relative '' @ description @ '' recovery path'')
      else reject_links e description (leading_slashes path) (path_parts path))"

text \<open>The steps of a repair: a step returns the pass and the exception it raised.\<close>

type_synonym repair = "reap_pass \<Rightarrow> reap_pass \<times> string option"

definition then_do :: "repair \<Rightarrow> repair \<Rightarrow> repair" where
  "then_do f g p = (let (p', err) = f p in case err of None \<Rightarrow> g p' | Some _ \<Rightarrow> (p', err))"

definition check_that :: "string option \<Rightarrow> repair" where
  "check_that err p = (p, err)"

definition clear_flags :: "reap_env \<Rightarrow> string \<Rightarrow> repair" where
  "clear_flags e path =
     then_do (check_that (reject_symlink_components e path ''golden snapshot''))
       (\<lambda>p. if \<not> re_exists e path then (p, None)
            else if \<not> re_is_file e path then (p, Some ''non-file Windows golden snapshot recovery path'')
            else (does [ClearFlags path] p, re_chflags e path))"

definition unseal_windows_snapshot :: "reap_env \<Rightarrow> reap_state \<Rightarrow> repair" where
  "unseal_windows_snapshot e s p =
     (case safe_owned_path (re_paths e) (dget (rs_doc s) ''work_dir'') (state_field ''runner'' s) of
        Inl err \<Rightarrow> (p, Some (error_text err))
      | Inr None \<Rightarrow> (p, None)
      | Inr (Some work) \<Rightarrow>
          (case dget (rs_doc s) ''golden_snapshot'' of
             PStr raw \<Rightarrow>
               if raw = [] then (p, None)
               else let snapshot = path_text raw in
                 then_do (check_that (reject_symlink_components e work ''job directory''))
                 (then_do (check_that (if snapshot \<noteq> path_join work ''golden.qcow2''
                    then Some ''unsafe Windows golden snapshot recovery path'' else None))
                 (then_do (check_that (reject_symlink_components e snapshot ''golden snapshot''))
                 (then_do (clear_flags e snapshot) (clear_flags e (path_text (snapshot @ ''.sha256'')))))) p
           | _ \<Rightarrow> (p, None)))"

definition remove_owned_path :: "reap_env \<Rightarrow> pyval \<Rightarrow> string \<Rightarrow> repair" where
  "remove_owned_path e v runner p = (case safe_owned_path (re_paths e) v runner of
     Inl err \<Rightarrow> (p, Some (error_text err))
   | Inr None \<Rightarrow> (p, None)
   | Inr (Some path) \<Rightarrow>
       if \<not> re_exists e path then (p, None)
       else (case re_remove e path of
         Some exc \<Rightarrow> (does [RemovePath path] p, Some exc)
       | None \<Rightarrow> (repairs [''path_deleted:'' @ path] (does [RemovePath path] p), None)))"

text \<open>\<open>stop_pid\<close> after its guards: \<open>re_stop_pid\<close> answers whether the process ended after the signals, or
  the error of \<open>kill\<close>.\<close>

definition stop_pid :: "reap_env \<Rightarrow> reap_state \<Rightarrow> string \<Rightarrow> repair" where
  "stop_pid e s name p =
     (let pid_value = dget (rs_doc s) ''qemu_pid'';
          failed = Some ''QEMU still alive; preserving Windows workdir'' in
      case py_int pid_value of
        None \<Rightarrow> (p, failed)
      | Some pid \<Rightarrow>
          if pid \<le> 0 \<or> \<not> pid_alive_same (re_host e) pid_value (dget (rs_doc s) ''qemu_pid_started_at'')
          then (p, failed)
          else (case re_stop_pid e pid of
            Inl exc \<Rightarrow> (does [StopQemu pid] p, Some exc)
          | Inr False \<Rightarrow> (does [StopQemu pid] p, failed)
          | Inr True \<Rightarrow> (repairs [''qemu_stopped:'' @ name @ '':'' @ py_str pid_value] (does [StopQemu pid] p), None)))"

definition unlink_step :: "reap_env \<Rightarrow> string \<Rightarrow> repair" where
  "unlink_step e path p = (if path = [] then (p, None) else (case re_unlink e path of
     None \<Rightarrow> (repairs [''state_deleted:'' @ path] (does [Unlink path] p), None)
   | Some exc \<Rightarrow> (does [Unlink path] p, Some exc)))"

definition qemu_fix :: "reap_env \<Rightarrow> reap_state \<Rightarrow> vm_action \<Rightarrow> string \<Rightarrow> string \<Rightarrow> bool \<Rightarrow> reap_pass \<Rightarrow> reap_pass" where
  "qemu_fix e s action name runner alive p =
     (let (p', err) =
        then_do (if alive then stop_pid e s name else check_that None)
        (then_do (unseal_windows_snapshot e s)
        (then_do (remove_owned_path e (dget (rs_doc s) ''work_dir'') runner)
        (then_do (remove_owned_path e (dget (rs_doc s) ''port_lock'') runner)
          (unlink_step e (rs_path s))))) p
      in case err of None \<Rightarrow> p'
         | Some exc \<Rightarrow> reports [''fix_failed:'' @ action_name action @ '':'' @ name @ '':'' @ exc] p')"

definition qemu_name :: "reap_state \<Rightarrow> string" where
  "qemu_name s = py_str (py_or (py_or (dget (rs_doc s) ''vm'') (dget (rs_doc s) ''runner'')) (PStr []))"

definition qemu_decision :: "reap_args \<Rightarrow> bool \<Rightarrow> bool \<Rightarrow> bool \<Rightarrow> reap_state \<Rightarrow> vm_action" where
  "qemu_decision a owned unknown alive s =
     (if \<not> owned then NoAction
      else if unknown then QemuPidUnknown
      else if truthy (dget (rs_doc s) ''keep_failed'') \<and> alive \<and> rs_age s < ra_keep_failed_age_secs a then KeptFailed
      else if alive \<and> \<not> rs_owner_alive s \<and> rs_age s \<ge> ra_running_age_secs a then StopDeleteQemu
      else if \<not> alive \<and> \<not> rs_owner_alive s \<and> rs_age s \<ge> ra_stopped_age_secs a then DeleteQemuWorkdir
      else if rs_owner_alive s \<and> rs_age s \<ge> ra_heartbeat_stale_secs a then SuspectStaleQemu
      else NoAction)"

definition qemu_turn :: "reap_args \<Rightarrow> reap_env \<Rightarrow> reap_scope \<Rightarrow> reap_state \<Rightarrow> reap_pass \<Rightarrow> reap_pass" where
  "qemu_turn a e c s p =
     (if state_field ''provider'' s \<noteq> ''qemu-windows'' then p
      else let name = qemu_name s;
          runner = py_str (py_or (dget (rs_doc s) ''runner'') (PStr name));
          prefix_ok = (starts_with_any name (rc_prefixes c) \<or> starts_with_any runner (rc_prefixes c));
          protected = (is_protected_name name (rc_protected c) \<or> is_protected_name runner (rc_protected c));
          alive = pid_alive_same (re_host e) (dget (rs_doc s) ''qemu_pid'') (dget (rs_doc s) ''qemu_pid_started_at'');
          unknown = ((\<not> truthy (dget (rs_doc s) ''qemu_pid'') \<or> \<not> truthy (dget (rs_doc s) ''qemu_pid_started_at''))
            \<and> truthy (dget (rs_doc s) ''golden_snapshot'')
            \<and> dget (rs_doc s) ''phase'' \<in> {PStr ''preparing'', PStr ''booting''});
          action = qemu_decision a (prefix_ok \<and> \<not> protected) unknown alive s;
          p1 = reports (if prefix_ok \<and> protected then [''owned_marker_protected_name:'' @ name]
                 else if action = QemuPidUnknown then [''qemu_pid_unknown_preserve:'' @ name]
                 else if action = SuspectStaleQemu then [''suspect_live_owner_stale_qemu_heartbeat:'' @ name]
                 else []) p;
          p2 = (if ra_fix a \<and> action \<in> {StopDeleteQemu, DeleteQemuWorkdir}
                then qemu_fix e s action name runner alive p1 else p1)
      in lists_row \<lparr>vr_name = name, vr_state = (if unknown then ''unknown'' else if alive then ''running'' else ''stopped''),
           vr_owned = (prefix_ok \<and> \<not> protected), vr_protected = protected, vr_owner_alive = Some (rs_owner_alive s),
           vr_age = rs_age s, vr_stale = (action \<in> {StopDeleteQemu, DeleteQemuWorkdir, SuspectStaleQemu}),
           vr_action = action, vr_state_file = Some (rs_path s), vr_orphan = None\<rparr> p2)"

subsection \<open>Runner registrations\<close>

datatype runner_action =
    NoRunnerAction | WaitForLiveSupervisor | SuspectStaleOffline | KeepNotMintedHere | WaitOfflineAge
  | DeleteOfflineRunner | OfflineBusyLive | OfflineBusyUnconfirmed | OfflineBusyOrphaned

record listed_runner =
  lu_row :: api_row
  lu_endpoint :: string

record runner_verdict =
  rv_action :: runner_action
  rv_stale :: bool
  rv_problems :: "string list"
  rv_refusal :: string
  rv_seen :: "offline_row option"

definition runner_name_of :: "listed_runner \<Rightarrow> string" where
  "runner_name_of u = text_field (ar_fields (lu_row u)) ''name''"

definition offline_key :: "listed_runner \<Rightarrow> string" where
  "offline_key u = lu_endpoint u @ ''#'' @ py_str (dget (ar_fields (lu_row u)) ''id'') @ ''#'' @
     py_str (dget (ar_fields (lu_row u)) ''name'')"

definition load_offline_tracker :: "tracker_file \<Rightarrow> tracker" where
  "load_offline_tracker f = (case f of TrackerUnreadable \<Rightarrow> Map.empty | TrackerStored t \<Rightarrow> t)"

definition runner_state :: "reap_scope \<Rightarrow> string \<Rightarrow> reap_state option" where
  "runner_state c name = (case states_by ''runner'' (rc_states c) name of
     Some s \<Rightarrow> Some s | None \<Rightarrow> states_by ''vm'' (rc_states c) name)"

definition live_fresh_supervisor :: "reap_args \<Rightarrow> reap_state option \<Rightarrow> bool" where
  "live_fresh_supervisor a state = (case state of None \<Rightarrow> False
   | Some s \<Rightarrow> state_field ''provider'' s \<in> set tart_providers \<and> rs_owner_alive s
       \<and> rs_age s < ra_heartbeat_stale_secs a)"

definition runner_offline :: "listed_runner \<Rightarrow> bool" where
  "runner_offline u = (text_field (ar_fields (lu_row u)) ''status'' = ''offline'')"

definition runner_busy :: "listed_runner \<Rightarrow> bool" where
  "runner_busy u = truthy (dget (ar_fields (lu_row u)) ''busy'')"

definition next_seen :: "int \<Rightarrow> offline_row option \<Rightarrow> offline_row" where
  "next_seen now old = (case old of
     None \<Rightarrow> \<lparr>of_first = now, of_passes = 1\<rparr>
   | Some r \<Rightarrow> \<lparr>of_first = of_first r, of_passes = of_passes r + 1\<rparr>)"

text \<open>\<open>float(seen.get("first_offline") or now_epoch)\<close>.\<close>

definition offline_for :: "int \<Rightarrow> offline_row \<Rightarrow> int" where
  "offline_for now seen = now - (if of_first seen = 0 then now else of_first seen)"

definition runner_decision :: "reap_args \<Rightarrow> reap_scope \<Rightarrow> int \<Rightarrow> tracker \<Rightarrow> listed_runner \<Rightarrow> runner_verdict" where
  "runner_decision a c now tracker u =
     (let name = runner_name_of u; state = runner_state c name;
          alive = (case state of None \<Rightarrow> False | Some s \<Rightarrow> rs_owner_alive s);
          answer = (\<lambda>action stale problems refusal seen. \<lparr>rv_action = action, rv_stale = stale,
             rv_problems = problems, rv_refusal = refusal, rv_seen = seen\<rparr>)
      in if runner_offline u \<and> \<not> runner_busy u then
           (if live_fresh_supervisor a state then answer WaitForLiveSupervisor False [] [] None
            else if alive then answer SuspectStaleOffline True [''suspect_live_owner_stale_offline_runner:'' @ name] [] None
            else let refusal = foreign_runner_reason (lu_row u) (rc_persistent c) (rc_host_label_prefixes c)
                       (rc_own_labels c) (rc_own_names c) in
              if refusal \<noteq> [] then answer KeepNotMintedHere False [] refusal None
              else let seen = next_seen now (tracker (offline_key u)) in
                if of_passes seen < ra_min_offline_passes a
                   \<or> offline_for now seen < ra_min_offline_secs a * 1000000
                then answer WaitOfflineAge False [] ''offline_too_recent'' (Some seen)
                else answer DeleteOfflineRunner True [] [] (Some seen))
         else if runner_offline u then
           (if live_fresh_supervisor a state then answer OfflineBusyLive True [''offline_busy_live_local_owner:'' @ name] [] None
            else if state \<noteq> None
            then answer OfflineBusyUnconfirmed True [''offline_busy_unconfirmed_local_state:'' @ name] [] None
            else answer OfflineBusyOrphaned True [''offline_busy_orphaned_no_local_owner:'' @ name] [] None)
         else answer NoRunnerAction False [] [] None)"

definition runner_url :: "reap_args \<Rightarrow> listed_runner \<Rightarrow> string" where
  "runner_url a u = (if lu_endpoint u = [] then ''repos/'' @ ra_repo a @ ''/actions/runners'' else lu_endpoint u)
     @ ''/'' @ py_str (dget (ar_fields (lu_row u)) ''id'')"

definition delete_runner :: "reap_args \<Rightarrow> reap_env \<Rightarrow> listed_runner \<Rightarrow> reap_pass \<Rightarrow> reap_pass" where
  "delete_runner a e u p =
     (let url = runner_url a u; name = runner_name_of u; p1 = does [DeleteRunner url] p in
      case re_runner_delete e url of
        None \<Rightarrow> repairs [''github_runner_deleted:'' @ name @ '':'' @ py_str (dget (ar_fields (lu_row u)) ''id'')] p1
      | Some exc \<Rightarrow> reports [''fix_failed:delete_offline_runner:'' @ name @ '':'' @ exc] p1)"

text \<open>The rows of the census the loop looks at.\<close>

definition inspected :: "reap_scope \<Rightarrow> listed_runner list \<Rightarrow> listed_runner list" where
  "inspected c us = filter (\<lambda>u. starts_with_any (runner_name_of u) (rc_prefixes c)) us"

definition runner_turn :: "reap_args \<Rightarrow> reap_env \<Rightarrow> reap_scope \<Rightarrow> tracker \<Rightarrow> listed_runner \<Rightarrow> reap_pass \<Rightarrow> reap_pass" where
  "runner_turn a e c tracker u p =
     (let v = runner_decision a c (re_now e) tracker u; p1 = reports (rv_problems v) p in
      if ra_fix a \<and> rv_action v = DeleteOfflineRunner then delete_runner a e u p1 else p1)"

text \<open>The clocks the pass has seen: a later row of the same key writes the same value.\<close>

definition offline_seen :: "reap_args \<Rightarrow> reap_scope \<Rightarrow> int \<Rightarrow> tracker \<Rightarrow> listed_runner list \<Rightarrow> tracker" where
  "offline_seen a c now tracker us = map_of (rev (List.map_filter (\<lambda>u.
     map_option (\<lambda>seen. (offline_key u, seen)) (rv_seen (runner_decision a c now tracker u))) us))"

text \<open>\<open>github_runners\<close>: the rows with the endpoint that owns them, or the code of a census that could not
  be read.\<close>

definition github_runners :: "reap_args \<Rightarrow> reap_env \<Rightarrow> string + (listed_runner list \<times> string list)" where
  "github_runners a e = (case collect (ra_repo a) (re_fetch e) of
     Inl err \<Rightarrow> Inl (''github_unreadable:'' @ error_text err)
   | Inr census \<Rightarrow>
       if unreachable census \<noteq> [] \<and> length (unreachable census) = length (cn_scopes census)
       then Inl ''github_runners_unreadable''
       else Inr (map (\<lambda>r. \<lparr>lu_row = rr_raw r, lu_endpoint = rr_endpoint r\<rparr>) (runners census),
                 map (\<lambda>s. ''github_runners_scope_unreadable:'' @ scope_name (sc_scope s)) (unreachable census)))"

subsection \<open>The pass\<close>

text \<open>\<open>macos_running_count\<close>; the left value is the code of an observation that failed.\<close>

fun macos_running_count :: "reap_env \<Rightarrow> pydict list \<Rightarrow> string + int" where
  "macos_running_count e [] = Inr 0"
| "macos_running_count e (vm # vms) =
     (if \<not> is_running_state (vm_state vm) then macos_running_count e vms
      else (case (if vm_name vm = [] then OsUnknown else re_tart_os e (vm_name vm)) of
        OsRefused code \<Rightarrow> Inl code
      | OsUnknown \<Rightarrow> map_sum id (\<lambda>n. n + 1) (macos_running_count e vms)
      | OsIs os \<Rightarrow> if lower os \<in> {[], ''darwin'', ''macos''}
          then map_sum id (\<lambda>n. n + 1) (macos_running_count e vms) else macos_running_count e vms))"

definition observed_vms :: "reap_env \<Rightarrow> string + pydict list" where
  "observed_vms e = (case re_tart e of
     TartRaised code \<Rightarrow> Inl code
   | TartVms vms \<Rightarrow> (case macos_running_count e vms of Inl code \<Rightarrow> Inl code | Inr _ \<Rightarrow> Inr vms))"

record digest =
  dg_pass :: reap_pass
  dg_runners :: "(listed_runner \<times> runner_verdict) list"
  dg_unreadable :: "string list"
  dg_tracker :: tracker_file

definition tart_phase :: "reap_args \<Rightarrow> reap_env \<Rightarrow> reap_scope \<Rightarrow> reap_pass \<Rightarrow> reap_pass \<times> string list" where
  "tart_phase a e c p =
     (if re_missing_tools e \<noteq> [] then (p, map (\<lambda>t. ''missing_tool:'' @ t) (re_missing_tools e))
      else (case observed_vms e of
        Inl code \<Rightarrow> (p, [code])
      | Inr vms \<Rightarrow> (fold (state_turn a e c (filter (\<lambda>n. n \<noteq> []) (map vm_name vms))) (rc_states c) (fold (vm_turn a e c) vms p), [])))"

definition runner_phase ::
  "reap_args \<Rightarrow> reap_env \<Rightarrow> reap_scope \<Rightarrow> tracker \<Rightarrow> string list \<Rightarrow> reap_pass
   \<Rightarrow> reap_pass \<times> string list \<times> listed_runner list" where
  "runner_phase a e c tracker unreadable p =
     (if unreadable \<noteq> [] then (p, unreadable, [])
      else (case github_runners a e of
        Inl code \<Rightarrow> (p, [code], [])
      | Inr (us, problems) \<Rightarrow>
          (fold (runner_turn a e c tracker) (inspected c us) (reports problems p), [], inspected c us)))"

definition build_digest :: "reap_args \<Rightarrow> reap_env \<Rightarrow> tracker_file \<Rightarrow> digest result" where
  "build_digest a e file = rbind (reap_scope_of a e) (\<lambda>c.
     let tracker = load_offline_tracker file;
         p0 = \<lparr>rp_effects = [], rp_fixed = [], rp_problems = rc_problems c, rp_vms = []\<rparr>;
         (p1, blind) = tart_phase a e c p0;
         p2 = fold (qemu_turn a e c) (rc_states c) p1;
         (p3, unreadable, us) = runner_phase a e c tracker blind p2;
         writes = (unreadable = [] \<and> \<not> ra_dry_run a);
         p4 = (if writes then (case write_error (re_tracker_write e) of None \<Rightarrow> p3
                | Some exc \<Rightarrow> reports [''offline_tracker_unwritable:'' @ exc] p3) else p3);
         p5 = (case coverage_problem (coverage (int (length (rc_states c))) (rc_lanes c) ''launchctl'') of
                None \<Rightarrow> p4 | Some problem \<Rightarrow> reports [problem] p4)
     in Inr \<lparr>dg_pass = p5, dg_runners = map (\<lambda>u. (u, runner_decision a c (re_now e) tracker u)) us,
          dg_unreadable = unreadable,
          dg_tracker = (if writes
            then write_tracker (re_tracker_write e) (offline_seen a c (re_now e) tracker us) file else file)\<rparr>)"

definition digest_problems :: "digest \<Rightarrow> string list" where
  "digest_problems d = sort (remdups (rp_problems (dg_pass d) @ dg_unreadable d))"

definition digest_rc :: "reap_args \<Rightarrow> digest \<Rightarrow> int" where
  "digest_rc a d =
     (if dg_unreadable d \<noteq> [] then 2
      else if digest_problems d \<noteq> [] then 1
      else if list_ex (\<lambda>r. vr_stale r \<and> vr_action r \<noteq> NoAction) (rp_vms (dg_pass d)) \<and> \<not> ra_fix a then 1
      else if list_ex (\<lambda>(u, v). rv_stale v \<and> rv_action v \<noteq> NoRunnerAction) (dg_runners d) \<and> \<not> ra_fix a then 1
      else 0)"

definition reap_main :: "reap_args \<Rightarrow> reap_env \<Rightarrow> tracker_file \<Rightarrow> (digest \<times> int) result" where
  "reap_main a e file =
     (let a' = (if ra_dry_run a then a\<lparr>ra_fix := False\<rparr> else a) in
      rbind (build_digest a' e file) (\<lambda>d. Inr (d, digest_rc a' d)))"

subsection \<open>Which effects a turn has\<close>

lemma does_simps [simp]: "rp_effects (does es p) = rp_effects p @ es" "rp_effects (repairs xs p) = rp_effects p"
  "rp_effects (reports xs p) = rp_effects p" "rp_effects (lists_row r p) = rp_effects p"
  by (simp_all add: does_def repairs_def reports_def lists_row_def)

lemma unlink_state_effects [simp]: "rp_effects (unlink_state e path failed p) = rp_effects p @ [Unlink path]"
  by (simp add: unlink_state_def split: option.split)

text \<open>A turn confined to the effects \<open>Q\<close>, and what a fold of turns does.\<close>

definition confined :: "(reap_effect \<Rightarrow> bool) \<Rightarrow> (reap_pass \<Rightarrow> reap_pass) \<Rightarrow> bool" where
  "confined Q f = (\<forall>p eff. eff \<in> set (rp_effects (f p)) \<longrightarrow> eff \<in> set (rp_effects p) \<or> Q eff)"

lemma confinedI: "(\<And>p eff. eff \<in> set (rp_effects (f p)) \<Longrightarrow> eff \<in> set (rp_effects p) \<or> Q eff) \<Longrightarrow> confined Q f"
  by (simp add: confined_def)

lemma fold_confined:
  assumes "\<And>x. x \<in> set xs \<Longrightarrow> confined (Q x) (f x)" and "eff \<in> set (rp_effects (fold f xs p))"
  shows "eff \<in> set (rp_effects p) \<or> (\<exists>x \<in> set xs. Q x eff)"
  using assms
proof (induction xs arbitrary: p)
  case (Cons x xs)
  then have "eff \<in> set (rp_effects (f x p)) \<or> (\<exists>x \<in> set xs. Q x eff)" by simp
  moreover have "confined (Q x) (f x)" using Cons.prems(1) by simp
  ultimately show ?case by (auto simp: confined_def)
qed simp

definition vm_effect :: "reap_args \<Rightarrow> reap_env \<Rightarrow> reap_scope \<Rightarrow> pydict \<Rightarrow> reap_effect \<Rightarrow> bool" where
  "vm_effect a e c vm eff =
     (ra_fix a \<and> vm_name vm \<noteq> []
      \<and> fst (vm_decision a c (re_now e) (vm_name vm) (is_running_state (vm_state vm))
              (states_by ''vm'' (rc_states c) (vm_name vm))) \<in> {DeleteOrphanedVm, DeleteStoppedVm, StopDeleteOwnerless}
      \<and> (case eff of TartDelete name \<Rightarrow> name = vm_name vm | TartStop name \<Rightarrow> name = vm_name vm
         | Unlink _ \<Rightarrow> True | _ \<Rightarrow> False))"

lemma vm_turn_confined: "confined (vm_effect a e c vm) (vm_turn a e c vm)"
  by (rule confinedI)
    (auto simp: vm_turn_def vm_fix_def delete_vm_def Let_def vm_effect_def case_prod_beta
      split: if_splits option.splits)

lemma state_turn_confined: "confined (\<lambda>eff. ra_fix a \<and> (\<exists>path. eff = Unlink path)) (state_turn a e c seen s)"
  by (rule confinedI) (auto simp: state_turn_def Let_def split: if_splits)

definition file_effect :: "reap_effect \<Rightarrow> bool" where
  "file_effect eff = (case eff of Unlink _ \<Rightarrow> True | StopQemu _ \<Rightarrow> True | ClearFlags _ \<Rightarrow> True | RemovePath _ \<Rightarrow> True | _ \<Rightarrow> False)"

lemma file_effect_simps [simp]:
  "file_effect (Unlink x)" "file_effect (StopQemu i)" "file_effect (ClearFlags x)" "file_effect (RemovePath x)"
  "\<not> file_effect (TartDelete x)" "\<not> file_effect (TartStop x)" "\<not> file_effect (DeleteRunner x)"
  by (simp_all add: file_effect_def)

definition repair_confined :: "repair \<Rightarrow> bool" where
  "repair_confined f = confined file_effect (\<lambda>p. fst (f p))"

lemma then_do_confined: "repair_confined f \<Longrightarrow> repair_confined g \<Longrightarrow> repair_confined (then_do f g)"
  by (auto simp: repair_confined_def confined_def then_do_def case_prod_beta Let_def split: option.split)

lemma check_that_confined: "repair_confined (check_that err)"
  by (simp add: repair_confined_def confined_def check_that_def)

lemma clear_flags_confined: "repair_confined (clear_flags e path)"
  unfolding clear_flags_def
  by (intro then_do_confined check_that_confined) (auto simp: repair_confined_def confined_def)

lemma unseal_confined: "repair_confined (unseal_windows_snapshot e s)"
proof -
  have "repair_confined (then_do (check_that x) (then_do (check_that y) (then_do (check_that z)
      (then_do (clear_flags e u) (clear_flags e w)))))" for x y z u w
    by (intro then_do_confined check_that_confined clear_flags_confined)
  then show ?thesis
    unfolding repair_confined_def confined_def unseal_windows_snapshot_def
    by (auto simp: Let_def split: sum.split option.split pyval.split)
qed

lemma simple_repairs_confined:
  "repair_confined (remove_owned_path e v runner)" "repair_confined (stop_pid e s name)" "repair_confined (unlink_step e path)"
  by (auto simp: repair_confined_def confined_def remove_owned_path_def stop_pid_def unlink_step_def Let_def
      split: sum.splits option.splits bool.splits if_splits)

lemma qemu_fix_confined: "confined file_effect (qemu_fix e s action name runner alive)"
proof -
  have "repair_confined (then_do (if alive then stop_pid e s name else check_that None)
        (then_do (unseal_windows_snapshot e s)
        (then_do (remove_owned_path e (dget (rs_doc s) ''work_dir'') runner)
        (then_do (remove_owned_path e (dget (rs_doc s) ''port_lock'') runner)
          (unlink_step e (rs_path s))))))"
    by (intro then_do_confined unseal_confined simple_repairs_confined) (simp add: check_that_confined simple_repairs_confined)
  then show ?thesis
    by (auto simp: repair_confined_def confined_def qemu_fix_def case_prod_beta Let_def split: option.splits)
qed

lemma qemu_turn_confined: "confined (\<lambda>eff. ra_fix a \<and> file_effect eff) (qemu_turn a e c s)"
  by (rule confinedI)
    (auto simp: qemu_turn_def Let_def split: if_splits dest!: qemu_fix_confined [unfolded confined_def, rule_format])

definition runner_effect :: "reap_args \<Rightarrow> reap_scope \<Rightarrow> int \<Rightarrow> tracker \<Rightarrow> listed_runner \<Rightarrow> reap_effect \<Rightarrow> bool" where
  "runner_effect a c now tracker u eff =
     (ra_fix a \<and> eff = DeleteRunner (runner_url a u)
      \<and> rv_action (runner_decision a c now tracker u) = DeleteOfflineRunner)"

lemma runner_turn_confined: "confined (runner_effect a c (re_now e) tracker u) (runner_turn a e c tracker u)"
  by (rule confinedI) (auto simp: runner_turn_def delete_runner_def runner_effect_def Let_def split: if_splits option.splits)

lemma tart_phase_effects:
  assumes "eff \<in> set (rp_effects (fst (tart_phase a e c p)))"
  shows "eff \<in> set (rp_effects p) \<or> (ra_fix a \<and> file_effect eff)
    \<or> (\<exists>vms vm. observed_vms e = Inr vms \<and> vm \<in> set vms \<and> vm_effect a e c vm eff)"
proof (cases "re_missing_tools e \<noteq> [] \<or> (\<exists>code. observed_vms e = Inl code)")
  case True
  with assms show ?thesis by (auto simp: tart_phase_def split: if_splits)
next
  case False
  then obtain vms where vms: "observed_vms e = Inr vms" "re_missing_tools e = []" by (cases "observed_vms e") auto
  let ?seen = "filter (\<lambda>n. n \<noteq> []) (map vm_name vms)"
  have "eff \<in> set (rp_effects (fold (state_turn a e c ?seen) (rc_states c) (fold (vm_turn a e c) vms p)))"
    using assms vms by (simp add: tart_phase_def)
  then have "eff \<in> set (rp_effects (fold (vm_turn a e c) vms p)) \<or> (ra_fix a \<and> (\<exists>path. eff = Unlink path))"
    using fold_confined [where Q = "\<lambda>s eff. ra_fix a \<and> (\<exists>path. eff = Unlink path)" and f = "state_turn a e c ?seen"]
      state_turn_confined by blast
  moreover have "eff \<in> set (rp_effects p) \<or> (\<exists>vm \<in> set vms. vm_effect a e c vm eff)"
    if "eff \<in> set (rp_effects (fold (vm_turn a e c) vms p))"
    using fold_confined [OF _ that] vm_turn_confined by blast
  ultimately show ?thesis using vms(1) by auto
qed

lemma runner_phase_effects:
  assumes "runner_phase a e c tracker blind p = (p', unreadable, us)" and "eff \<in> set (rp_effects p')"
  shows "eff \<in> set (rp_effects p)
    \<or> (unreadable = [] \<and> (\<exists>u \<in> set us. runner_effect a c (re_now e) tracker u eff))"
proof (cases "blind \<noteq> [] \<or> (\<exists>code. github_runners a e = Inl code)")
  case True
  with assms show ?thesis by (auto simp: runner_phase_def split: if_splits)
next
  case False
  then obtain rows problems where rows: "github_runners a e = Inr (rows, problems)" "blind = []"
    by (cases "github_runners a e") auto
  then have "p' = fold (runner_turn a e c tracker) (inspected c rows) (reports problems p)"
      "unreadable = []" "us = inspected c rows"
    using assms(1) by (auto simp: runner_phase_def)
  moreover have "eff \<in> set (rp_effects (reports problems p)) \<or> (\<exists>u \<in> set us. runner_effect a c (re_now e) tracker u eff)"
    using fold_confined [where f = "runner_turn a e c tracker" and Q = "runner_effect a c (re_now e) tracker"]
      runner_turn_confined assms(2) calculation by blast
  ultimately show ?thesis by simp
qed

text \<open>The phases of a pass and where its effects come from.\<close>

lemma digest_scope: "build_digest a e file = Inr d \<Longrightarrow> \<exists>c. reap_scope_of a e = Inr c"
  by (auto simp: build_digest_def rbind_eq_Inr)

lemma build_digest_phases:
  assumes "build_digest a e file = Inr d" and "reap_scope_of a e = Inr c"
  obtains p1 blind p3 unreadable us where
    "tart_phase a e c \<lparr>rp_effects = [], rp_fixed = [], rp_problems = rc_problems c, rp_vms = []\<rparr> = (p1, blind)"
    "runner_phase a e c (load_offline_tracker file) blind (fold (qemu_turn a e c) (rc_states c) p1) = (p3, unreadable, us)"
    "rp_effects (dg_pass d) = rp_effects p3" "dg_unreadable d = unreadable"
    "dg_runners d = map (\<lambda>u. (u, runner_decision a c (re_now e) (load_offline_tracker file) u)) us"
    "dg_tracker d = (if unreadable = [] \<and> \<not> ra_dry_run a
       then write_tracker (re_tracker_write e) (offline_seen a c (re_now e) (load_offline_tracker file) us) file else file)"
proof -
  obtain p1 blind where p1: "tart_phase a e c \<lparr>rp_effects = [], rp_fixed = [], rp_problems = rc_problems c, rp_vms = []\<rparr> = (p1, blind)"
    by fastforce
  obtain p3 unreadable us where p3: "runner_phase a e c (load_offline_tracker file) blind (fold (qemu_turn a e c) (rc_states c) p1)
      = (p3, unreadable, us)" by (metis prod_cases3)
  show ?thesis
  proof (rule that [OF p1 p3])
    show "rp_effects (dg_pass d) = rp_effects p3" "dg_unreadable d = unreadable"
      "dg_runners d = map (\<lambda>u. (u, runner_decision a c (re_now e) (load_offline_tracker file) u)) us"
      "dg_tracker d = (if unreadable = [] \<and> \<not> ra_dry_run a
         then write_tracker (re_tracker_write e) (offline_seen a c (re_now e) (load_offline_tracker file) us) file else file)"
      using assms(1) by (auto simp: build_digest_def assms(2) p1 p3 Let_def split: option.splits if_splits)
  qed
qed

lemma digest_effects:
  assumes "build_digest a e file = Inr d" and "reap_scope_of a e = Inr c" and "eff \<in> set (rp_effects (dg_pass d))"
  shows "(ra_fix a \<and> file_effect eff)
    \<or> (\<exists>vms vm. observed_vms e = Inr vms \<and> vm \<in> set vms \<and> vm_effect a e c vm eff)
    \<or> (dg_unreadable d = [] \<and> (\<exists>u v. (u, v) \<in> set (dg_runners d)
         \<and> runner_effect a c (re_now e) (load_offline_tracker file) u eff))"
proof -
  obtain p1 blind p3 unreadable us where
    p1: "tart_phase a e c \<lparr>rp_effects = [], rp_fixed = [], rp_problems = rc_problems c, rp_vms = []\<rparr> = (p1, blind)"
    and p3: "runner_phase a e c (load_offline_tracker file) blind (fold (qemu_turn a e c) (rc_states c) p1) = (p3, unreadable, us)"
    and d: "rp_effects (dg_pass d) = rp_effects p3" "dg_unreadable d = unreadable"
      "dg_runners d = map (\<lambda>u. (u, runner_decision a c (re_now e) (load_offline_tracker file) u)) us"
    by (rule build_digest_phases [OF assms(1,2)])
  have "eff \<in> set (rp_effects p3)" using assms(3) d(1) by simp
  from runner_phase_effects [OF p3 this]
  consider "eff \<in> set (rp_effects (fold (qemu_turn a e c) (rc_states c) p1))"
    | "unreadable = []" "\<exists>u \<in> set us. runner_effect a c (re_now e) (load_offline_tracker file) u eff" by blast
  then show ?thesis
  proof cases
    case 1
    then have "eff \<in> set (rp_effects p1) \<or> (ra_fix a \<and> file_effect eff)"
      using fold_confined [where Q = "\<lambda>s eff. ra_fix a \<and> file_effect eff" and f = "qemu_turn a e c"] qemu_turn_confined
      by blast
    then show ?thesis
      using tart_phase_effects [of eff a e c "\<lparr>rp_effects = [], rp_fixed = [], rp_problems = rc_problems c, rp_vms = []\<rparr>"] p1
      by auto
  next
    case 2
    then show ?thesis using d by force
  qed
qed

subsection \<open>Only residue is deleted\<close>

text \<open>A state file owns the VM and nothing speaks for it: it is stopped and its heartbeat is old, or it
  runs, its supervisor is gone and the heartbeat is older still.\<close>

definition marked_residue :: "reap_args \<Rightarrow> reap_scope \<Rightarrow> string \<Rightarrow> bool \<Rightarrow> bool" where
  "marked_residue a c name running =
     (case states_by ''vm'' (rc_states c) name of None \<Rightarrow> False
      | Some s \<Rightarrow> vm_owned c name (Some s)
          \<and> (if running then \<not> rs_owner_alive s \<and> rs_age s \<ge> ra_running_age_secs a else rs_age s \<ge> ra_stopped_age_secs a))"

lemma vm_decision_deletes:
  assumes "fst (vm_decision a c now name running (states_by ''vm'' (rc_states c) name))
     \<in> {DeleteOrphanedVm, DeleteStoppedVm, StopDeleteOwnerless}"
  shows "\<not> is_protected_name name (rc_protected c)
    \<and> (marked_residue a c name running
       \<or> fst (orphan_verdict (rc_orphans c) name running (states_by ''vm'' (rc_states c)) now))"
proof (cases "states_by ''vm'' (rc_states c) name")
  case None
  with assms show ?thesis
    by (auto simp: vm_decision_def marked_residue_def vm_owned_def Let_def case_prod_beta split: if_splits)
next
  case (Some s)
  then have "\<not> fst (orphan_verdict (rc_orphans c) name running (states_by ''vm'' (rc_states c)) now)"
    by (auto simp: orphan_verdict_def abandoned_iff split: option.split)
  with assms Some show ?thesis
    by (auto simp: vm_decision_def marked_residue_def vm_owned_def Let_def case_prod_beta split: if_splits)
qed

lemma deleted_vm_residue:
  assumes "build_digest a e file = Inr d" and "reap_scope_of a e = Inr c"
    and "TartDelete name \<in> set (rp_effects (dg_pass d))"
  shows "ra_fix a \<and> \<not> is_protected_name name (rc_protected c)
    \<and> (\<exists>vms vm. re_tart e = TartVms vms \<and> vm \<in> set vms \<and> vm_name vm = name
        \<and> (marked_residue a c name (is_running_state (vm_state vm))
           \<or> fst (orphan_verdict (rc_orphans c) name (is_running_state (vm_state vm))
                (states_by ''vm'' (rc_states c)) (re_now e))))"
proof -
  obtain vms vm where vm: "observed_vms e = Inr vms" "vm \<in> set vms" "vm_effect a e c vm (TartDelete name)"
    using digest_effects [OF assms] by (auto simp: runner_effect_def)
  then have "re_tart e = TartVms vms" by (auto simp: observed_vms_def split: tart_answer.splits sum.splits)
  moreover have "ra_fix a" "vm_name vm = name" and act: "fst (vm_decision a c (re_now e) name (is_running_state (vm_state vm))
      (states_by ''vm'' (rc_states c) name)) \<in> {DeleteOrphanedVm, DeleteStoppedVm, StopDeleteOwnerless}"
    using vm(3) by (auto simp: vm_effect_def)
  ultimately show ?thesis using vm(2) vm_decision_deletes [OF act] by blast
qed

text \<open>An abandoned boot, stated from the observations alone: the VM is stopped and named
  \<open><runner>-<pid>-<n>\<close>, that process is gone, no state file names the VM, the lease store could be read and
  no lease names it; its runner is that of a loaded lane and the bundle is untouched for the orphan age,
  or it is that of a retired lane whose state file recorded exactly this boot, the host opted in, no
  tartci file names the VM and the bundle is untouched for a day at least.\<close>

definition abandoned_boot :: "reap_args \<Rightarrow> reap_env \<Rightarrow> reap_scope \<Rightarrow> string \<Rightarrow> bool \<Rightarrow> bool" where
  "abandoned_boot a e c name running =
     (\<exists>runner pid n refs mtime. boot_name name = Some (runner, pid, n) \<and> \<not> running
        \<and> \<not> pid_alive (re_host e) (case int_of_string pid of Some k \<Rightarrow> k | None \<Rightarrow> 0)
        \<and> (\<forall>s \<in> set (rc_states c). state_field ''vm'' s \<noteq> name)
        \<and> lease_references (re_leases e) = Some refs \<and> (\<forall>ref \<in> set refs. ref \<noteq> name \<and> \<not> endswith ref (''-'' @ name))
        \<and> re_vm_mtime e name = Some mtime
        \<and> (runner \<in> set (ov_lane_runners (rc_orphans c)) \<and> ra_orphan_age_secs a * 1000000 \<le> re_now e - mtime
           \<or> retired_lane_record (re_root_files e) name runner pid \<and> re_retired_enabled e \<and> \<not> names_vm (re_names e) name
             \<and> max (ra_orphan_age_secs a) 86400 * 1000000 \<le> re_now e - mtime))"

lemma boot_name_nonempty: "boot_name name = Some (runner, pid, n) \<Longrightarrow> name \<noteq> []"
  by (auto simp: boot_name_def number_suffix_def)

lemma orphan_abandoned:
  assumes "reap_scope_of a e = Inr c"
    and "fst (orphan_verdict (rc_orphans c) name running (states_by ''vm'' (rc_states c)) (re_now e))"
  shows "abandoned_boot a e c name running"
proof -
  let ?v = "rc_orphans c"
  have v: "ov_bundle_mtime ?v = re_vm_mtime e" "ov_min_age ?v = ra_orphan_age_secs a" "ov_alive ?v = pid_alive (re_host e)"
    "ov_named ?v = names_vm (re_names e)" "ov_record ?v = retired_lane_record (re_root_files e)"
    "ov_retired_enabled ?v = re_retired_enabled e" "ov_host_id ?v = host_word (ov_lane_runners ?v)"
    "ov_leases ?v = (if ov_lane_runners ?v = [] then Some [] else lease_references (re_leases e))"
    using assms(1) by (auto simp: reap_scope_of_def rbind_eq_Inr Let_def case_prod_beta)
  obtain runner pid n where name: "boot_name name = Some (runner, pid, n)"
    using assms(2) by (auto simp: orphan_verdict_def split: option.splits)
  have loaded: "ov_lane_runners ?v \<noteq> []"
    using assms(2) name v(7) by (auto simp: orphan_verdict_def host_word_def retired_lane_runner_def split: if_splits)
  have free: "states_by ''vm'' (rc_states c) name = None \<Longrightarrow> \<forall>s \<in> set (rc_states c). state_field ''vm'' s \<noteq> name"
    using boot_name_nonempty [OF name] by (force simp: states_by_def map_of_eq_None_iff)
  show ?thesis
    using assms(2) name loaded free
    by (cases "runner \<in> set (ov_lane_runners ?v)")
      (auto simp: orphan_verdict_def abandoned_iff abandoned_boot_def v RETIRED_LANE_MIN_AGE_SECS_def split: if_splits)
qed

text \<open>C11: the janitor deletes nothing but residue. Every VM a pass deletes was listed by Tart, the pass
  runs with \<open>--fix\<close>, the name is not protected, and either a state file of this host owns the VM and
  its heartbeat is old enough (and its supervisor gone, if it runs), or the VM is an
  abandoned boot: stopped, its supervisor gone, named by no state file and no lease of the store, and
  untouched for the orphan age.\<close>

theorem reap_deletes_only_residue:
  assumes "build_digest a e file = Inr d" and "reap_scope_of a e = Inr c"
    and "TartDelete name \<in> set (rp_effects (dg_pass d))"
  shows "ra_fix a \<and> \<not> is_protected_name name (rc_protected c)
    \<and> (\<exists>vms vm. re_tart e = TartVms vms \<and> vm \<in> set vms \<and> vm_name vm = name
        \<and> (marked_residue a c name (is_running_state (vm_state vm))
           \<or> abandoned_boot a e c name (is_running_state (vm_state vm))))"
  using deleted_vm_residue [OF assms] orphan_abandoned [OF assms(2)] by blast

text \<open>C22: a dry run changes nothing. Whatever the other options, the pass of \<open>main\<close> under \<open>--dry-run\<close> has
  no effect on VMs, registrations or files, and leaves the clocks of offline runners as they were.\<close>

theorem dry_run_changes_nothing:
  assumes "reap_main a e file = Inr (d, rc)" and "ra_dry_run a"
  shows "rp_effects (dg_pass d) = [] \<and> dg_tracker d = file"
proof -
  let ?a = "a\<lparr>ra_fix := False\<rparr>"
  have d: "build_digest ?a e file = Inr d" using assms by (auto simp: reap_main_def rbind_eq_Inr Let_def)
  obtain c where c: "reap_scope_of ?a e = Inr c" using digest_scope [OF d] by blast
  have "eff \<notin> set (rp_effects (dg_pass d))" for eff
    using digest_effects [OF d c, of eff] by (auto simp: vm_effect_def runner_effect_def)
  then have "rp_effects (dg_pass d) = []" by (cases "rp_effects (dg_pass d)") auto
  moreover have "dg_tracker d = file"
    using assms(2) d by (auto simp: build_digest_def rbind_eq_Inr Let_def case_prod_beta)
  ultimately show ?thesis by simp
qed

subsection \<open>The clocks of offline registrations\<close>

text \<open>A registration the pass would delete but for its clock: offline and idle, nobody of this host
  vouches for it, and this host minted it.\<close>

definition candidate :: "reap_args \<Rightarrow> reap_scope \<Rightarrow> listed_runner \<Rightarrow> bool" where
  "candidate a c u =
     (runner_offline u \<and> \<not> runner_busy u
      \<and> \<not> live_fresh_supervisor a (runner_state c (runner_name_of u))
      \<and> (case runner_state c (runner_name_of u) of None \<Rightarrow> True | Some s \<Rightarrow> \<not> rs_owner_alive s)
      \<and> foreign_runner_reason (lu_row u) (rc_persistent c) (rc_host_label_prefixes c) (rc_own_labels c) (rc_own_names c) = [])"

lemma decision_seen:
  "rv_seen (runner_decision a c now tracker u) =
     (if candidate a c u then Some (next_seen now (tracker (offline_key u))) else None)"
  by (auto simp: runner_decision_def candidate_def Let_def split: option.split)

lemma decision_delete:
  "(rv_action (runner_decision a c now tracker u) = DeleteOfflineRunner) =
     (candidate a c u \<and> (let seen = next_seen now (tracker (offline_key u)) in
        of_passes seen \<ge> ra_min_offline_passes a \<and> offline_for now seen \<ge> ra_min_offline_secs a * 1000000))"
  by (auto simp: runner_decision_def candidate_def Let_def split: option.split)

lemma offline_seen_eq:
  "offline_seen a c now tracker us key =
     (if key \<in> set (map offline_key (filter (candidate a c) us)) then Some (next_seen now (tracker key)) else None)"
proof -
  have "map_of (rev (List.map_filter (\<lambda>u. map_option (\<lambda>seen. (offline_key u, seen))
      (rv_seen (runner_decision a c now tracker u))) us)) key
    = map_of (rev (map (\<lambda>u. (offline_key u, next_seen now (tracker (offline_key u)))) (filter (candidate a c) us))) key"
    by (intro arg_cong [where f = "\<lambda>xs. map_of (rev xs) key"])
      (induction us, auto simp: List.map_filter_simps decision_seen)
  also have "\<dots> = (if key \<in> set (map offline_key (filter (candidate a c) us)) then Some (next_seen now (tracker key)) else None)"
    by (induction us rule: rev_induct) auto
  finally show ?thesis by (simp add: offline_seen_def)
qed

text \<open>What a pass tells the clocks of its state root: the keys of its candidates; nothing when the pass is
  dry, could not observe, or could not open the tracker; or that all of them are lost, when the write
  was cut short. A census that left one scope unread reports like any other: the code writes what it
  saw, and a registration of the unread scope counts as one that was not seen offline.\<close>

datatype tracker_report = NoReport | ClocksLost | OfflineKeys "string list"

definition offline_report :: "reap_args \<Rightarrow> reap_env \<Rightarrow> reap_scope \<Rightarrow> tracker_report" where
  "offline_report a e c =
     (if ra_dry_run a \<or> re_missing_tools e \<noteq> [] \<or> (\<exists>code. observed_vms e = Inl code) then NoReport
      else (case github_runners a e of
        Inl _ \<Rightarrow> NoReport
      | Inr (us, _) \<Rightarrow> (case re_tracker_write e of
          TrackerNotOpened _ \<Rightarrow> NoReport
        | TrackerCutShort _ \<Rightarrow> ClocksLost
        | TrackerWritten \<Rightarrow> OfflineKeys (map offline_key (filter (candidate a c) (inspected c us))))))"

text \<open>The trackers of a host, one per state root, and what one pass does to them.\<close>

type_synonym trackers = "string \<Rightarrow> tracker_file"

definition next_tracker :: "reap_args \<times> reap_env \<Rightarrow> trackers \<Rightarrow> trackers" where
  "next_tracker ae files = (case reap_scope_of (fst ae) (snd ae) of
     Inl _ \<Rightarrow> files
   | Inr c \<Rightarrow> (case build_digest (fst ae) (snd ae) (files (rc_tracker c)) of
       Inl _ \<Rightarrow> files | Inr d \<Rightarrow> files(rc_tracker c := dg_tracker d)))"

lemma digest_total: "reap_scope_of a e = Inr c \<Longrightarrow> \<exists>d. build_digest a e tracker = Inr d"
  by (simp add: build_digest_def Let_def case_prod_beta)

lemma tracker_step:
  assumes "reap_scope_of a e = Inr c" and "build_digest a e file = Inr d"
  shows "load_offline_tracker (dg_tracker d) = (case offline_report a e c of
     NoReport \<Rightarrow> load_offline_tracker file
   | ClocksLost \<Rightarrow> Map.empty
   | OfflineKeys keys \<Rightarrow> (\<lambda>key. if key \<in> set keys then Some (next_seen (re_now e) (load_offline_tracker file key)) else None))"
proof -
  obtain p1 blind p3 unreadable us where
    p1: "tart_phase a e c \<lparr>rp_effects = [], rp_fixed = [], rp_problems = rc_problems c, rp_vms = []\<rparr> = (p1, blind)"
    and p3: "runner_phase a e c (load_offline_tracker file) blind (fold (qemu_turn a e c) (rc_states c) p1) = (p3, unreadable, us)"
    and t: "dg_tracker d = (if unreadable = [] \<and> \<not> ra_dry_run a
       then write_tracker (re_tracker_write e) (offline_seen a c (re_now e) (load_offline_tracker file) us) file else file)"
    by (rule build_digest_phases [OF assms(2,1)])
  have blind: "(blind = []) = (re_missing_tools e = [] \<and> \<not> (\<exists>code. observed_vms e = Inl code))"
    using p1 by (auto simp: tart_phase_def split: if_splits sum.splits)
  show ?thesis
  proof (cases "unreadable = [] \<and> \<not> ra_dry_run a")
    case True
    then obtain rows problems where rows: "github_runners a e = Inr (rows, problems)" "us = inspected c rows" "blind = []"
      using p3 by (auto simp: runner_phase_def split: if_splits sum.splits)
    with True blind t show ?thesis
      by (cases "re_tracker_write e")
        (simp_all add: offline_report_def load_offline_tracker_def [of "TrackerStored x" for x]
           load_offline_tracker_def [of TrackerUnreadable] offline_seen_eq fun_eq_iff)
  next
    case False
    have "unreadable \<noteq> [] \<Longrightarrow> blind \<noteq> [] \<or> (\<exists>code. github_runners a e = Inl code)"
      using p3 by (auto simp: runner_phase_def split: if_splits sum.splits)
    then have "offline_report a e c = NoReport"
      using False blind by (auto simp: offline_report_def)
    moreover have "dg_tracker d = file" using t False by (simp split: if_splits)
    ultimately show ?thesis by simp
  qed
qed

text \<open>The specification of the clocks: per state root it sees only the history of reports since its
  clocks were last lost, each with its time and keys, and reads off the unbroken run of reports at the
  end that name the key.\<close>

type_synonym report_log = "(int \<times> string list) list"

definition log_pass :: "reap_args \<times> reap_env \<Rightarrow> (string \<Rightarrow> report_log) \<Rightarrow> string \<Rightarrow> report_log" where
  "log_pass ae logs = (case reap_scope_of (fst ae) (snd ae) of
     Inl _ \<Rightarrow> logs
   | Inr c \<Rightarrow> (case offline_report (fst ae) (snd ae) c of
       NoReport \<Rightarrow> logs
     | ClocksLost \<Rightarrow> logs(rc_tracker c := [])
     | OfflineKeys keys \<Rightarrow> logs(rc_tracker c := logs (rc_tracker c) @ [(re_now (snd ae), keys)])))"

definition history :: "(reap_args \<times> reap_env) list \<Rightarrow> string \<Rightarrow> report_log" where
  "history passes = fold log_pass passes (\<lambda>_. [])"

definition streak :: "string \<Rightarrow> (int \<times> string list) list \<Rightarrow> (int \<times> string list) list" where
  "streak key log = takeWhile (\<lambda>(t, keys). key \<in> set keys) (rev log)"

definition clock :: "(int \<times> string list) list \<Rightarrow> tracker" where
  "clock log key = (case streak key log of [] \<Rightarrow> None
   | run \<Rightarrow> Some \<lparr>of_first = fst (last run), of_passes = int (length run)\<rparr>)"

lemma clock_snoc:
  "clock (log @ [(t, keys)]) key = (if key \<in> set keys then Some (next_seen t (clock log key)) else None)"
  by (auto simp: clock_def streak_def next_seen_def split: list.split)

lemma clock_Nil: "clock [] = Map.empty"
  by (simp add: clock_def streak_def fun_eq_iff)

interpretation tracker_simulation: simulation next_tracker log_pass
  "\<lambda>files logs. \<forall>path. load_offline_tracker (files path) = clock (logs path)"
proof
  fix files :: trackers and logs and ae :: "reap_args \<times> reap_env"
  assume rel: "\<forall>path. load_offline_tracker (files path) = clock (logs path)"
  obtain a e where ae: "ae = (a, e)" by fastforce
  show "\<forall>path. load_offline_tracker (next_tracker ae files path) = clock (log_pass ae logs path)"
  proof (cases "reap_scope_of a e")
    case (Inl err)
    with rel show ?thesis by (simp add: next_tracker_def log_pass_def ae)
  next
    case (Inr c)
    obtain d where d: "build_digest a e (files (rc_tracker c)) = Inr d" using digest_total [OF Inr] by blast
    show ?thesis
      using rel tracker_step [OF Inr d]
      by (auto simp: next_tracker_def log_pass_def ae Inr d clock_snoc clock_Nil fun_eq_iff split: tracker_report.split)
  qed
qed

abbreviation no_trackers :: trackers where
  "no_trackers \<equiv> (\<lambda>_. TrackerUnreadable)"

lemma tracker_is_clock:
  "load_offline_tracker (fold next_tracker passes no_trackers path) = clock (history passes path)"
  using tracker_simulation.run_related [of no_trackers "\<lambda>_. []" passes]
  by (simp add: history_def load_offline_tracker_def [of TrackerUnreadable] clock_Nil)

text \<open>C12: a tracker file is the clock of its history. After any sequence of passes, each with its own
  arguments and state root, started with no trackers, the row of a registration in the tracker of a
  state root holds the number of the last reports in a row, among the passes of that root, that named
  it as an idle offline runner of this host, and the time of the first of them. A pass that could not
  observe, is dry, fails or cannot open the tracker changes nothing; one that saw the runner online,
  busy or vouched for, or did not see it, an unread scope included, starts it anew; a write that is cut
  short starts all of them anew.\<close>

theorem tracker_refines_clock:
  "load_offline_tracker (fold next_tracker passes no_trackers path) = clock (history passes path)"
  by (rule tracker_is_clock)

text \<open>C13: a registration is deleted only after it was seen offline on enough passes and for long
  enough. If a pass deletes a registration after any sequence of earlier passes, then it runs with
  \<open>--fix\<close>, the registration is a candidate of this pass, this host minted it, and counting this pass at
  least \<open>--min-offline-passes\<close> reports of its state root in a row named it, the first of them at least
  \<open>--min-offline-secs\<close> ago.\<close>

theorem runner_deleted_only_after_streak:
  assumes "reap_scope_of a e = Inr c" and "build_digest a e (fold next_tracker passes no_trackers (rc_tracker c)) = Inr d"
    and "DeleteRunner url \<in> set (rp_effects (dg_pass d))" and "0 \<le> re_now e"
  shows "ra_fix a \<and> (\<exists>u v. (u, v) \<in> set (dg_runners d) \<and> url = runner_url a u \<and> candidate a c u
    \<and> (let run = (re_now e, []) # streak (offline_key u) (history passes (rc_tracker c)) in
        ra_min_offline_passes a \<le> int (length run) \<and> ra_min_offline_secs a * 1000000 \<le> re_now e - fst (last run)))"
proof -
  obtain u v where u: "(u, v) \<in> set (dg_runners d)" "ra_fix a" "url = runner_url a u"
    "rv_action (runner_decision a c (re_now e) (clock (history passes (rc_tracker c))) u) = DeleteOfflineRunner"
    using digest_effects [OF assms(2,1,3)] by (auto simp: runner_effect_def vm_effect_def tracker_is_clock)
  let ?s = "streak (offline_key u) (history passes (rc_tracker c))"
  have "candidate a c u \<and> ra_min_offline_passes a \<le> 1 + int (length ?s)
      \<and> ra_min_offline_secs a * 1000000 \<le> re_now e - fst (last ((re_now e, []) # ?s))"
    using u(4) assms(4) by (auto simp: decision_delete clock_def next_seen_def offline_for_def Let_def split: list.splits if_splits)
  with u show ?thesis by (auto simp: Let_def)
qed

subsection \<open>A malformed property list\<close>

text \<open>one malformed property list stops the janitor. When a loaded fleet label's property list is XML that
  is not well formed, every pass over the whole host raises, so no VM, state file or registration of any
  lane is looked at until the file is repaired.\<close>

theorem malformed_plist_stops_janitor:
  assumes "scoped_view a e = Inr False" and "re_listing e = Some lines" and "label \<in> set (fleet_labels lines)"
    and "re_plists e label = PlistMalformed message"
  shows "\<exists>err. build_digest a e file = Inl err"
proof -
  obtain err where "discover (re_paths e) (re_hostname e) (re_plists e) (fleet_labels lines) = Inl err"
    using malformed_stops_discover [where plists = "re_plists e", OF assms(3,4)] by blast
  then have "reap_scope_of a e = Inl err"
    by (simp add: reap_scope_of_def assms(1,2) discover_lanes_def)
  then show ?thesis by (simp add: build_digest_def)
qed

subsection \<open>A census that read nothing\<close>

text \<open>C38: a pass that could read no registration resets every clock. When the repository belongs to a
  user account and its own runners cannot be read, no scope was read at all, yet the pass takes the
  census for an empty fleet: it has no unreadable observation and writes an empty tracker.\<close>

theorem blind_census_resets_clocks:
  assumes "reap_scope_of a e = Inr c" and "\<not> ra_dry_run a" and "re_tracker_write e = TrackerWritten"
    and "re_missing_tools e = []" and "observed_vms e = Inr vms" and "collect (ra_repo a) (re_fetch e) = Inr census"
    and "cn_scopes census = [own, org]" and "\<not> sc_reachable own" and "sc_applicable own" and "\<not> sc_reachable org"
    and "\<not> sc_applicable org" and "sc_runners own = []" and "sc_runners org = []"
  shows "\<exists>d. build_digest a e file = Inr d \<and> dg_unreadable d = [] \<and> dg_tracker d = TrackerStored Map.empty"
proof -
  have gh: "\<exists>problems. github_runners a e = Inr ([], problems)"
    using assms(6-13) by (auto simp: github_runners_def unreachable_def runners_def)
  then obtain problems where gh: "github_runners a e = Inr ([], problems)" ..
  have "\<exists>p. tart_phase a e c \<lparr>rp_effects = [], rp_fixed = [], rp_problems = rc_problems c, rp_vms = []\<rparr> = (p, [])"
    using assms(4,5) by (simp add: tart_phase_def)
  then obtain p where "tart_phase a e c \<lparr>rp_effects = [], rp_fixed = [], rp_problems = rc_problems c, rp_vms = []\<rparr> = (p, [])" ..
  then show ?thesis
    using assms(1-3) gh
    by (simp add: build_digest_def runner_phase_def inspected_def offline_seen_def List.map_filter_def Let_def)
qed

subsection \<open>A host with residue\<close>

definition idle_host :: host where
  "idle_host = \<lparr>utcnow = 0, ps_lstart = (\<lambda>_. None), kill0 = (\<lambda>_. NoSuchProcess), kill0_again = (\<lambda>_. NoSuchProcess),
     sysctl_boottime = None, proc_boot_id = None, proc_stat = None, os_getpgid = (\<lambda>_. None), os_getsid = (\<lambda>_. None),
     tart_list = TartAbsent\<rparr>"

definition pool_args :: reap_args where
  "pool_args = \<lparr>ra_fix = True, ra_dry_run = False, ra_repo = ''dan/pulp'', ra_state_dir = None, ra_state_root = ''/s'',
     ra_prefixes = ''pulp-'', ra_protected_names = ''pulp-vm'', ra_persistent_runners = [], ra_host_label_prefixes = ''pulp-host-'',
     ra_host_labels = [], ra_own_name_prefixes = ''pulp-m1-'', ra_launch_agents_dir = [], ra_min_offline_secs = 900,
     ra_min_offline_passes = 3, ra_stopped_age_secs = 900, ra_orphan_age_secs = 3600, ra_running_age_secs = 10800,
     ra_heartbeat_stale_secs = 900, ra_keep_failed_age_secs = 86400\<rparr>"

definition pool_state :: state_file where
  "pool_state = \<lparr>sf_path = ''/s/macos/a'', sf_resolved = ''/s/macos/a'',
     sf_content = StateDoc [''vm'' \<mapsto> PStr ''pulp-m1-7-1'', ''provider'' \<mapsto> PStr ''tart-macos''], sf_mtime = Some 0\<rparr>"

definition pool_ghost :: api_row where
  "pool_ghost = \<lparr>ar_fields = [''id'' \<mapsto> PInt 9, ''name'' \<mapsto> PStr ''pulp-m1-5-1'', ''status'' \<mapsto> PStr ''offline''], ar_labels = []\<rparr>"

definition pool_fetch :: "fetch_answer \<Rightarrow> string \<Rightarrow> fetcher" where
  "pool_fetch answer repo = \<lparr>fe_fetch = (\<lambda>scope endpoint. case scope of RepositoryScope \<Rightarrow> answer
       | OrganizationScope \<Rightarrow> FetchScopeError ''http 404'' []), fe_owner_type = Some (\<lambda>_. Inr (Some ''User''))\<rparr>"

definition pool_env :: "int \<Rightarrow> fetch_answer \<Rightarrow> reap_env" where
  "pool_env secs answer = \<lparr>re_now = secs * 1000000, re_host = idle_host, re_hostname = ''m1'',
     re_paths = \<lparr>pe_home = ''/h'', pe_cwd = ''/'', pe_user_home = Map.empty\<rparr>, re_default_root = ''/s'', re_listing = Some [],
     re_plists = (\<lambda>_. PlistUnreadable []), re_agents = (\<lambda>_. PlistUnreadable []),
     re_state_files = (\<lambda>dir. if dir = ''/s/macos'' then [pool_state] else []), re_root_files = [], re_leases = FileAbsent,
     re_names = \<lparr>tn_values = None, tn_text = []\<rparr>, re_retired_enabled = False, re_vm_mtime = Map.empty, re_missing_tools = [],
     re_tart = TartVms [[''Name'' \<mapsto> PStr ''pulp-m1-7-1'', ''State'' \<mapsto> PStr ''stopped'']], re_tart_os = (\<lambda>_. OsUnknown),
     re_fetch = pool_fetch answer, re_tart_delete = (\<lambda>_. None), re_unlink = (\<lambda>_. None), re_runner_delete = (\<lambda>_. None),
     re_tracker_write = TrackerWritten, re_stop_pid = (\<lambda>_. Inr True), re_lstat = (\<lambda>_. LstatOther), re_realpath = (\<lambda>p. p),
     re_exists = (\<lambda>_. False), re_is_file = (\<lambda>_. False), re_chflags = (\<lambda>_. None), re_remove = (\<lambda>_. None)\<rparr>"

lemma pool_effects:
  "map_sum id (\<lambda>d. rp_effects (dg_pass d)) (build_digest pool_args (pool_env 1000 (FetchRows [pool_ghost])) TrackerUnreadable)
     = Inr [TartDelete ''pulp-m1-7-1'', Unlink ''/s/macos/a'']"
  by code_simp

lemma map_sum_Inr: "map_sum id f r = Inr y \<Longrightarrow> \<exists>d. r = Inr d \<and> f d = y"
  by (cases r) auto

theorem reap_deletes_only_residue_witness:
  "\<exists>d c. build_digest pool_args (pool_env 1000 (FetchRows [pool_ghost])) TrackerUnreadable = Inr d
     \<and> reap_scope_of pool_args (pool_env 1000 (FetchRows [pool_ghost])) = Inr c
     \<and> rp_effects (dg_pass d) = [TartDelete ''pulp-m1-7-1'', Unlink ''/s/macos/a'']
     \<and> \<not> is_protected_name ''pulp-m1-7-1'' (rc_protected c)"
proof -
  obtain d where d: "build_digest pool_args (pool_env 1000 (FetchRows [pool_ghost])) TrackerUnreadable = Inr d"
    "rp_effects (dg_pass d) = [TartDelete ''pulp-m1-7-1'', Unlink ''/s/macos/a'']"
    using map_sum_Inr [OF pool_effects] by blast
  obtain c where c: "reap_scope_of pool_args (pool_env 1000 (FetchRows [pool_ghost])) = Inr c"
    using digest_scope [OF d(1)] by blast
  have "TartDelete ''pulp-m1-7-1'' \<in> set (rp_effects (dg_pass d))" using d(2) by simp
  from reap_deletes_only_residue [OF d(1) c this]
  have "\<not> is_protected_name ''pulp-m1-7-1'' (rc_protected c)" by (elim conjE)
  with d c show ?thesis by (intro exI [of _ d] exI [of _ c] conjI)
qed

lemma pool_main:
  "map_sum id (\<lambda>(d, rc). rc) (reap_main (pool_args\<lparr>ra_dry_run := True\<rparr>) (pool_env 1000 (FetchRows [pool_ghost])) TrackerUnreadable) = Inr 1"
  by code_simp

theorem dry_run_changes_nothing_witness:
  "\<exists>d. reap_main (pool_args\<lparr>ra_dry_run := True\<rparr>) (pool_env 1000 (FetchRows [pool_ghost])) TrackerUnreadable = Inr (d, 1)
     \<and> rp_effects (dg_pass d) = [] \<and> dg_tracker d = TrackerUnreadable"
proof -
  obtain d where d: "reap_main (pool_args\<lparr>ra_dry_run := True\<rparr>) (pool_env 1000 (FetchRows [pool_ghost])) TrackerUnreadable = Inr (d, 1)"
    using map_sum_Inr [OF pool_main] by auto
  with dry_run_changes_nothing [OF d] show ?thesis by simp
qed

definition pool_passes :: "(reap_args \<times> reap_env) list" where
  "pool_passes = [(pool_args, pool_env 1000 (FetchRows [pool_ghost])), (pool_args, pool_env 1500 (FetchRows [pool_ghost]))]"

lemma pool_tracker: "map_sum id rc_tracker (reap_scope_of pool_args (pool_env 2000 (FetchRows [pool_ghost]))) = Inr ''/s/reap/runner-offline.json''"
  by code_simp

lemma pool_third_pass:
  "map_sum id (\<lambda>d. rp_effects (dg_pass d))
     (build_digest pool_args (pool_env 2000 (FetchRows [pool_ghost]))
        (fold next_tracker pool_passes no_trackers ''/s/reap/runner-offline.json''))
   = Inr [TartDelete ''pulp-m1-7-1'', Unlink ''/s/macos/a'', DeleteRunner ''repos/dan/pulp/actions/runners/9'']"
  by code_simp

theorem runner_deleted_only_after_streak_witness:
  "\<exists>d u v. build_digest pool_args (pool_env 2000 (FetchRows [pool_ghost]))
        (fold next_tracker pool_passes no_trackers ''/s/reap/runner-offline.json'') = Inr d
     \<and> DeleteRunner (runner_url pool_args u) \<in> set (rp_effects (dg_pass d)) \<and> (u, v) \<in> set (dg_runners d)
     \<and> 3 \<le> int (length (streak (offline_key u) (history pool_passes ''/s/reap/runner-offline.json''))) + 1"
proof -
  obtain c where c: "reap_scope_of pool_args (pool_env 2000 (FetchRows [pool_ghost])) = Inr c"
      "rc_tracker c = ''/s/reap/runner-offline.json''"
    using map_sum_Inr [OF pool_tracker] by blast
  obtain d where d: "build_digest pool_args (pool_env 2000 (FetchRows [pool_ghost])) (fold next_tracker pool_passes no_trackers (rc_tracker c)) = Inr d"
    "rp_effects (dg_pass d) = [TartDelete ''pulp-m1-7-1'', Unlink ''/s/macos/a'', DeleteRunner ''repos/dan/pulp/actions/runners/9'']"
    using map_sum_Inr [OF pool_third_pass] c(2) by auto
  have del: "DeleteRunner ''repos/dan/pulp/actions/runners/9'' \<in> set (rp_effects (dg_pass d))" using d(2) by simp
  have now: "0 \<le> re_now (pool_env 2000 (FetchRows [pool_ghost]))" by (simp add: pool_env_def)
  have three: "ra_min_offline_passes pool_args = 3" by (simp add: pool_args_def)
  from runner_deleted_only_after_streak [OF c(1) d(1) del now] d(1) del three c(2) show ?thesis
    by (auto simp: Let_def)
qed

lemma pool_blind:
  "map_sum id cn_scopes (collect ''dan/pulp'' (pool_fetch (FetchScopeError ''timeout'' []))) =
     Inr [unread_scope RepositoryScope ''repos/dan/pulp/actions/runners'' ''timeout'' True,
          unread_scope OrganizationScope ''orgs/dan/actions/runners''
            ''not applicable: dan is a user account, which has no organization runners'' False]"
proof -
  have "is_not_found (scope_error ''http 404'' [])" by code_simp
  then have "organization_scope_absent (pool_fetch (FetchScopeError ''timeout'' []) ''dan/pulp'') ''dan/pulp'' (scope_error ''http 404'' [])"
    by (simp add: organization_scope_absent_def pool_fetch_def user_repo)
  then show ?thesis
    by (simp add: collect_def SCOPES_def read_scope_def scope_endpoint_def user_repo pool_fetch_def scope_error_def)
qed

theorem blind_census_resets_clocks_witness:
  "\<exists>d. build_digest pool_args (pool_env 2000 (FetchScopeError ''timeout'' []))
       (TrackerStored [''repos/dan/pulp/actions/runners#9#pulp-m1-5-1'' \<mapsto> \<lparr>of_first = 1, of_passes = 2\<rparr>]) = Inr d
     \<and> dg_unreadable d = [] \<and> dg_tracker d = TrackerStored Map.empty"
proof -
  let ?e = "pool_env 2000 (FetchScopeError ''timeout'' [])"
  obtain census where census: "collect ''dan/pulp'' (pool_fetch (FetchScopeError ''timeout'' [])) = Inr census"
    "cn_scopes census = [unread_scope RepositoryScope ''repos/dan/pulp/actions/runners'' ''timeout'' True,
          unread_scope OrganizationScope ''orgs/dan/actions/runners''
            ''not applicable: dan is a user account, which has no organization runners'' False]"
    using map_sum_Inr [OF pool_blind] by blast
  have scope: "map_sum id (\<lambda>_. ()) (reap_scope_of pool_args ?e) = Inr ()" by code_simp
  obtain c where c: "reap_scope_of pool_args ?e = Inr c" using map_sum_Inr [OF scope] by auto
  obtain vms where vms: "observed_vms ?e = Inr vms"
    by (simp add: observed_vms_def pool_env_def vm_state_def is_running_state_def py_or_def dget_def lower_def to_lower_def startswith_def)
  have coll: "collect (ra_repo pool_args) (re_fetch ?e) = Inr census" using census(1) by (simp add: pool_args_def pool_env_def)
  have quiet: "\<not> ra_dry_run pool_args" "re_tracker_write ?e = TrackerWritten" "re_missing_tools ?e = []"
    by (simp_all add: pool_args_def pool_env_def)
  have own: "\<not> sc_reachable (unread_scope s x m True)" "sc_applicable (unread_scope s x m True)"
    and org: "\<not> sc_reachable (unread_scope s x m False)" "\<not> sc_applicable (unread_scope s x m False)"
    and none: "sc_runners (unread_scope s x m b) = []" for s x m b by (simp_all add: unread_scope_def)
  show ?thesis
    by (rule blind_census_resets_clocks [OF c quiet vms coll census(2) own org none none])
qed

end
