(* ===== verification/CapacityFloor.thy ===== *)
theory CapacityFloor
  imports FleetLanes
begin

section \<open>The capacity floor\<close>

text \<open>
  \<open>scripts/capacity_floor.py\<close>: before a host drains or switches off, the guard asks for every label
  the host must not take to zero whether another machine serves it: an online runner of the census
  this host does not own, or a peer that declares the label and whose own pool status proves that it
  mints runners on demand. The profile, the published supply and a peer's status are the values the
  code reads of them, with \<open>None\<close> where the shape is not the expected one. Printed messages and the
  prose of a finding's detail are left out, but for the detail of an unread census, which a decision
  reads.
\<close>

subsection \<open>The fleet profile\<close>

datatype guard_reason =
    ReasonLastServingHost | ReasonCapacityUnknown | ReasonHostIdentityUnknown
  | ReasonPersistentRunnerNameUnknown | ReasonProfileUnreadable

datatype persistent_decl = NotDeclared | NotAList | Declared "pyval list"

record host_table =
  ht_id :: pyval
  ht_persistent :: persistent_decl

record lane_row =
  lw_id :: pyval
  lw_repo :: pyval
  lw_supervisors :: pyval
  lw_tier_labels :: "pyval list"

record fleet_profile =
  fp_present :: bool
  fp_host :: "host_table option"
  fp_lanes :: "lane_row list"

definition host_identity :: "fleet_profile \<Rightarrow> string \<Rightarrow> string \<Rightarrow> guard_reason + string" where
  "host_identity profile override hostname =
     (if override \<noteq> [] then Inr override
      else let declared = (case fp_host profile of
             Some h \<Rightarrow> (case ht_id h of PStr s \<Rightarrow> strip s | _ \<Rightarrow> []) | None \<Rightarrow> []);
           resolved = strip (takeWhile (\<lambda>c. c \<noteq> CHR ''.'') hostname)
      in if declared \<noteq> [] then Inr declared
         else if fp_present profile \<or> resolved = [] then Inl ReasonHostIdentityUnknown
         else Inr resolved)"

definition lane_slots :: "lane_row \<Rightarrow> nat" where
  "lane_slots lane = (case py_num (lw_supervisors lane) of Some n \<Rightarrow> if n > 0 then nat n else 1 | None \<Rightarrow> 1)"

definition lane_prefixes :: "string \<Rightarrow> lane_row \<Rightarrow> string list" where
  "lane_prefixes host lane = (case lw_id lane of
     PStr lane_id \<Rightarrow> if lane_id = [] then []
       else map (\<lambda>slot. host @ ''-'' @ (if slot = 1 then lane_id else lane_id @ ''-slot'' @ nat_str slot)) [1..<lane_slots lane + 1]
   | _ \<Rightarrow> [])"

definition owned_name_prefixes :: "fleet_profile \<Rightarrow> string \<Rightarrow> string list" where
  "owned_name_prefixes profile host = sort (remdups (host # concat (map (lane_prefixes host) (fp_lanes profile))))"

text \<open>\<open>_PERSISTENT_LABEL\<close>: the name behind the last dot that leaves something on both sides.\<close>

definition label_char :: "char \<Rightarrow> bool" where
  "label_char c = (is_alnum c \<or> c \<in> set ''_.-'')"

definition persistent_name :: "string \<Rightarrow> string option" where
  "persistent_name label =
     (if \<not> startswith label ''actions.runner.'' then None
      else let body = drop (length ''actions.runner.'') label;
               dots = filter (\<lambda>i. body ! i = CHR ''.'') [1..<length body - 1]
           in if \<not> list_all label_char body \<or> dots = [] then None else Some (drop (Suc (last dots)) body))"

fun persistent_names :: "pyval list \<Rightarrow> guard_reason + string list" where
  "persistent_names [] = Inr []"
| "persistent_names (v # vs) = (case v of
     PStr label \<Rightarrow> (case persistent_name label of
       None \<Rightarrow> Inl ReasonPersistentRunnerNameUnknown
     | Some name \<Rightarrow> map_sum id ((#) name) (persistent_names vs))
   | _ \<Rightarrow> Inl ReasonPersistentRunnerNameUnknown)"

definition persistent_runner_names :: "fleet_profile \<Rightarrow> guard_reason + string list" where
  "persistent_runner_names profile = (case fp_host profile of
     None \<Rightarrow> Inr []
   | Some h \<Rightarrow> (case ht_persistent h of
       NotDeclared \<Rightarrow> Inr [] | NotAList \<Rightarrow> Inl ReasonPersistentRunnerNameUnknown | Declared vs \<Rightarrow> persistent_names vs))"

definition lane_repos :: "fleet_profile \<Rightarrow> string list" where
  "lane_repos profile = append_new [] (List.map_filter (\<lambda>lane. case lw_repo lane of
     PStr repo \<Rightarrow> if repo = [] then None else Some repo | _ \<Rightarrow> None) (fp_lanes profile))"

definition declared_labels :: "fleet_profile \<Rightarrow> (string \<times> string) list" where
  "declared_labels profile = concat (map (\<lambda>lane. case lw_repo lane of
     PStr repo \<Rightarrow> if repo = [] then [] else List.map_filter (\<lambda>l. case l of
       PStr label \<Rightarrow> if label = [] then None else Some (repo, label) | _ \<Rightarrow> None) (lw_tier_labels lane)
   | _ \<Rightarrow> []) (fp_lanes profile))"

definition extra_label :: "string list \<Rightarrow> string \<Rightarrow> guard_reason + (string \<times> string) list" where
  "extra_label repos v =
     (let text = strip v; before = takeWhile (\<lambda>c. c \<noteq> CHR ''='') text in
      if text = [] then Inr []
      else if length before < length text then
        (let repo = strip before; label = strip (drop (Suc (length before)) text) in
         if repo = [] \<or> label = [] then Inl ReasonCapacityUnknown else Inr [(repo, label)])
      else if repos = [] then Inl ReasonCapacityUnknown
      else Inr (map (\<lambda>repo. (repo, text)) repos))"

fun extra_labels :: "string list \<Rightarrow> string list \<Rightarrow> guard_reason + (string \<times> string) list" where
  "extra_labels repos [] = Inr []"
| "extra_labels repos (v # vs) = (case extra_label repos v of
     Inl r \<Rightarrow> Inl r | Inr ps \<Rightarrow> map_sum id ((@) ps) (extra_labels repos vs))"

definition protected_labels :: "fleet_profile \<Rightarrow> string list \<Rightarrow> guard_reason + (string \<times> string) list" where
  "protected_labels profile extra =
     map_sum id (\<lambda>more. append_new [] (declared_labels profile @ more)) (extra_labels (lane_repos profile) extra)"

definition owner_matcher :: "string \<Rightarrow> string list \<Rightarrow> string list \<Rightarrow> runner_record \<Rightarrow> bool" where
  "owner_matcher host prefixes persistent r =
     (let exact = host # prefixes @ persistent; name = rr_name r in
      name \<noteq> [] \<and> (name \<in> set exact \<or> list_ex (\<lambda>p. startswith name (p @ ''-'')) exact))"

subsection \<open>Peers\<close>

record pool_fleet =
  pf_managed :: pyval
  pf_fleet_ready :: pyval
  pf_problems :: bool
  pf_expected_supervisors :: pyval
  pf_running_supervisors :: pyval
  pf_serving_blocked :: "pyval option"
  pf_supply_state :: "pyval option"

record pool_status =
  po_state :: pyval
  po_participating :: pyval
  po_fleet :: "pool_fleet option"

datatype peer_doubt =
    StatusUnreadable | PoolNotOn | NoFleetSection | FleetNotReady | FleetHasProblems | SupervisorsMissing
  | ServingBlocked | SupplyMismatch

definition peer_mints_on_demand :: "pool_status option \<Rightarrow> peer_doubt option" where
  "peer_mints_on_demand v = (case v of
     None \<Rightarrow> Some StatusUnreadable
   | Some st \<Rightarrow>
       if po_state st \<noteq> PStr ''on'' \<or> po_participating st \<noteq> PBool True then Some PoolNotOn
       else (case po_fleet st of
         None \<Rightarrow> Some NoFleetSection
       | Some f \<Rightarrow>
           if pf_managed f \<noteq> PBool True \<or> pf_fleet_ready f \<noteq> PBool True then Some FleetNotReady
           else if pf_problems f then Some FleetHasProblems
           else if \<not> (case (py_num (pf_expected_supervisors f), py_num (pf_running_supervisors f)) of
               (Some expected, Some running) \<Rightarrow> expected \<ge> 1 \<and> running \<ge> expected | _ \<Rightarrow> False) then Some SupervisorsMissing
           else if pf_serving_blocked f \<noteq> Some (PBool False) then Some ServingBlocked
           else if pf_supply_state f \<noteq> Some (PStr ''match'') then Some SupplyMismatch
           else None))"

record registration =
  rg_host_id :: "string option"
  rg_repo :: pyval
  rg_class_label :: pyval
  rg_labels :: "pyval list"

definition declaring_hosts :: "registration list \<Rightarrow> string \<Rightarrow> string \<Rightarrow> string \<Rightarrow> string list" where
  "declaring_hosts regs repo label exclude = sort (remdups (List.map_filter (\<lambda>row. case rg_host_id row of
     None \<Rightarrow> None
   | Some host \<Rightarrow> if host = exclude \<or> rg_repo row \<noteq> PStr repo then None
       else if rg_class_label row = PStr label \<or> PStr label \<in> set (rg_labels row) then Some host else None) regs))"

record peer_evidence =
  pv_host :: string
  pv_counted :: bool
  pv_why :: "peer_doubt option"

text \<open>What reading a peer's status gave: \<open>None\<close> when the destination was refused, the read failed or the
  output is no JSON, else the status (\<open>None\<close> inside for JSON that is no object). A peer is read at most
  once per run, so a read is a function of the peer.\<close>

definition judge_peer :: "(string \<Rightarrow> pool_status option option) \<Rightarrow> string \<Rightarrow> peer_evidence" where
  "judge_peer read peer = (case read peer of
     None \<Rightarrow> \<lparr>pv_host = peer, pv_counted = False, pv_why = Some StatusUnreadable\<rparr>
   | Some v \<Rightarrow> \<lparr>pv_host = peer, pv_counted = (peer_mints_on_demand v = None), pv_why = peer_mints_on_demand v\<rparr>)"

definition peer_resolver ::
  "registration list option \<Rightarrow> (string \<Rightarrow> pool_status option option) \<Rightarrow> string \<Rightarrow> string \<Rightarrow> string \<Rightarrow> peer_evidence list" where
  "peer_resolver supply read host repo label = (case supply of
     None \<Rightarrow> [\<lparr>pv_host = ''(published supply)'', pv_counted = False, pv_why = Some StatusUnreadable\<rparr>]
   | Some regs \<Rightarrow> map (judge_peer read) (declaring_hosts regs repo label host))"

subsection \<open>The decision\<close>

datatype floor_verdict = ServedElsewhere | LastServingHost | CapacityUnknown

record floor_finding =
  fn_repo :: string
  fn_label :: string
  fn_verdict :: floor_verdict
  fn_remaining :: "string list"
  fn_owned_here :: "string list"
  fn_detail :: string
  fn_peers :: "peer_evidence list"

record floor_decision =
  fd_allowed :: bool
  fd_reason :: "guard_reason option"
  fd_overridden :: bool
  fd_findings :: "floor_finding list"
  fd_census_reason :: string

definition judge_label ::
  "(string \<rightharpoonup> census) \<Rightarrow> (runner_record \<Rightarrow> bool) \<Rightarrow> (string \<Rightarrow> string \<Rightarrow> peer_evidence list) option
   \<Rightarrow> string \<times> string \<Rightarrow> floor_finding" where
  "judge_label censuses owned peers entry =
     (let repo = fst entry; label = snd entry;
          finding = (\<lambda>verdict remaining here detail evidence. \<lparr>fn_repo = repo, fn_label = label, fn_verdict = verdict,
            fn_remaining = remaining, fn_owned_here = here, fn_detail = detail, fn_peers = evidence\<rparr>)
      in case censuses repo of
           None \<Rightarrow> finding CapacityUnknown [] [] (''no runner census was collected for '' @ repo) []
         | Some census \<Rightarrow>
             (let here = map rr_name (filter (\<lambda>r. carries label r \<and> owned r) (runners census));
                  status = label_status census label owned;
                  remaining = map rr_name (lr_online status) in
              case lr_status status of
                Served \<Rightarrow> finding ServedElsewhere remaining here [] []
              | Unknown \<Rightarrow> finding CapacityUnknown remaining here
                  (if lr_detail status = [] then ''runner census incomplete'' else lr_detail status) []
              | Unserved \<Rightarrow>
                  (let evidence = (case peers of None \<Rightarrow> [] | Some resolve \<Rightarrow> resolve repo label);
                       minting = map (\<lambda>p. pv_host p @ '' (mints on demand)'') (filter pv_counted evidence) in
                   if minting \<noteq> [] then finding ServedElsewhere minting here [] evidence
                   else finding LastServingHost remaining here [] evidence)))"

definition classify ::
  "(string \<times> string) list \<Rightarrow> (string \<rightharpoonup> census) \<Rightarrow> (runner_record \<Rightarrow> bool) \<Rightarrow> bool
   \<Rightarrow> (string \<Rightarrow> string \<Rightarrow> peer_evidence list) option \<Rightarrow> floor_decision" where
  "classify protected censuses owned allow_last peers =
     (let findings = map (judge_label censuses owned peers) protected;
          answer = (\<lambda>allowed reason overridden census_reason. \<lparr>fd_allowed = allowed, fd_reason = reason,
            fd_overridden = overridden, fd_findings = findings, fd_census_reason = census_reason\<rparr>)
      in case find (\<lambda>f. fn_verdict f = CapacityUnknown) findings of
           Some unknown \<Rightarrow> answer False (Some ReasonCapacityUnknown) False
             (case filter (\<lambda>code. contains code (fn_detail unknown)) [''census_unauthenticated'', ''census_identity_lacks_access''] of
                [] \<Rightarrow> [] | code # _ \<Rightarrow> code)
         | None \<Rightarrow>
             if list_ex (\<lambda>f. fn_verdict f = LastServingHost) findings
             then (if allow_last then answer True (Some ReasonLastServingHost) True []
                   else answer False (Some ReasonLastServingHost) False [])
             else answer True None False [])"

definition exit_code :: "floor_decision \<Rightarrow> int" where
  "exit_code d = (if fd_allowed d then 0 else if fd_reason d = Some ReasonLastServingHost then 3 else 4)"

fun collect_censuses :: "(string \<Rightarrow> fetcher) \<Rightarrow> string list \<Rightarrow> (string \<rightharpoonup> census) result" where
  "collect_censuses fetch [] = Inr Map.empty"
| "collect_censuses fetch (repo # repos) =
     rbind (collect repo fetch) (\<lambda>c. rbind (collect_censuses fetch repos) (\<lambda>m. Inr (m(repo \<mapsto> c))))"

record floor_env =
  fe_profile :: "guard_reason + fleet_profile"
  fe_hostname :: string
  fe_census_fetch :: "string \<Rightarrow> fetcher"
  fe_supply :: "registration list option"
  fe_read_peer :: "string \<Rightarrow> pool_status option option"

datatype floor_stop = StopGuard guard_reason | StopUsage py_error

definition floor_run :: "floor_env \<Rightarrow> string \<Rightarrow> string list \<Rightarrow> bool \<Rightarrow> floor_stop + floor_decision" where
  "floor_run e override required allow_last = (case fe_profile e of
     Inl r \<Rightarrow> Inl (StopGuard r)
   | Inr profile \<Rightarrow> (case host_identity profile override (fe_hostname e) of
       Inl r \<Rightarrow> Inl (StopGuard r)
     | Inr host \<Rightarrow> (case protected_labels profile required of
         Inl r \<Rightarrow> Inl (StopGuard r)
       | Inr protected \<Rightarrow>
           if protected = [] then Inr \<lparr>fd_allowed = True, fd_reason = None, fd_overridden = False, fd_findings = [],
             fd_census_reason = []\<rparr>
           else (case persistent_runner_names profile of
             Inl r \<Rightarrow> Inl (StopGuard r)
           | Inr persistent \<Rightarrow> (case collect_censuses (fe_census_fetch e) (append_new [] (map fst protected)) of
               Inl err \<Rightarrow> Inl (StopUsage err)
             | Inr censuses \<Rightarrow> Inr (classify protected censuses
                 (owner_matcher host (owned_name_prefixes profile host) persistent) allow_last
                 (Some (peer_resolver (fe_supply e) (fe_read_peer e) host))))))))"

definition floor_main_rc :: "floor_env \<Rightarrow> string \<Rightarrow> string list \<Rightarrow> bool \<Rightarrow> int" where
  "floor_main_rc e override required allow_last = (case floor_run e override required allow_last of
     Inl (StopUsage _) \<Rightarrow> 2
   | Inl (StopGuard r) \<Rightarrow> if r = ReasonLastServingHost then 3 else 4
   | Inr d \<Rightarrow> exit_code d)"

subsection \<open>What an allowed mutation leaves\<close>

lemma collect_censuses_lookup:
  "collect_censuses fetch repos = Inr m \<Longrightarrow> repo \<in> set repos \<Longrightarrow> \<exists>c. m repo = Some c \<and> collect repo fetch = Inr c"
proof (induction repos arbitrary: m)
  case (Cons r repos)
  then show ?case by (auto simp: rbind_eq_Inr)
qed simp

text \<open>Who serves a label after this host is gone: a runner of the census, or a peer that mints.\<close>

definition served_by_runner :: "census \<Rightarrow> (runner_record \<Rightarrow> bool) \<Rightarrow> string \<Rightarrow> bool" where
  "served_by_runner c owned label = (\<exists>r \<in> set (runners c). online r \<and> carries label r \<and> \<not> owned r)"

definition served_by_peer :: "floor_env \<Rightarrow> string \<Rightarrow> string \<Rightarrow> string \<Rightarrow> bool" where
  "served_by_peer e host repo label =
     (\<exists>regs peer status. fe_supply e = Some regs \<and> peer \<in> set (declaring_hosts regs repo label host) \<and> peer \<noteq> host
        \<and> fe_read_peer e peer = Some (Some status) \<and> peer_mints_on_demand (Some status) = None)"

lemma label_status_served: "(lr_status (label_status c label owned) = Served) = served_by_runner c owned label"
  by (auto simp: label_status_def Let_def served_by_runner_def filter_empty_conv)

lemma label_status_unknown:
  "(lr_status (label_status c label owned) = Unknown) = (\<not> served_by_runner c owned label \<and> \<not> complete c)"
  by (auto simp: label_status_def Let_def served_by_runner_def filter_empty_conv)

lemma declaring_not_self: "peer \<in> set (declaring_hosts regs repo label host) \<Longrightarrow> peer \<noteq> host"
proof -
  assume "peer \<in> set (declaring_hosts regs repo label host)"
  then obtain row :: registration where "(case rg_host_id row of None \<Rightarrow> None | Some h \<Rightarrow> if h = host \<or> rg_repo row \<noteq> PStr repo then None
      else if rg_class_label row = PStr label \<or> PStr label \<in> set (rg_labels row) then Some h else None) = Some peer"
    unfolding declaring_hosts_def set_sort set_remdups set_map_filter by blast
  then show ?thesis by (cases "rg_host_id row") (simp_all split: if_splits)
qed

lemma counted_peer:
  assumes "p \<in> set (peer_resolver (fe_supply e) (fe_read_peer e) host repo label)" and "pv_counted p"
  shows "served_by_peer e host repo label"
proof -
  obtain regs peer where p: "fe_supply e = Some regs" "peer \<in> set (declaring_hosts regs repo label host)"
    "p = judge_peer (fe_read_peer e) peer"
    using assms by (cases "fe_supply e") (auto simp: peer_resolver_def)
  then obtain v where v: "fe_read_peer e peer = Some v" "peer_mints_on_demand v = None"
    using assms(2) by (cases "fe_read_peer e peer") (auto simp: judge_peer_def)
  then obtain status where "v = Some status" by (cases v) (auto simp: peer_mints_on_demand_def)
  with p v declaring_not_self [OF p(2)] show ?thesis by (auto simp: served_by_peer_def)
qed

text \<open>The verdict on one label, as the three answers of the specification.\<close>

lemma judge_label_verdict:
  assumes "censuses repo = Some c"
  shows "fn_verdict (judge_label censuses owned peers (repo, label)) =
    (if served_by_runner c owned label then ServedElsewhere
     else if \<not> complete c then CapacityUnknown
     else if \<exists>p \<in> set (case peers of None \<Rightarrow> [] | Some resolve \<Rightarrow> resolve repo label). pv_counted p then ServedElsewhere
     else LastServingHost)"
proof (cases "lr_status (label_status c label owned)")
  case Served
  then show ?thesis using assms label_status_served [of c label owned] by (simp add: judge_label_def Let_def)
next
  case Unknown
  then show ?thesis using assms label_status_unknown [of c label owned] by (simp add: judge_label_def Let_def)
next
  case Unserved
  then have "\<not> served_by_runner c owned label" "complete c"
    using label_status_served [of c label owned] label_status_unknown [of c label owned] by auto
  with Unserved assms show ?thesis by (auto simp: judge_label_def Let_def filter_empty_conv split: option.split)
qed

lemma classify_allowed:
  assumes "fd_allowed (classify protected censuses owned allow_last peers)"
    and "\<not> fd_overridden (classify protected censuses owned allow_last peers)" and "entry \<in> set protected"
  shows "fn_verdict (judge_label censuses owned peers entry) = ServedElsewhere"
  using assms
  by (cases "fn_verdict (judge_label censuses owned peers entry)")
    (auto simp: classify_def Let_def find_None_iff list_ex_iff split: option.splits if_splits)

lemma floor_run_cases:
  assumes "floor_run e override required allow_last = Inr d" and "fe_profile e = Inr profile"
    and "host_identity profile override (fe_hostname e) = Inr host" and "protected_labels profile required = Inr protected"
    and "protected \<noteq> []"
  obtains persistent censuses where "persistent_runner_names profile = Inr persistent"
    "collect_censuses (fe_census_fetch e) (append_new [] (map fst protected)) = Inr censuses"
    "d = classify protected censuses (owner_matcher host (owned_name_prefixes profile host) persistent) allow_last
       (Some (peer_resolver (fe_supply e) (fe_read_peer e) host))"
  using assms by (auto simp: floor_run_def split: sum.splits if_splits)

text \<open>C4: an allowed drain leaves no required label without a server. When the guard lets a pool mutation
  pass and was not overridden, every label the host must protect is served by another machine: the
  census of its repository has an online runner with the label whose name is not one of this host's,
  or another host declares the label in the published supply and its own pool status proves that it
  mints runners on demand.\<close>

theorem allowed_mutation_keeps_labels_served:
  assumes "floor_run e override required allow_last = Inr d" and "fd_allowed d" and "\<not> fd_overridden d"
    and "fe_profile e = Inr profile" and "host_identity profile override (fe_hostname e) = Inr host"
    and "protected_labels profile required = Inr protected" and "(repo, label) \<in> set protected"
    and "persistent_runner_names profile = Inr persistent"
  shows "(\<exists>c. collect repo (fe_census_fetch e) = Inr c
           \<and> served_by_runner c (owner_matcher host (owned_name_prefixes profile host) persistent) label)
       \<or> served_by_peer e host repo label"
proof -
  have "protected \<noteq> []" using assms(7) by auto
  from floor_run_cases [OF assms(1,4-6) this] assms(8)
  obtain censuses where cs: "collect_censuses (fe_census_fetch e) (append_new [] (map fst protected)) = Inr censuses"
    and d: "d = classify protected censuses (owner_matcher host (owned_name_prefixes profile host) persistent) allow_last
       (Some (peer_resolver (fe_supply e) (fe_read_peer e) host))" by auto
  let ?owned = "owner_matcher host (owned_name_prefixes profile host) persistent"
  have "repo \<in> set (append_new [] (map fst protected))" using assms(7) by force
  from collect_censuses_lookup [OF cs this]
  obtain c where c: "censuses repo = Some c" "collect repo (fe_census_fetch e) = Inr c" by blast
  have "fn_verdict (judge_label censuses ?owned (Some (peer_resolver (fe_supply e) (fe_read_peer e) host)) (repo, label))
      = ServedElsewhere"
    using classify_allowed [OF _ _ assms(7)] assms(2,3) unfolding d by blast
  with judge_label_verdict [where censuses = censuses and repo = repo and c = c, OF c(1)]
  have "served_by_runner c ?owned label
      \<or> (\<exists>p \<in> set (peer_resolver (fe_supply e) (fe_read_peer e) host repo label). pv_counted p)"
    by (simp split: if_splits)
  then show ?thesis using c(2) counted_peer by blast
qed

text \<open>C39: an unread scope refuses, and no option overrides it. If the census of a protected label's
  repository is not complete and no runner it did read serves the label from another machine, the
  guard exits with the code of an indeterminate answer, with \<open>--allow-last-serving-host\<close> as without.\<close>

theorem unread_census_always_refuses:
  assumes "fe_profile e = Inr profile" and "host_identity profile override (fe_hostname e) = Inr host"
    and "protected_labels profile required = Inr protected" and "(repo, label) \<in> set protected"
    and "persistent_runner_names profile = Inr persistent"
    and "collect_censuses (fe_census_fetch e) (append_new [] (map fst protected)) = Inr censuses"
    and "censuses repo = Some c" and "\<not> complete c"
    and "\<not> served_by_runner c (owner_matcher host (owned_name_prefixes profile host) persistent) label"
  shows "floor_main_rc e override required allow_last = 4"
proof -
  let ?owned = "owner_matcher host (owned_name_prefixes profile host) persistent"
  let ?peers = "Some (peer_resolver (fe_supply e) (fe_read_peer e) host)"
  have ne: "protected \<noteq> []" using assms(4) by auto
  have "fn_verdict (judge_label censuses ?owned ?peers (repo, label)) = CapacityUnknown"
    using assms(8,9) judge_label_verdict [where censuses = censuses and repo = repo and c = c, OF assms(7)] by simp
  then have "find (\<lambda>f. fn_verdict f = CapacityUnknown) (map (judge_label censuses ?owned ?peers) protected) \<noteq> None"
    using assms(4) unfolding find_None_iff by force
  then obtain f where "find (\<lambda>f. fn_verdict f = CapacityUnknown) (map (judge_label censuses ?owned ?peers) protected) = Some f"
    by blast
  then have "exit_code (classify protected censuses ?owned allow_last ?peers) = 4"
    by (simp add: classify_def exit_code_def Let_def)
  then show ?thesis by (simp add: floor_main_rc_def floor_run_def assms(1-3,5,6) ne)
qed

subsection \<open>Two hosts of a fleet\<close>

definition gate_profile :: fleet_profile where
  "gate_profile = \<lparr>fp_present = True, fp_host = Some \<lparr>ht_id = PStr ''m1'', ht_persistent = NotDeclared\<rparr>,
     fp_lanes = [\<lparr>lw_id = PStr ''gate'', lw_repo = PStr ''dan/pulp'', lw_supervisors = PInt 2, lw_tier_labels = [PStr ''macOS'']\<rparr>]\<rparr>"

definition floor_sample :: "run_answer \<Rightarrow> floor_env" where
  "floor_sample own = \<lparr>fe_profile = Inr gate_profile, fe_hostname = ''m1.local'',
     fe_census_fetch = cli_fetcher ''gh'' (\<lambda>env argv. if length argv = 5 \<and> startswith (argv ! 2) ''repos'' then own else user_cli env argv) Map.empty,
     fe_supply = Some [], fe_read_peer = (\<lambda>_. None)\<rparr>"

lemma gate_profile_facts:
  "fe_profile (floor_sample own) = Inr gate_profile" "host_identity gate_profile [] (fe_hostname (floor_sample own)) = Inr ''m1''"
  "protected_labels gate_profile [] = Inr [(''dan/pulp'', ''macOS'')]" "(''dan/pulp'', ''macOS'') \<in> set [(''dan/pulp'', ''macOS'')]"
  "persistent_runner_names gate_profile = Inr []"
proof -
  show "host_identity gate_profile [] (fe_hostname (floor_sample own)) = Inr ''m1''"
    by (simp add: floor_sample_def) code_simp
qed (simp_all add: floor_sample_def protected_labels_def gate_profile_def declared_labels_def persistent_runner_names_def
    List.map_filter_def)

lemma sample_allowed:
  "map_sum (\<lambda>_. ()) (\<lambda>d. (fd_allowed d, fd_overridden d)) (floor_run (floor_sample (RunJson (PayloadPages [PageObject [Some user_row]]))) [] [] False)
     = Inr (True, False)"
  by code_simp

theorem allowed_mutation_keeps_labels_served_witness:
  "(\<exists>c. collect ''dan/pulp'' (fe_census_fetch (floor_sample (RunJson (PayloadPages [PageObject [Some user_row]])))) = Inr c
       \<and> served_by_runner c (owner_matcher ''m1'' (owned_name_prefixes gate_profile ''m1'') []) ''macOS'')
   \<or> served_by_peer (floor_sample (RunJson (PayloadPages [PageObject [Some user_row]]))) ''m1'' ''dan/pulp'' ''macOS''"
proof -
  let ?e = "floor_sample (RunJson (PayloadPages [PageObject [Some user_row]]))"
  obtain d where d: "floor_run ?e [] [] False = Inr d" "fd_allowed d" "\<not> fd_overridden d"
    using sample_allowed by (cases "floor_run ?e [] [] False") auto
  show ?thesis by (rule allowed_mutation_keeps_labels_served [OF d gate_profile_facts])
qed

lemma sample_unread:
  "map_sum (\<lambda>_. ()) (\<lambda>m. map_option (\<lambda>c. (complete c, map online (runners c))) (m ''dan/pulp''))
     (collect_censuses (fe_census_fetch (floor_sample (RunRaised [] ''TimeoutError'' ''timed out''))) [''dan/pulp''])
   = Inr (Some (False, []))"
  by code_simp

theorem unread_census_always_refuses_witness:
  "floor_main_rc (floor_sample (RunRaised [] ''TimeoutError'' ''timed out'')) [] [] True = 4"
proof -
  let ?e = "floor_sample (RunRaised [] ''TimeoutError'' ''timed out'')"
  obtain censuses c where cs: "collect_censuses (fe_census_fetch ?e) [''dan/pulp''] = Inr censuses"
    "censuses ''dan/pulp'' = Some c" "\<not> complete c" "map online (runners c) = []"
    using sample_unread by (cases "collect_censuses (fe_census_fetch ?e) [''dan/pulp'']") auto
  have coll: "collect_censuses (fe_census_fetch ?e) (append_new [] (map fst [(''dan/pulp'', ''macOS'')])) = Inr censuses"
    using cs(1) by simp
  have "\<not> served_by_runner c (owner_matcher ''m1'' (owned_name_prefixes gate_profile ''m1'') []) ''macOS''"
    using cs(4) by (simp add: served_by_runner_def)
  from unread_census_always_refuses [OF gate_profile_facts coll cs(2,3) this] show ?thesis .
qed

end
