(* ===== verification/DiskScan.thy ===== *)
theory DiskScan
  imports FleetLanes Complex_Main
begin

section \<open>Walking the build trees of a host\<close>

text \<open>
  The walks of \<open>scripts/disk_reclaim.py\<close>: the search for build directories under the scan roots, the
  newest modification time of a tree, the search for a source checkout inside it, and the verdict on
  one candidate. A path is the list of its components below \<open>/\<close>. A directory tree is what one walk
  observed of it: every \<open>stat\<close> and every listing either answered or failed, and a listing that did not
  return in time failed too. Two walks of one pass observe two trees. Times are microseconds, ages
  rational days.
\<close>

type_synonym fpath = "string list"

definition path_str :: "fpath \<Rightarrow> string" where
  "path_str p = ''/'' @ join ''/'' p"

subsection \<open>Observed trees\<close>

text \<open>The error numbers the walks tell apart: refusals (\<open>EPERM\<close>, \<open>EACCES\<close>), the other members of
  \<open>UNMEASURABLE_ERRNOS\<close>, and the rest, which means that the entry is gone.\<close>

datatype scan_error = Denied | Unreadable | Gone

definition unmeasurable :: "scan_error \<Rightarrow> bool" where
  "unmeasurable err = (err \<noteq> Gone)"

text \<open>An entry carries its name, its own \<open>lstat\<close> time and, when it is a directory, the \<open>stat\<close> time and the
  listing the walk got when it came to it. Symbolic links are leaves: no walk follows them.\<close>

datatype node = Leaf | Folder "scan_error + int" "scan_error + (string \<times> (scan_error + int) \<times> node) list"

type_synonym dir_entry = "string \<times> (scan_error + int) \<times> node"

definition entry_name :: "dir_entry \<Rightarrow> string" where
  "entry_name en = fst en"

definition entry_stat :: "dir_entry \<Rightarrow> scan_error + int" where
  "entry_stat en = fst (snd en)"

definition entry_node :: "dir_entry \<Rightarrow> node" where
  "entry_node en = snd (snd en)"

fun is_folder :: "node \<Rightarrow> bool" where
  "is_folder Leaf = False"
| "is_folder (Folder s l) = True"

fun own_stat :: "node \<Rightarrow> scan_error + int" where
  "own_stat Leaf = Inl Gone"
| "own_stat (Folder s l) = s"

fun raw_listing :: "node \<Rightarrow> scan_error + dir_entry list" where
  "raw_listing Leaf = Inl Gone"
| "raw_listing (Folder s l) = l"

definition APP_CONTAINER_DIRS :: "string list" where
  "APP_CONTAINER_DIRS = [''Containers'', ''Group Containers'', ''Daemon Containers'']"

fun container_pair :: "string list \<Rightarrow> bool" where
  "container_pair (a # b # rest) = (a = ''Library'' \<and> b \<in> set APP_CONTAINER_DIRS \<or> container_pair (b # rest))"
| "container_pair _ = False"

definition inside :: "fpath \<Rightarrow> fpath \<Rightarrow> bool" where
  "inside dir p = (take (length dir) p = dir)"

definition is_app_container :: "fpath \<Rightarrow> fpath \<Rightarrow> bool" where
  "is_app_container home p = (container_pair p \<or> inside (home @ [''Library'']) p)"

definition bounded_scandir :: "fpath \<Rightarrow> fpath \<Rightarrow> node \<Rightarrow> scan_error + dir_entry list" where
  "bounded_scandir home p t = (if is_app_container home p then Inl Denied else raw_listing t)"

text \<open>The weight of a tree bounds what a stack of trees can still push.\<close>

function weight :: "node \<Rightarrow> nat" where
  "weight Leaf = 1"
| "weight (Folder s (Inl err)) = 1"
| "weight (Folder s (Inr es)) = Suc (sum_list (map (\<lambda>en. weight (entry_node en)) es))"
  by pat_completeness auto
termination
proof (relation "measure size")
  fix s and es :: "dir_entry list" and en
  assume "en \<in> set es"
  then have "size (snd (snd en)) < Suc (size_list (size_prod (\<lambda>_. 0) (size_prod (\<lambda>_. 0) size)) es)"
    by (induction es) (auto split: prod.splits)
  then show "(entry_node en, Folder s (Inr es)) \<in> measure size"
    by (simp add: entry_node_def)
qed simp

definition stack_weight :: "('a \<Rightarrow> node) \<Rightarrow> 'a list \<Rightarrow> nat" where
  "stack_weight f st = sum_list (map (weight \<circ> f) st)"

lemma weight_pos [simp]: "0 < weight t"
  by (cases t rule: weight.cases) auto

lemma stack_weight_simps [simp]:
  "stack_weight f [] = 0"
  "stack_weight f (x # st) = weight (f x) + stack_weight f st"
  "stack_weight f (st @ st') = stack_weight f st + stack_weight f st'"
  "stack_weight f (rev st) = stack_weight f st"
  by (simp_all add: stack_weight_def rev_map [symmetric])

text \<open>Pushing the subdirectories of a listed folder makes the stack lighter.\<close>

lemma push_lighter:
  assumes "bounded_scandir home p t = Inr es" and "\<And>en. f (g en) = entry_node en"
  shows "stack_weight f (map g (filter P es)) < weight t"
proof -
  have t: "raw_listing t = Inr es" using assms(1) by (simp add: bounded_scandir_def split: if_splits)
  have "stack_weight f (map g (filter P es)) \<le> sum_list (map (\<lambda>en. weight (entry_node en)) es)"
    by (induction es) (auto simp: assms(2))
  with t show ?thesis by (cases t rule: weight.cases) auto
qed

subsection \<open>The newest modification time\<close>

fun newest_entry :: "dir_entry list \<Rightarrow> int \<Rightarrow> int option" where
  "newest_entry [] newest = Some newest"
| "newest_entry (en # es) newest = (case entry_stat en of
     Inl err \<Rightarrow> if unmeasurable err then None else newest_entry es newest
   | Inr t \<Rightarrow> newest_entry es (max newest t))"

definition readable_folder :: "dir_entry \<Rightarrow> bool" where
  "readable_folder en = (is_folder (entry_node en) \<and> \<not> isl (entry_stat en))"

definition mtime_children :: "nat \<Rightarrow> fpath \<Rightarrow> nat \<Rightarrow> dir_entry list \<Rightarrow> (fpath \<times> nat \<times> node) list" where
  "mtime_children maxdepth p depth es =
     (if depth + 1 < maxdepth
      then map (\<lambda>en. (p @ [entry_name en], depth + 1, entry_node en)) (filter readable_folder es) else [])"

lemma mtime_push_lighter:
  "bounded_scandir home p t = Inr es \<Longrightarrow> stack_weight (\<lambda>(p, d, t). t) (mtime_children maxdepth p depth es) < weight t"
  by (auto simp: mtime_children_def intro!: push_lighter)

function mtime_walk :: "fpath \<Rightarrow> nat \<Rightarrow> (fpath \<times> nat \<times> node) list \<Rightarrow> int \<Rightarrow> bool \<Rightarrow> int option" where
  "mtime_walk home maxdepth [] newest measured = (if measured then Some newest else None)"
| "mtime_walk home maxdepth ((p, depth, t) # stack) newest measured = (case own_stat t of
     Inl err \<Rightarrow> if unmeasurable err then None else mtime_walk home maxdepth stack newest measured
   | Inr own \<Rightarrow> (case bounded_scandir home p t of
       Inl err \<Rightarrow> if unmeasurable err then None else mtime_walk home maxdepth stack (max newest own) True
     | Inr es \<Rightarrow> (case newest_entry es (max newest own) of
         None \<Rightarrow> None
       | Some newest' \<Rightarrow> mtime_walk home maxdepth (rev (mtime_children maxdepth p depth es) @ stack) newest' True)))"
  by pat_completeness auto
termination
  by (relation "measure (\<lambda>(home, maxdepth, stack, newest, measured). stack_weight (\<lambda>(p, d, t). t) stack)")
    (auto dest: mtime_push_lighter)

definition newest_mtime :: "fpath \<Rightarrow> fpath \<Rightarrow> nat \<Rightarrow> node \<Rightarrow> int option" where
  "newest_mtime home p maxdepth t = mtime_walk home maxdepth [(p, 0, t)] 0 False"

subsection \<open>A source checkout inside a build tree\<close>

definition SOURCE_MARKERS :: "string list" where
  "SOURCE_MARKERS = [''.git'', ''CMakeLists.txt'', ''Cargo.toml'', ''package.json'']"

definition GENERATED_MARKERS :: "string list" where
  "GENERATED_MARKERS = [''CMakeCache.txt'', ''build.ninja'', ''CMakeFiles'']"

definition GENERATED_SCRATCH_DIRS :: "string list" where
  "GENERATED_SCRATCH_DIRS = [''test-tmp'']"

definition NESTED_SOURCE_MAXDEPTH :: nat where "NESTED_SOURCE_MAXDEPTH = 4"
definition RECHECK_MAXDEPTH :: nat where "RECHECK_MAXDEPTH = 4"

text \<open>An item of the stack: the path, its depth, whether it lies in a test's own output, the tree.\<close>

type_synonym nested_item = "fpath \<times> nat \<times> bool \<times> node"

definition marks_source :: "nat \<Rightarrow> bool \<Rightarrow> dir_entry \<Rightarrow> bool" where
  "marks_source depth generated en =
     (depth > 0 \<and> entry_name en \<in> set SOURCE_MARKERS \<and> (\<not> generated \<or> entry_name en = ''.git''))"

definition nested_children :: "fpath \<Rightarrow> nat \<Rightarrow> bool \<Rightarrow> dir_entry list \<Rightarrow> nested_item list" where
  "nested_children p depth generated es =
     map (\<lambda>en. (p @ [entry_name en], depth + 1,
            generated \<or> (depth = 0 \<and> entry_name en \<in> set GENERATED_SCRATCH_DIRS), entry_node en))
       (filter (\<lambda>en. is_folder (entry_node en)) es)"

lemma nested_push_lighter:
  "bounded_scandir home p t = Inr es \<Longrightarrow> stack_weight (\<lambda>(p, d, g, t). t) (nested_children p depth generated es) < weight t"
  unfolding nested_children_def by (rule push_lighter) simp_all

function nested_walk :: "fpath \<Rightarrow> nat \<Rightarrow> nested_item list \<Rightarrow> fpath option \<times> bool" where
  "nested_walk home maxdepth [] = (None, True)"
| "nested_walk home maxdepth ((p, depth, generated, t) # stack) =
     (if depth \<ge> maxdepth then nested_walk home maxdepth stack
      else (case bounded_scandir home p t of
        Inl err \<Rightarrow> if unmeasurable err then (None, False) else nested_walk home maxdepth stack
      | Inr es \<Rightarrow> (case find (marks_source depth generated) es of
          Some en \<Rightarrow> (Some (p @ [entry_name en]), True)
        | None \<Rightarrow> nested_walk home maxdepth (rev (nested_children p depth generated es) @ stack))))"
  by pat_completeness auto
termination
  by (relation "measure (\<lambda>(home, maxdepth, stack). stack_weight (\<lambda>(p, d, g, t). t) stack)")
    (auto dest: nested_push_lighter)

definition nested_source_marker :: "fpath \<Rightarrow> fpath \<Rightarrow> node \<Rightarrow> fpath option \<times> bool" where
  "nested_source_marker home p t = nested_walk home NESTED_SOURCE_MAXDEPTH [(p, 0, False, t)]"

subsection \<open>Build directories under the scan roots\<close>

definition is_build_dir_name :: "string \<Rightarrow> bool" where
  "is_build_dir_name name = (name = ''build'' \<or> startswith name ''build-'' \<and> length name > length ''build-'')"

type_synonym scan_item = "fpath \<times> nat \<times> node"

definition scan_children :: "fpath \<Rightarrow> nat \<Rightarrow> dir_entry list \<Rightarrow> scan_item list" where
  "scan_children p depth es = map (\<lambda>en. (p @ [entry_name en], depth + 1, entry_node en))
     (filter (\<lambda>en. is_folder (entry_node en) \<and> \<not> is_build_dir_name (entry_name en)) es)"

definition build_dirs :: "fpath \<Rightarrow> dir_entry list \<Rightarrow> fpath list" where
  "build_dirs p es = map (\<lambda>en. p @ [entry_name en])
     (filter (\<lambda>en. is_folder (entry_node en) \<and> is_build_dir_name (entry_name en)) es)"

lemma scan_push_lighter:
  "bounded_scandir home p t = Inr es \<Longrightarrow> stack_weight (\<lambda>(p, d, t). t) (scan_children p depth es) < weight t"
  unfolding scan_children_def by (rule push_lighter) simp_all

function scan_walk :: "fpath \<Rightarrow> nat \<Rightarrow> scan_item list \<Rightarrow> fpath list" where
  "scan_walk home maxdepth [] = []"
| "scan_walk home maxdepth ((p, depth, t) # stack) =
     (if depth \<ge> maxdepth then scan_walk home maxdepth stack
      else (case bounded_scandir home p t of
        Inl err \<Rightarrow> scan_walk home maxdepth stack
      | Inr es \<Rightarrow> build_dirs p es @ scan_walk home maxdepth (rev (scan_children p depth es) @ stack)))"
  by pat_completeness auto
termination
  by (relation "measure (\<lambda>(home, maxdepth, stack). stack_weight (\<lambda>(p, d, t). t) stack)")
    (auto dest: scan_push_lighter)

definition find_candidates :: "fpath \<Rightarrow> (fpath \<Rightarrow> node) \<Rightarrow> fpath list \<Rightarrow> nat \<Rightarrow> fpath list" where
  "find_candidates home tree roots maxdepth =
     sort (concat (map (\<lambda>root. if is_folder (tree root) then scan_walk home maxdepth [(root, 0, tree root)] else []) roots))"

subsection \<open>Live builds\<close>

text \<open>\<open>resolve\<close> is what \<open>Path.resolve\<close> answers, with \<open>None\<close> where it raised.\<close>

definition path_spellings :: "(string \<Rightarrow> string option) \<Rightarrow> fpath \<Rightarrow> string list" where
  "path_spellings resolve p = path_str p # (case resolve (path_str p) of None \<Rightarrow> [] | Some s \<Rightarrow> [s])"

definition resolved_command_paths :: "(string \<Rightarrow> string option) \<Rightarrow> string \<Rightarrow> string list" where
  "resolved_command_paths resolve active = concat (map (\<lambda>tok. if startswith tok ''/''
     then tok # (case resolve tok of None \<Rightarrow> [] | Some s \<Rightarrow> [s]) else []) (split_ws active))"

definition names_candidate :: "(string \<Rightarrow> string option) \<Rightarrow> string \<Rightarrow> string list \<Rightarrow> bool" where
  "names_candidate resolve active spellings =
     (list_ex (\<lambda>s. contains s active) spellings
      \<or> list_ex (\<lambda>tok. list_ex (\<lambda>s. tok = s \<or> startswith tok (s @ ''/'')) spellings) (resolved_command_paths resolve active))"

subsection \<open>The verdict on one candidate\<close>

datatype verdict =
    Unmeasured | SourceTree | NotABuildTree | NestedScanUnreadable | NestedSourceTree fpath
  | ProcessScanUnavailable | ActiveBuild | TooRecent | Reclaimable string

text \<open>What the walks of one candidate observed, in the order of the code.\<close>

record candidate_view =
  cv_tree :: node
  cv_exists :: "string \<Rightarrow> bool"
  cv_nested :: node

definition has_marker :: "(string \<Rightarrow> bool) \<Rightarrow> string list \<Rightarrow> string option" where
  "has_marker exists markers = find exists markers"

definition DAY :: rat where "DAY = 86400000000"

definition age_days :: "int \<Rightarrow> int \<Rightarrow> rat" where
  "age_days now measured = max 0 (of_int (now - measured) / DAY)"

definition classify_candidate ::
  "fpath \<Rightarrow> (string \<Rightarrow> string option) \<Rightarrow> int \<Rightarrow> rat \<Rightarrow> string option \<Rightarrow> fpath \<Rightarrow> candidate_view \<Rightarrow> bool \<times> verdict \<times> rat" where
  "classify_candidate home resolve now min_age active p v =
     (case newest_mtime home p 2 (cv_tree v) of
        None \<Rightarrow> (False, Unmeasured, 0)
      | Some measured \<Rightarrow>
          let age = age_days now measured in
          if has_marker (cv_exists v) SOURCE_MARKERS \<noteq> None then (False, SourceTree, age)
          else (case has_marker (cv_exists v) GENERATED_MARKERS of
            None \<Rightarrow> (False, NotABuildTree, age)
          | Some marker \<Rightarrow>
              let (nested, readable) = nested_source_marker home p (cv_nested v) in
              if \<not> readable then (False, NestedScanUnreadable, age)
              else (case nested of
                Some q \<Rightarrow> (False, NestedSourceTree q, age)
              | None \<Rightarrow> (case active of
                  None \<Rightarrow> (False, ProcessScanUnavailable, age)
                | Some lines \<Rightarrow>
                    if lines \<noteq> [] \<and> names_candidate resolve lines (path_spellings resolve p) then (False, ActiveBuild, age)
                    else if age < min_age then (False, TooRecent, age)
                    else (True, Reclaimable marker, age)))))"

subsection \<open>What a walk has seen\<close>

text \<open>A walk with an explicit stack sees every item its children lead to. Each walk is characterised by
  its successor function, whatever the order in which the stack is worked off.\<close>

abbreviation reaches :: "('i \<Rightarrow> 'i list) \<Rightarrow> 'i \<Rightarrow> 'i \<Rightarrow> bool" where
  "reaches succs \<equiv> (\<lambda>x y. y \<in> set (succs x))\<^sup>*\<^sup>*"

definition all_below :: "('i \<Rightarrow> 'i list) \<Rightarrow> ('i \<Rightarrow> bool) \<Rightarrow> 'i \<Rightarrow> bool" where
  "all_below succs P x = (\<forall>y. reaches succs x y \<longrightarrow> P y)"

lemma all_below_step: "all_below succs P x = (P x \<and> (\<forall>z \<in> set (succs x). all_below succs P z))"
proof -
  have eq: "reaches succs x y = (y = x \<or> (\<exists>z \<in> set (succs x). reaches succs z y))" for y
  proof
    assume "reaches succs x y"
    then show "y = x \<or> (\<exists>z \<in> set (succs x). reaches succs z y)" by (cases rule: converse_rtranclpE) auto
  next
    assume "y = x \<or> (\<exists>z \<in> set (succs x). reaches succs z y)"
    then show "reaches succs x y"
    proof
      assume "\<exists>z \<in> set (succs x). reaches succs z y"
      then obtain z where "z \<in> set (succs x)" "reaches succs z y" by blast
      then show ?thesis by (rule converse_rtranclp_into_rtranclp)
    qed simp
  qed
  have "all_below succs P x = (\<forall>y. (y = x \<or> (\<exists>z \<in> set (succs x). reaches succs z y)) \<longrightarrow> P y)"
    unfolding all_below_def by (intro iff_allI arg_cong2 [where f = "(\<longrightarrow>)"] eq refl)
  then show ?thesis by (auto simp: all_below_def)
qed

lemma all_below_mono: "all_below succs P x \<Longrightarrow> (\<And>y. P y \<Longrightarrow> Q y) \<Longrightarrow> all_below succs Q x"
  by (auto simp: all_below_def)

definition nested_succs :: "fpath \<Rightarrow> nat \<Rightarrow> nested_item \<Rightarrow> nested_item list" where
  "nested_succs home maxdepth = (\<lambda>(p, depth, g, t). if depth \<ge> maxdepth then [] else
     (case bounded_scandir home p t of Inl err \<Rightarrow> [] | Inr es \<Rightarrow> nested_children p depth g es))"

definition no_source_here :: "fpath \<Rightarrow> nat \<Rightarrow> nested_item \<Rightarrow> bool" where
  "no_source_here home maxdepth = (\<lambda>(p, depth, g, t). depth < maxdepth \<longrightarrow>
     (case bounded_scandir home p t of Inl err \<Rightarrow> \<not> unmeasurable err
      | Inr es \<Rightarrow> \<forall>en \<in> set es. \<not> marks_source depth g en))"

lemma nested_walk_clear:
  "(nested_walk home maxdepth stack = (None, True))
     = (\<forall>x \<in> set stack. all_below (nested_succs home maxdepth) (no_source_here home maxdepth) x)"
proof (induction home maxdepth stack rule: nested_walk.induct)
  case (2 home maxdepth p depth g t stack)
  note step = all_below_step [of "nested_succs home maxdepth" _ "(p, depth, g, t)"]
  show ?case
  proof (cases "depth \<ge> maxdepth")
    case True
    with 2 show ?thesis by (simp add: step) (simp add: nested_succs_def no_source_here_def)
  next
    case False
    show ?thesis
    proof (cases "bounded_scandir home p t")
      case (Inl err)
      with False 2 show ?thesis by (simp add: step) (simp add: nested_succs_def no_source_here_def)
    next
      case (Inr es)
      show ?thesis
      proof (cases "find (marks_source depth g) es")
        case None
        then have "\<forall>en \<in> set es. \<not> marks_source depth g en" unfolding find_None_iff by blast
        with False Inr None 2 show ?thesis
          by (simp add: step ball_Un) (simp add: nested_succs_def no_source_here_def)
      next
        case (Some en)
        then have "\<exists>en \<in> set es. marks_source depth g en" unfolding find_Some_iff by (metis nth_mem)
        with False Inr Some show ?thesis by (simp add: step) (simp add: no_source_here_def, blast)
      qed
    qed
  qed
qed simp

text \<open>The newest time bounds every time the walk could read, and nothing it met was unreadable.\<close>

definition mtime_succs :: "fpath \<Rightarrow> nat \<Rightarrow> fpath \<times> nat \<times> node \<Rightarrow> (fpath \<times> nat \<times> node) list" where
  "mtime_succs home maxdepth = (\<lambda>(p, depth, t). if isl (own_stat t) then [] else
     (case bounded_scandir home p t of Inl err \<Rightarrow> [] | Inr es \<Rightarrow> mtime_children maxdepth p depth es))"

definition no_later :: "scan_error + int \<Rightarrow> int \<Rightarrow> bool" where
  "no_later st m = (case st of Inl err \<Rightarrow> \<not> unmeasurable err | Inr t \<Rightarrow> t \<le> m)"

definition untouched_since :: "fpath \<Rightarrow> int \<Rightarrow> fpath \<times> nat \<times> node \<Rightarrow> bool" where
  "untouched_since home m = (\<lambda>(p, depth, t). no_later (own_stat t) m
     \<and> (isl (own_stat t) \<or> (case bounded_scandir home p t of Inl err \<Rightarrow> \<not> unmeasurable err
          | Inr es \<Rightarrow> \<forall>en \<in> set es. no_later (entry_stat en) m)))"

lemma newest_entry_Some:
  "newest_entry es n = Some m \<Longrightarrow> n \<le> m \<and> (\<forall>en \<in> set es. no_later (entry_stat en) m)"
  by (induction es arbitrary: n) (fastforce simp: no_later_def split: sum.splits if_splits)+

lemma mtime_walk_bound:
  "mtime_walk home maxdepth stack newest measured = Some m \<Longrightarrow>
     newest \<le> m \<and> (\<forall>x \<in> set stack. all_below (mtime_succs home maxdepth) (untouched_since home m) x)"
proof (induction home maxdepth stack newest measured rule: mtime_walk.induct)
  case (2 home maxdepth p depth t stack newest measured)
  note step = all_below_step [of "mtime_succs home maxdepth" _ "(p, depth, t)"]
  show ?case
  proof (cases "own_stat t")
    case (Inl err)
    with "2.prems" have "\<not> unmeasurable err" "mtime_walk home maxdepth stack newest measured = Some m"
      by (auto split: if_splits)
    with "2.IH"(1) [OF Inl] Inl show ?thesis
      by (simp add: step) (simp add: mtime_succs_def untouched_since_def no_later_def)
  next
    case (Inr own)
    show ?thesis
    proof (cases "bounded_scandir home p t")
      case (Inl err)
      with "2.prems" Inr have "\<not> unmeasurable err" "mtime_walk home maxdepth stack (max newest own) True = Some m"
        by (auto split: if_splits)
      with "2.IH"(2) [OF Inr Inl] Inl Inr show ?thesis
        by (simp add: step) (simp add: mtime_succs_def untouched_since_def no_later_def)
    next
      case (Inr es)
      note own = \<open>own_stat t = Inr own\<close>
      from "2.prems" own Inr obtain n where n: "newest_entry es (max newest own) = Some n"
        "mtime_walk home maxdepth (rev (mtime_children maxdepth p depth es) @ stack) n True = Some m"
        by (auto split: option.splits)
      have below: "n \<le> m" "\<forall>x \<in> set (mtime_children maxdepth p depth es) \<union> set stack.
          all_below (mtime_succs home maxdepth) (untouched_since home m) x"
        using "2.IH"(3) [OF own Inr n] by auto
      have "max newest own \<le> m" "\<forall>en \<in> set es. no_later (entry_stat en) m"
        using newest_entry_Some [OF n(1)] below(1) by (auto simp: no_later_def split: sum.splits)
      with below(2) own Inr show ?thesis
        by (simp add: step ball_Un) (simp add: mtime_succs_def untouched_since_def no_later_def)
    qed
  qed
qed (simp split: if_splits)

text \<open>A candidate is a build directory that a chain of other directories leads to.\<close>

definition scan_succs :: "fpath \<Rightarrow> nat \<Rightarrow> scan_item \<Rightarrow> scan_item list" where
  "scan_succs home maxdepth = (\<lambda>(p, depth, t). if depth \<ge> maxdepth then [] else
     (case bounded_scandir home p t of Inl err \<Rightarrow> [] | Inr es \<Rightarrow> scan_children p depth es))"

definition no_build_dir :: "fpath \<Rightarrow> nat \<Rightarrow> fpath \<Rightarrow> scan_item \<Rightarrow> bool" where
  "no_build_dir home maxdepth c = (\<lambda>(p, depth, t). depth < maxdepth \<longrightarrow>
     (case bounded_scandir home p t of Inl err \<Rightarrow> True | Inr es \<Rightarrow> c \<notin> set (build_dirs p es)))"

lemma scan_walk_misses:
  "(c \<notin> set (scan_walk home maxdepth stack))
     = (\<forall>x \<in> set stack. all_below (scan_succs home maxdepth) (no_build_dir home maxdepth c) x)"
proof (induction home maxdepth stack rule: scan_walk.induct)
  case (2 home maxdepth p depth t stack)
  note step = all_below_step [of "scan_succs home maxdepth" _ "(p, depth, t)"]
  show ?case
  proof (cases "depth \<ge> maxdepth")
    case True
    with 2 show ?thesis by (simp add: step) (simp add: scan_succs_def no_build_dir_def)
  next
    case False
    show ?thesis
    proof (cases "bounded_scandir home p t")
      case (Inl err)
      with False 2 show ?thesis by (simp add: step) (simp add: scan_succs_def no_build_dir_def)
    next
      case (Inr es)
      with False 2 show ?thesis by (simp add: step ball_Un) (simp add: scan_succs_def no_build_dir_def)
    qed
  qed
qed simp

lemma scan_reaches:
  assumes "reaches (scan_succs home maxdepth) (src, 0, t0) (p, depth, t)"
  shows "\<exists>ns. p = src @ ns \<and> length ns = depth \<and> list_all (\<lambda>n. \<not> is_build_dir_name n) ns"
  using assms
proof (induction "(p, depth, t)" arbitrary: p depth t rule: rtranclp_induct)
  case base
  then show ?case by simp
next
  case (step y)
  obtain q d u where y: "y = (q, d, u)" by (cases y)
  from step(3) [OF y] obtain ns where ns: "q = src @ ns" "length ns = d" "list_all (\<lambda>n. \<not> is_build_dir_name n) ns" by blast
  from step(2) obtain en where "\<not> is_build_dir_name (entry_name en)" "p = q @ [entry_name en]" "depth = d + 1"
    by (auto simp: y scan_succs_def scan_children_def split: sum.splits if_splits)
  with ns show ?case by (intro exI [of _ "ns @ [entry_name en]"]) simp
qed

lemma candidate_shape:
  assumes "c \<in> set (find_candidates home tree roots maxdepth)"
  shows "\<exists>src \<in> set roots. \<exists>ns name. c = src @ ns @ [name] \<and> is_build_dir_name name
    \<and> list_all (\<lambda>n. \<not> is_build_dir_name n) ns \<and> length ns < maxdepth"
proof -
  obtain src where src: "src \<in> set roots" "c \<in> set (scan_walk home maxdepth [(src, 0, tree src)])"
    using assms by (auto simp: find_candidates_def split: if_splits)
  then have "\<not> all_below (scan_succs home maxdepth) (no_build_dir home maxdepth c) (src, 0, tree src)"
    using scan_walk_misses [of c home maxdepth "[(src, 0, tree src)]"] by simp
  then obtain p depth t where reach: "reaches (scan_succs home maxdepth) (src, 0, tree src) (p, depth, t)"
    and "\<not> no_build_dir home maxdepth c (p, depth, t)" by (auto simp: all_below_def)
  then obtain en where "depth < maxdepth" "c = p @ [entry_name en]" "is_build_dir_name (entry_name en)"
    by (auto simp: no_build_dir_def build_dirs_def split: sum.splits)
  with scan_reaches [OF reach] src(1) show ?thesis by (intro bexI [of _ src]) auto
qed

text \<open>Every fact a deletion verdict stands for.\<close>

definition no_source_below :: "fpath \<Rightarrow> fpath \<Rightarrow> node \<Rightarrow> bool" where
  "no_source_below home p t =
     all_below (nested_succs home NESTED_SOURCE_MAXDEPTH) (no_source_here home NESTED_SOURCE_MAXDEPTH) (p, 0, False, t)"

definition idle_tree :: "fpath \<Rightarrow> fpath \<Rightarrow> nat \<Rightarrow> node \<Rightarrow> int \<Rightarrow> bool" where
  "idle_tree home p maxdepth t m = all_below (mtime_succs home maxdepth) (untouched_since home m) (p, 0, t)"

lemma nested_source_marker_clear: "(nested_source_marker home p t = (None, True)) = no_source_below home p t"
  unfolding nested_source_marker_def nested_walk_clear no_source_below_def by simp

lemma newest_mtime_bound: "newest_mtime home p maxdepth t = Some m \<Longrightarrow> idle_tree home p maxdepth t m"
  unfolding newest_mtime_def idle_tree_def by (drule mtime_walk_bound) simp

lemma classify_deletes:
  assumes "fst (classify_candidate home resolve now min_age active p v)"
  shows "\<exists>m. idle_tree home p 2 (cv_tree v) m \<and> min_age \<le> age_days now m"
    and "\<forall>marker \<in> set SOURCE_MARKERS. \<not> cv_exists v marker"
    and "\<exists>marker \<in> set GENERATED_MARKERS. cv_exists v marker"
    and "no_source_below home p (cv_nested v)"
    and "\<exists>ls. active = Some ls \<and> (ls \<noteq> [] \<longrightarrow> \<not> names_candidate resolve ls (path_spellings resolve p))"
proof -
  obtain m where m: "newest_mtime home p 2 (cv_tree v) = Some m"
    using assms by (cases "newest_mtime home p 2 (cv_tree v)") (auto simp: classify_candidate_def)
  have none: "has_marker (cv_exists v) SOURCE_MARKERS = None"
    using assms m by (auto simp: classify_candidate_def Let_def split: if_splits)
  obtain marker where marker: "has_marker (cv_exists v) GENERATED_MARKERS = Some marker"
    using assms m none by (cases "has_marker (cv_exists v) GENERATED_MARKERS") (auto simp: classify_candidate_def Let_def)
  obtain nested readable where nested: "nested_source_marker home p (cv_nested v) = (nested, readable)" by fastforce
  note facts = m none marker nested
  have clear: "readable" "nested = None"
    using assms by (auto simp: classify_candidate_def Let_def facts split: if_splits option.splits)
  obtain ls where ls: "active = Some ls"
    using assms clear by (cases active) (auto simp: classify_candidate_def Let_def facts)
  have last: "ls \<noteq> [] \<longrightarrow> \<not> names_candidate resolve ls (path_spellings resolve p)" "min_age \<le> age_days now m"
    using assms clear ls by (auto simp: classify_candidate_def Let_def facts split: if_splits)
  show "\<exists>m. idle_tree home p 2 (cv_tree v) m \<and> min_age \<le> age_days now m"
    using newest_mtime_bound [OF m] last(2) by blast
  show "\<forall>marker \<in> set SOURCE_MARKERS. \<not> cv_exists v marker" using none unfolding has_marker_def find_None_iff by blast
  show "\<exists>marker \<in> set GENERATED_MARKERS. cv_exists v marker"
    using marker unfolding has_marker_def find_Some_iff by (metis nth_mem)
  show "no_source_below home p (cv_nested v)" using nested clear by (simp flip: nested_source_marker_clear)
  show "\<exists>ls. active = Some ls \<and> (ls \<noteq> [] \<longrightarrow> \<not> names_candidate resolve ls (path_spellings resolve p))" using ls last by blast
qed

end
