(* ===== verification/DiskReclaim.thy ===== *)
theory DiskReclaim
  imports DiskScan
begin

section \<open>The disk janitor\<close>

text \<open>
  One pass of \<open>scripts/disk_reclaim.py\<close>: its scan roots, the volumes it measures, the age gate of each
  volume, the turn of one candidate with its last look before the removal, and the exit code. The pass
  environment holds what the system answered; what a candidate's walks observed is numbered by the
  candidate, so the last look sees another tree than the first. After its own build trees the pass calls
  four other reapers (\<open>pulp_reapers\<close>, \<open>tmp_checkouts\<close>, \<open>scratch_dirs\<close>, \<open>gate_ccache_trim\<close>), which remove
  other things under gates of their own: what they did is the pass's input, and the theorems say of
  which removals they speak. Reports, log rotation and the receipt are not modelled.
\<close>

subsection \<open>Arguments and answers\<close>

record reclaim_args =
  rl_roots :: string
  rl_maxdepth :: int
  rl_min_age_days :: rat
  rl_pressure_free_gb :: rat
  rl_pressure_used_percent :: rat
  rl_pressure_min_age_days :: rat
  rl_fail_below_gb :: rat
  rl_lease_path :: string
  rl_boot_volume :: string
  rl_boot_floor_gb :: rat
  rl_fix :: bool

record volume_probe =
  pb_device :: "int option"
  pb_free :: "int option"
  pb_usage :: "(int \<times> int) option"

datatype measurement = ScanVolumes | FloorVolumes | BootVolume

text \<open>What the other reapers answered: whether Pulp's ran, and the paths each of them removed.\<close>

record other_reapers =
  or_pulp_runs :: bool
  or_pulp_removed :: "fpath list"
  or_tmp_removed :: "fpath list"
  or_scratch_removed :: "fpath list"
  or_ccache_removed :: "fpath list"

record reclaim_env =
  de_paths :: path_env
  de_resolve :: "string \<Rightarrow> fpath option"
  de_realpath :: "fpath \<Rightarrow> fpath"
  de_is_dir :: "fpath \<Rightarrow> bool"
  de_reclaim_table :: "pydict option"
  de_root_is_dir :: "fpath \<Rightarrow> bool option"
  de_root_access :: "fpath \<Rightarrow> bool option"
  de_tart_home :: string
  de_profile_tart_home :: pyval
  de_boot_is_dir :: "bool option"
  de_probe :: "bool \<Rightarrow> measurement \<Rightarrow> fpath \<Rightarrow> volume_probe"
  de_now :: int
  de_active :: "string option"
  de_command_path :: "string \<Rightarrow> string option"
  de_tree :: "fpath \<Rightarrow> node"
  de_device :: "nat \<Rightarrow> int option"
  de_view :: "nat \<Rightarrow> candidate_view"
  de_size :: "nat \<Rightarrow> int"
  de_recheck_now :: "nat \<Rightarrow> int"
  de_recheck_tree :: "nat \<Rightarrow> node"
  de_recheck_nested :: "nat \<Rightarrow> node"
  de_rmtree :: "nat \<Rightarrow> bool"
  de_others :: other_reapers

definition GIB :: rat where "GIB = 1073741824"

definition home_of :: "reclaim_env \<Rightarrow> fpath" where
  "home_of e = path_parts (expanduser (de_paths e) ''~'')"

definition library_of :: "reclaim_env \<Rightarrow> fpath" where
  "library_of e = de_realpath e (home_of e) @ [''Library'']"

subsection \<open>Scan roots\<close>

definition refused_root :: "reclaim_env \<Rightarrow> fpath \<Rightarrow> bool" where
  "refused_root e p =
     (let r = de_realpath e p; library = library_of e in
      r \<in> {[], [''Users''], [''Volumes''], de_realpath e (home_of e)}
      \<or> r \<noteq> [] \<and> butlast r = [''Volumes'']
      \<or> inside library r
      \<or> r \<noteq> library \<and> inside r library)"

definition profile_root_candidates :: "reclaim_env \<Rightarrow> string list" where
  "profile_root_candidates e = (case de_reclaim_table e of
     None \<Rightarrow> []
   | Some reclaim \<Rightarrow> concat (map (\<lambda>key. case dget reclaim key of
       PStr v \<Rightarrow> if startswith (strip v) ''/''
         then [path_str ((if key = ''repo'' then butlast else id) (path_parts (strip v)))] else []
     | _ \<Rightarrow> []) [''repo'', ''worktrees_root'']))"

fun discover_from :: "reclaim_env \<Rightarrow> fpath list \<Rightarrow> string list \<Rightarrow> fpath list" where
  "discover_from e found [] = found"
| "discover_from e found (c # cs) = discover_from e
     (case de_resolve e (expanduser (de_paths e) c) of
        None \<Rightarrow> found
      | Some r \<Rightarrow> if \<not> de_is_dir e r \<or> r \<in> set found \<or> refused_root e r then found else found @ [r]) cs"

definition discover_roots :: "reclaim_env \<Rightarrow> fpath list" where
  "discover_roots e =
     (let found = discover_from e [] (''~/Code'' # profile_root_candidates e)
      in filter (\<lambda>r. \<not> list_ex (\<lambda>other. other \<noteq> r \<and> inside other r) found) found)"

text \<open>\<open>None\<close> where resolving a declared root raised.\<close>

fun resolve_all :: "reclaim_env \<Rightarrow> string list \<Rightarrow> fpath list option" where
  "resolve_all e [] = Some []"
| "resolve_all e (part # parts) = (case (de_resolve e (expanduser (de_paths e) part), resolve_all e parts) of
     (Some r, Some rs) \<Rightarrow> Some (r # rs) | _ \<Rightarrow> None)"

definition parse_roots :: "reclaim_env \<Rightarrow> string \<Rightarrow> fpath list option" where
  "parse_roots e raw = (if raw = [] then Some (discover_roots e)
     else resolve_all e (filter (\<lambda>part. part \<noteq> []) (split_on (CHR '':'') raw)))"

definition unusable_root :: "reclaim_env \<Rightarrow> fpath \<Rightarrow> bool" where
  "unusable_root e r = (refused_root e r \<or> de_root_is_dir e r \<noteq> Some True \<or> de_root_access e r \<noteq> Some True)"

subsection \<open>Volumes\<close>

record volume =
  vo_root :: fpath
  vo_device :: "int option"
  vo_free :: "int option"
  vo_usage :: "(int \<times> int) option"

text \<open>The usage is the used and the total bytes, \<open>None\<close> when it could not be read or the total is zero.\<close>

fun volumes_from :: "(fpath \<Rightarrow> volume_probe) \<Rightarrow> int list \<Rightarrow> fpath list \<Rightarrow> volume list" where
  "volumes_from probe seen [] = []"
| "volumes_from probe seen (r # rs) =
     (let pb = probe r;
          row = \<lparr>vo_root = r, vo_device = pb_device pb, vo_free = pb_free pb,
            vo_usage = (if pb_free pb = None then None else case pb_usage pb of
               Some (used, capacity) \<Rightarrow> if capacity = 0 then None else Some (used, capacity) | None \<Rightarrow> None)\<rparr>
      in case pb_device pb of
           None \<Rightarrow> row # volumes_from probe seen rs
         | Some d \<Rightarrow> if d \<in> set seen then volumes_from probe seen rs else row # volumes_from probe (d # seen) rs)"

definition volumes_free_bytes :: "(fpath \<Rightarrow> volume_probe) \<Rightarrow> fpath list \<Rightarrow> volume list" where
  "volumes_free_bytes probe roots = volumes_from probe [] roots"

definition tightest_free_bytes :: "volume list \<Rightarrow> int option" where
  "tightest_free_bytes vs =
     (if list_ex (\<lambda>v. vo_free v = None) vs then None
      else (case List.map_filter vo_free vs of [] \<Rightarrow> None | x # xs \<Rightarrow> Some (fold min xs x)))"

definition under_pressure :: "int option \<Rightarrow> (int \<times> int) option \<Rightarrow> rat \<Rightarrow> rat \<Rightarrow> bool" where
  "under_pressure free usage pressure_free_gb pressure_used_percent = (case free of
     None \<Rightarrow> False
   | Some f \<Rightarrow> of_int f < pressure_free_gb * GIB
       \<or> pressure_used_percent > 0 \<and> (case usage of None \<Rightarrow> False
          | Some (used, capacity) \<Rightarrow> 100 * of_int used / of_int capacity \<ge> pressure_used_percent))"

definition resolve_lease_path :: "reclaim_args \<Rightarrow> reclaim_env \<Rightarrow> fpath option" where
  "resolve_lease_path a e =
     (let spot = (\<lambda>v. Some (path_parts (expanduser (de_paths e) v))) in
      if rl_lease_path a \<noteq> [] then spot (rl_lease_path a)
      else if strip (de_tart_home e) \<noteq> [] then spot (strip (de_tart_home e))
      else (case de_profile_tart_home e of
        PStr v \<Rightarrow> if strip v \<noteq> [] then spot (strip v) else None | _ \<Rightarrow> None))"

definition DEFAULT_BOOT_VOLUME :: fpath where
  "DEFAULT_BOOT_VOLUME = [''System'', ''Volumes'', ''Data'']"

definition resolve_boot_volume :: "reclaim_args \<Rightarrow> reclaim_env \<Rightarrow> fpath" where
  "resolve_boot_volume a e =
     (if rl_boot_volume a \<noteq> [] then path_parts (expanduser (de_paths e) (rl_boot_volume a))
      else if de_boot_is_dir e = Some False then [] else DEFAULT_BOOT_VOLUME)"

datatype judged = LeaseFloor | OwnFloor | NoFloor

record boot_report =
  bo_judged_by :: judged
  bo_free_after :: "int option"
  bo_below_floor :: bool

definition boot_volume_report :: "volume \<Rightarrow> rat \<Rightarrow> int option list \<Rightarrow> rat \<Rightarrow> boot_report" where
  "boot_volume_report after floor_gb floor_devices lease_floor_gb =
     (let judged_by = (if lease_floor_gb > 0 \<and> vo_device after \<noteq> None \<and> vo_device after \<in> set floor_devices then LeaseFloor
                       else if floor_gb > 0 then OwnFloor else NoFloor)
      in \<lparr>bo_judged_by = judged_by, bo_free_after = vo_free after,
          bo_below_floor = (judged_by = OwnFloor \<and> (case vo_free after of None \<Rightarrow> False
             | Some free \<Rightarrow> of_int free < floor_gb * GIB))\<rparr>)"

subsection \<open>The turn of one candidate\<close>

datatype kept = Kept verdict | TouchedDuringPass | RemoveFailed

record pass_tally =
  rp_deleted :: "(fpath \<times> verdict \<times> int) list"
  rp_kept :: "(fpath \<times> kept) list"
  rp_reclaimed :: int
  rp_removals :: "fpath list"

definition keeps :: "fpath \<Rightarrow> kept \<Rightarrow> pass_tally \<Rightarrow> pass_tally" where
  "keeps p why st = st\<lparr>rp_kept := rp_kept st @ [(p, why)]\<rparr>"

definition deletes :: "fpath \<Rightarrow> verdict \<Rightarrow> int \<Rightarrow> pass_tally \<Rightarrow> pass_tally" where
  "deletes p why bytes st = st\<lparr>rp_deleted := rp_deleted st @ [(p, why, bytes)], rp_reclaimed := rp_reclaimed st + bytes\<rparr>"

definition pressured_devices :: "reclaim_args \<Rightarrow> volume list \<Rightarrow> int list" where
  "pressured_devices a vs = List.map_filter vo_device
     (filter (\<lambda>v. under_pressure (vo_free v) (vo_usage v) (rl_pressure_free_gb a) (rl_pressure_used_percent a)) vs)"

definition min_age_for :: "reclaim_args \<Rightarrow> int list \<Rightarrow> int option \<Rightarrow> rat" where
  "min_age_for a pressured device = (case device of
     None \<Rightarrow> rl_min_age_days a
   | Some d \<Rightarrow> if d \<in> set pressured then min (rl_min_age_days a) (rl_pressure_min_age_days a) else rl_min_age_days a)"

definition candidate_turn :: "reclaim_args \<Rightarrow> reclaim_env \<Rightarrow> int list \<Rightarrow> nat \<times> fpath \<Rightarrow> pass_tally \<Rightarrow> pass_tally" where
  "candidate_turn a e pressured c st =
     (let (i, p) = c; home = home_of e; min_age = min_age_for a pressured (de_device e i);
          (delete, reason, age) = classify_candidate home (de_command_path e) (de_now e) min_age (de_active e) p (de_view e i)
      in if \<not> delete then keeps p (Kept reason) st
         else if \<not> rl_fix a then deletes p reason (de_size e i) st
         else (case newest_mtime home p RECHECK_MAXDEPTH (de_recheck_tree e i) of
           None \<Rightarrow> keeps p TouchedDuringPass st
         | Some recheck \<Rightarrow>
             if of_int (de_recheck_now e i - recheck) / DAY < min_age then keeps p TouchedDuringPass st
             else let (nested, readable) = nested_source_marker home p (de_recheck_nested e i) in
               if \<not> readable then keeps p (Kept NestedScanUnreadable) st
               else (case nested of
                 Some q \<Rightarrow> keeps p (Kept (NestedSourceTree q)) st
               | None \<Rightarrow>
                   let tried = st\<lparr>rp_removals := rp_removals st @ [p]\<rparr> in
                   if de_rmtree e i then deletes p reason (de_size e i) tried else keeps p RemoveFailed tried)))"

subsection \<open>The pass\<close>

record reclaim_report =
  rr_pass :: pass_tally
  rr_pressure :: bool
  rr_candidates :: nat
  rr_free_before :: "int option"
  rr_floor_after :: "volume list"
  rr_scan_below_floor :: "fpath list"
  rr_boot :: boot_report
  rr_others :: other_reapers

definition reclaim_pass :: "reclaim_args \<Rightarrow> reclaim_env \<Rightarrow> fpath list \<Rightarrow> reclaim_report" where
  "reclaim_pass a e roots =
     (let before = volumes_free_bytes (de_probe e False ScanVolumes) roots;
          lease = resolve_lease_path a e;
          floor_roots = (case lease of Some l \<Rightarrow> [l] | None \<Rightarrow> roots);
          floor_before = (if lease = None then before else volumes_free_bytes (de_probe e False FloorVolumes) floor_roots);
          boot = resolve_boot_volume a e;
          measure_boot = (\<lambda>later. if rl_boot_floor_gb a > 0 then hd (volumes_free_bytes (de_probe e later BootVolume) [boot])
             else \<lparr>vo_root = boot, vo_device = None, vo_free = None, vo_usage = None\<rparr>);
          pressured = pressured_devices a before;
          candidates = find_candidates (home_of e) (de_tree e) roots (nat (rl_maxdepth a));
          tally = fold (candidate_turn a e pressured) (List.enumerate 1 candidates)
            \<lparr>rp_deleted = [], rp_kept = [], rp_reclaimed = 0, rp_removals = []\<rparr>;
          others = de_others e;
          remeasure = (rl_fix a \<or> or_pulp_runs others \<or> or_tmp_removed others \<noteq> [] \<or> or_scratch_removed others \<noteq> []);
          after = (if remeasure then volumes_free_bytes (de_probe e True ScanVolumes) roots else before);
          floor_after = (if lease = None then after
            else if remeasure then volumes_free_bytes (de_probe e True FloorVolumes) floor_roots else floor_before);
          floor_devices = map vo_device floor_after
      in \<lparr>rr_pass = tally, rr_pressure = (pressured \<noteq> []), rr_candidates = length candidates,
          rr_free_before = tightest_free_bytes floor_before, rr_floor_after = floor_after,
          rr_scan_below_floor = map vo_root (filter (\<lambda>v. lease \<noteq> None \<and> rl_fail_below_gb a > 0
            \<and> (vo_device v = None \<or> vo_device v \<notin> set floor_devices)
            \<and> (case vo_free v of None \<Rightarrow> False | Some f \<Rightarrow> of_int f < rl_fail_below_gb a * GIB)) after),
          rr_boot = boot_volume_report (measure_boot remeasure) (rl_boot_floor_gb a) floor_devices (rl_fail_below_gb a),
          rr_others = others\<rparr>)"

text \<open>Everything a pass removed, in its order, and the part the other reapers removed.\<close>

definition removed_by_others :: "reclaim_report \<Rightarrow> fpath list" where
  "removed_by_others rep = (let rs = rr_others rep in
     or_pulp_removed rs @ or_tmp_removed rs @ or_scratch_removed rs @ or_ccache_removed rs)"

definition removed_in_pass :: "reclaim_report \<Rightarrow> fpath list" where
  "removed_in_pass rep = rp_removals (rr_pass rep) @ removed_by_others rep"

definition reclaim_rc :: "reclaim_args \<Rightarrow> reclaim_env \<Rightarrow> reclaim_report \<Rightarrow> int" where
  "reclaim_rc a e rep =
     (let free_after = tightest_free_bytes (rr_floor_after rep); boot = rr_boot rep in
      if de_active e = None then 4
      else if rl_fail_below_gb a > 0 \<and> free_after = None then 4
      else if rl_fail_below_gb a > 0 \<and> of_int (the free_after) < rl_fail_below_gb a * GIB then 3
      else if bo_judged_by boot = OwnFloor \<and> bo_free_after boot = None then 4
      else if bo_below_floor boot then 5 else 0)"

text \<open>\<open>_run\<close>: the exit code and the report, without a report when the arguments or roots were refused.\<close>

definition reclaim_run :: "reclaim_args \<Rightarrow> reclaim_env \<Rightarrow> (int \<times> reclaim_report option) option" where
  "reclaim_run a e =
     (if rl_maxdepth a < 1 \<or> rl_min_age_days a \<le> 0 \<or> rl_pressure_min_age_days a \<le> 0 then Some (2, None)
      else (case parse_roots e (rl_roots a) of
        None \<Rightarrow> None
      | Some roots \<Rightarrow>
          if roots = [] \<or> list_ex (unusable_root e) roots then Some (2, None)
          else let rep = reclaim_pass a e roots in Some (reclaim_rc a e rep, Some rep)))"

subsection \<open>What a pass removes\<close>

lemma enumerate_fold_induct:
  assumes "x \<in> set (f (fold t cs st))" and "x \<notin> set (f st)"
    and "\<And>c st. x \<in> set (f (t c st)) \<Longrightarrow> x \<in> set (f st) \<or> (P c x)"
  shows "\<exists>c \<in> set cs. P c x"
  using assms(1,2)
proof (induction cs arbitrary: st)
  case (Cons c cs)
  show ?case
  proof (cases "x \<in> set (f (t c st))")
    case True
    with assms(3) [OF this] Cons.prems(2) show ?thesis by auto
  next
    case False
    with Cons.IH [of "t c st"] Cons.prems(1) show ?thesis by auto
  qed
qed simp

text \<open>What holds of a candidate the pass removes: at the first look and at the last one before the
  removal. \<open>gate\<close> is the age gate of the candidate's volume.\<close>

definition removable :: "reclaim_args \<Rightarrow> reclaim_env \<Rightarrow> rat \<Rightarrow> nat \<Rightarrow> fpath \<Rightarrow> bool" where
  "removable a e gate i p =
     (let home = home_of e; v = de_view e i in
      (\<forall>marker \<in> set SOURCE_MARKERS. \<not> cv_exists v marker) \<and> (\<exists>marker \<in> set GENERATED_MARKERS. cv_exists v marker)
      \<and> (\<exists>ls. de_active e = Some ls \<and> (ls \<noteq> [] \<longrightarrow> \<not> names_candidate (de_command_path e) ls (path_spellings (de_command_path e) p)))
      \<and> (\<exists>m. idle_tree home p 2 (cv_tree v) m \<and> gate \<le> age_days (de_now e) m)
      \<and> no_source_below home p (cv_nested v)
      \<and> (\<exists>m. idle_tree home p RECHECK_MAXDEPTH (de_recheck_tree e i) m \<and> gate \<le> age_days (de_recheck_now e i) m)
      \<and> no_source_below home p (de_recheck_nested e i))"

lemma turn_removes:
  assumes "p \<in> set (rp_removals (candidate_turn a e pressured (i, q) st))" and "p \<notin> set (rp_removals st)"
  shows "p = q \<and> rl_fix a \<and> removable a e (min_age_for a pressured (de_device e i)) i q"
proof -
  let ?home = "home_of e" and ?gate = "min_age_for a pressured (de_device e i)"
  obtain delete reason age where cl: "classify_candidate ?home (de_command_path e) (de_now e) ?gate (de_active e) q (de_view e i)
      = (delete, reason, age)" by (cases "classify_candidate ?home (de_command_path e) (de_now e) ?gate (de_active e) q (de_view e i)")
  note turn = assms(1) [unfolded candidate_turn_def Let_def prod.case cl keeps_def deletes_def]
  have del: "delete" "rl_fix a" using turn assms(2) by (auto split: if_splits)
  obtain m where m: "newest_mtime ?home q RECHECK_MAXDEPTH (de_recheck_tree e i) = Some m"
    using turn assms(2) del by (cases "newest_mtime ?home q RECHECK_MAXDEPTH (de_recheck_tree e i)") auto
  have old: "?gate \<le> of_int (de_recheck_now e i - m) / DAY"
    using turn assms(2) del m by (auto split: if_splits)
  then have age: "?gate \<le> age_days (de_recheck_now e i) m" by (simp add: age_days_def)
  obtain nested readable where ns: "nested_source_marker ?home q (de_recheck_nested e i) = (nested, readable)" by fastforce
  have "readable" "nested = None" "p = q"
    using turn assms(2) del m old by (auto simp: ns not_le split: if_splits option.splits)
  then have last: "no_source_below ?home q (de_recheck_nested e i)" using ns by (simp flip: nested_source_marker_clear)
  note first = classify_deletes [of ?home "de_command_path e" "de_now e" ?gate "de_active e" q "de_view e i", unfolded cl fst_conv, OF del(1)]
  show ?thesis
    unfolding removable_def Let_def using first newest_mtime_bound [OF m] age last del(2) \<open>p = q\<close> by blast
qed

lemma run_cases:
  assumes "reclaim_run a e = Some (rc, Some rep)"
  obtains roots where "parse_roots e (rl_roots a) = Some roots" "\<forall>r \<in> set roots. \<not> unusable_root e r"
    "rep = reclaim_pass a e roots" "rc = reclaim_rc a e rep" "0 < rl_min_age_days a" "0 < rl_pressure_min_age_days a"
    "1 \<le> rl_maxdepth a"
  using assms by (auto simp: reclaim_run_def Let_def list_ex_iff split: if_splits option.splits)

lemma report_others:
  assumes "reclaim_run a e = Some (rc, Some rep)"
  shows "rr_others rep = de_others e"
  using assms by (rule run_cases) (simp add: reclaim_pass_def Let_def)

lemma pass_removes:
  assumes "p \<in> set (rp_removals (rr_pass (reclaim_pass a e roots)))"
  shows "\<exists>i. p \<in> set (find_candidates (home_of e) (de_tree e) roots (nat (rl_maxdepth a))) \<and> rl_fix a
    \<and> removable a e (min_age_for a (pressured_devices a (volumes_free_bytes (de_probe e False ScanVolumes) roots)) (de_device e i)) i p"
proof -
  let ?pressured = "pressured_devices a (volumes_free_bytes (de_probe e False ScanVolumes) roots)"
  let ?cs = "List.enumerate 1 (find_candidates (home_of e) (de_tree e) roots (nat (rl_maxdepth a)))"
  have "p \<in> set (rp_removals (fold (candidate_turn a e ?pressured) ?cs
      \<lparr>rp_deleted = [], rp_kept = [], rp_reclaimed = 0, rp_removals = []\<rparr>))"
    using assms by (simp add: reclaim_pass_def Let_def)
  then have "\<exists>c \<in> set ?cs. p = snd c \<and> rl_fix a \<and> removable a e (min_age_for a ?pressured (de_device e (fst c))) (fst c) (snd c)"
    by (rule enumerate_fold_induct) (use turn_removes in auto)
  then obtain i where "(i, p) \<in> set ?cs" "rl_fix a" "removable a e (min_age_for a ?pressured (de_device e i)) i p" by auto
  then show ?thesis by (auto simp: enumerate_eq_zip dest: set_zip_rightD)
qed

lemma inside_iff: "inside dir p = (\<exists>zs. p = dir @ zs)"
proof
  assume "inside dir p"
  then have "p = dir @ drop (length dir) p" unfolding inside_def by (metis append_take_drop_id)
  then show "\<exists>zs. p = dir @ zs" ..
qed (auto simp: inside_def)

lemma inside_apart:
  assumes "\<not> inside lib src" and "\<not> inside src lib"
  shows "\<not> inside lib (src @ ns) \<and> \<not> inside (src @ ns) lib"
  using assms by (auto simp: inside_iff append_eq_append_conv2)

lemma fold_min_le: "fold min xs x \<le> (x::int) \<and> (\<forall>y \<in> set xs. fold min xs x \<le> y)"
proof (induction xs arbitrary: x)
  case (Cons a xs)
  from Cons.IH [of "min a x"] show ?case by simp
qed simp

lemma tightest_bound:
  assumes "tightest_free_bytes vs = Some free"
  shows "vs \<noteq> [] \<and> (\<forall>v \<in> set vs. \<exists>f. vo_free v = Some f \<and> free \<le> f)"
proof -
  have known: "vo_free v \<noteq> None" if "v \<in> set vs" for v
    using assms that by (auto simp: tightest_free_bytes_def list_ex_iff split: if_splits)
  obtain x xs where xs: "List.map_filter vo_free vs = x # xs" "free = fold min xs x"
    using assms by (auto simp: tightest_free_bytes_def split: if_splits list.splits)
  have "vs \<noteq> []" using xs(1) by auto
  moreover have "free \<le> f" if "v \<in> set vs" "vo_free v = Some f" for v f
  proof -
    have "f \<in> set (List.map_filter vo_free vs)" using that unfolding set_map_filter by blast
    then show ?thesis using fold_min_le [of xs x] xs by auto
  qed
  ultimately show ?thesis using known by blast
qed

text \<open>C5: of its own account the disk janitor removes idle build trees and nothing else. Whatever a pass
  removes and none of the four other reapers it calls removed, the pass runs with \<open>--fix\<close>, the path is a
  build directory below a usable scan root and not inside another build directory, the tree carried a
  generator's marker and no source marker, no live build named it, and both at the first look and at
  the last look before the removal every time in it was at least the age gate ago, no source checkout
  was found a few levels below it and nothing was unreadable. The gate is positive, and shorter than
  \<open>--min-age-days\<close> only on a volume under pressure. What \<open>pulp_reapers\<close>, \<open>tmp_checkouts\<close>, \<open>scratch_dirs\<close>
  and \<open>gate_ccache_trim\<close> remove in the same pass is not modelled.\<close>

theorem reclaim_removes_only_idle_build_trees:
  assumes "reclaim_run a e = Some (rc, Some rep)" and "p \<in> set (removed_in_pass rep)" and "p \<notin> set (removed_by_others rep)"
  shows "rl_fix a \<and> (\<exists>roots src ns name. parse_roots e (rl_roots a) = Some roots \<and> src \<in> set roots \<and> \<not> unusable_root e src
      \<and> p = src @ ns @ [name] \<and> is_build_dir_name name \<and> list_all (\<lambda>n. \<not> is_build_dir_name n) ns
      \<and> (\<exists>i gate. removable a e gate i p \<and> 0 < gate \<and> (gate = rl_min_age_days a
           \<or> (\<exists>d. de_device e i = Some d \<and> d \<in> set (pressured_devices a (volumes_free_bytes (de_probe e False ScanVolumes) roots))
                \<and> gate = min (rl_min_age_days a) (rl_pressure_min_age_days a)))))"
proof -
  have mem: "p \<in> set (rp_removals (rr_pass rep))" using assms(2,3) by (simp add: removed_in_pass_def)
  obtain roots where r: "parse_roots e (rl_roots a) = Some roots" "\<forall>r \<in> set roots. \<not> unusable_root e r"
    "rep = reclaim_pass a e roots" "rc = reclaim_rc a e rep" "0 < rl_min_age_days a" "0 < rl_pressure_min_age_days a"
    "1 \<le> rl_maxdepth a"
    using assms(1) by (rule run_cases)
  let ?pressured = "pressured_devices a (volumes_free_bytes (de_probe e False ScanVolumes) roots)"
  obtain i where i: "p \<in> set (find_candidates (home_of e) (de_tree e) roots (nat (rl_maxdepth a)))" "rl_fix a"
    "removable a e (min_age_for a ?pressured (de_device e i)) i p"
    using pass_removes [OF mem [unfolded r(3)]] by blast
  obtain src ns name where shape: "src \<in> set roots" "p = src @ ns @ [name]" "is_build_dir_name name"
    "list_all (\<lambda>n. \<not> is_build_dir_name n) ns" using candidate_shape [OF i(1)] by blast
  have gate: "0 < min_age_for a ?pressured (de_device e i) \<and> (min_age_for a ?pressured (de_device e i) = rl_min_age_days a
      \<or> (\<exists>d. de_device e i = Some d \<and> d \<in> set ?pressured
           \<and> min_age_for a ?pressured (de_device e i) = min (rl_min_age_days a) (rl_pressure_min_age_days a)))"
    using r(5,6) by (auto simp: min_age_for_def split: option.splits)
  have usable: "\<not> unusable_root e src" using r(2) shape(1) by blast
  have inner: "\<exists>i gate. removable a e gate i p \<and> 0 < gate \<and> (gate = rl_min_age_days a
      \<or> (\<exists>d. de_device e i = Some d \<and> d \<in> set ?pressured \<and> gate = min (rl_min_age_days a) (rl_pressure_min_age_days a)))"
    by (rule exI [of _ i], rule exI [of _ "min_age_for a ?pressured (de_device e i)"], rule conjI [OF i(3) gate])
  show ?thesis
    by (rule conjI [OF i(2)], rule exI [of _ roots], rule exI [of _ src], rule exI [of _ ns], rule exI [of _ name],
        intro conjI r(1) shape usable inner)
qed

text \<open>no build tree the janitor removes is the home's Library, lies in it or contains it, as long as the scan
  roots are resolved paths.\<close>

theorem library_never_reclaimed:
  assumes "reclaim_run a e = Some (rc, Some rep)" and "p \<in> set (rp_removals (rr_pass rep))"
    and "\<And>roots r. parse_roots e (rl_roots a) = Some roots \<Longrightarrow> r \<in> set roots \<Longrightarrow> de_realpath e r = r"
  shows "\<not> inside (library_of e) p \<and> \<not> inside p (library_of e)"
proof -
  obtain roots where r: "parse_roots e (rl_roots a) = Some roots" "\<forall>r \<in> set roots. \<not> unusable_root e r"
    "rep = reclaim_pass a e roots" "rc = reclaim_rc a e rep" "0 < rl_min_age_days a" "0 < rl_pressure_min_age_days a"
    "1 \<le> rl_maxdepth a" using assms(1) by (rule run_cases)
  obtain src ns name where shape: "src \<in> set roots" "p = src @ ns @ [name]"
    using pass_removes [OF assms(2) [unfolded r(3)]] candidate_shape by metis
  have "\<not> refused_root e src" using r(2) shape(1) by (simp add: unusable_root_def)
  then have "\<not> inside (library_of e) src" "\<not> inside src (library_of e) \<or> src = library_of e"
    using assms(3) [OF r(1) shape(1)] by (auto simp: refused_root_def Let_def)
  then have apart: "\<not> inside (library_of e) src" "\<not> inside src (library_of e)" by (auto simp: inside_def)
  then show ?thesis using inside_apart [OF apart, of "ns @ [name]"] shape(2) by simp
qed

lemma blind_turn_keeps:
  assumes "de_active e = None"
  shows "rp_deleted (candidate_turn a e pressured c st) = rp_deleted st"
    and "rp_reclaimed (candidate_turn a e pressured c st) = rp_reclaimed st"
    and "rp_removals (candidate_turn a e pressured c st) = rp_removals st"
proof -
  obtain i p where c: "c = (i, p)" by fastforce
  have "\<not> fst (classify_candidate (home_of e) (de_command_path e) (de_now e) (min_age_for a pressured (de_device e i))
      (de_active e) p (de_view e i))"
    using classify_deletes [of "home_of e" "de_command_path e" "de_now e" "min_age_for a pressured (de_device e i)" "de_active e" p "de_view e i"]
      assms by auto
  then show "rp_deleted (candidate_turn a e pressured c st) = rp_deleted st"
    "rp_reclaimed (candidate_turn a e pressured c st) = rp_reclaimed st"
    "rp_removals (candidate_turn a e pressured c st) = rp_removals st"
    by (auto simp: candidate_turn_def Let_def c keeps_def split: prod.splits)
qed

text \<open>without a process table the janitor removes no build tree. When the live builds could not be
  read the pass exits with the code of an unknown, has counted no tree as removed and no byte as
  reclaimed, and everything it removed was removed by the other reapers it calls, which do not ask for
  the process table.\<close>

theorem unread_processes_delete_nothing:
  assumes "reclaim_run a e = Some (rc, Some rep)" and "de_active e = None"
  shows "rc = 4 \<and> removed_in_pass rep = removed_by_others rep
    \<and> rp_deleted (rr_pass rep) = [] \<and> rp_reclaimed (rr_pass rep) = 0"
proof -
  obtain roots where "parse_roots e (rl_roots a) = Some roots" "\<forall>r \<in> set roots. \<not> unusable_root e r"
    and r: "rep = reclaim_pass a e roots" "rc = reclaim_rc a e rep" and "0 < rl_min_age_days a" "0 < rl_pressure_min_age_days a"
    "1 \<le> rl_maxdepth a" using assms(1) by (rule run_cases)
  have kept: "rp_deleted (fold (candidate_turn a e ps) cs st) = rp_deleted st
      \<and> rp_reclaimed (fold (candidate_turn a e ps) cs st) = rp_reclaimed st
      \<and> rp_removals (fold (candidate_turn a e ps) cs st) = rp_removals st" for ps cs st
    by (induction cs arbitrary: st) (simp_all add: blind_turn_keeps [OF assms(2)])
  then show ?thesis
    by (simp add: r reclaim_rc_def removed_in_pass_def Let_def assms(2)) (simp add: reclaim_pass_def Let_def)
qed

lemma boot_floor_holds:
  assumes "B = boot_volume_report v boot_floor ds lease_floor" and "\<not> (bo_judged_by B = OwnFloor \<and> bo_free_after B = None)"
    and "\<not> bo_below_floor B" and "boot_floor > 0"
  shows "bo_judged_by B = LeaseFloor \<or> (\<exists>free. bo_free_after B = Some free \<and> boot_floor * GIB \<le> of_int free)"
  using assms(2-) unfolding assms(1) boot_volume_report_def Let_def by (cases "vo_free v") (auto split: if_splits)

text \<open>C23: exit code zero means that every floor was measured and holds. The process table was read; with a
  lease floor, every volume it judges has a known free figure of at least the floor; and with a boot
  floor, the boot volume's free figure is known and at least its floor, unless the lease floor has
  judged the same device.\<close>

theorem clean_exit_means_floors_hold:
  assumes "reclaim_run a e = Some (0, Some rep)"
  shows "de_active e \<noteq> None
    \<and> (rl_fail_below_gb a > 0 \<longrightarrow> rr_floor_after rep \<noteq> []
         \<and> (\<forall>v \<in> set (rr_floor_after rep). \<exists>free. vo_free v = Some free \<and> rl_fail_below_gb a * GIB \<le> of_int free))
    \<and> (rl_boot_floor_gb a > 0 \<longrightarrow> bo_judged_by (rr_boot rep) = LeaseFloor
         \<or> (\<exists>free. bo_free_after (rr_boot rep) = Some free \<and> rl_boot_floor_gb a * GIB \<le> of_int free))"
proof -
  obtain roots where "parse_roots e (rl_roots a) = Some roots" "\<forall>r \<in> set roots. \<not> unusable_root e r"
    and r: "rep = reclaim_pass a e roots" "0 = reclaim_rc a e rep" and "0 < rl_min_age_days a" "0 < rl_pressure_min_age_days a"
    "1 \<le> rl_maxdepth a" using assms by (rule run_cases)
  note rc = r(2) [symmetric, unfolded reclaim_rc_def Let_def]
  have active: "de_active e \<noteq> None" using rc by (simp split: if_splits)
  have floor: "rr_floor_after rep \<noteq> []
      \<and> (\<forall>v \<in> set (rr_floor_after rep). \<exists>free. vo_free v = Some free \<and> rl_fail_below_gb a * GIB \<le> of_int free)"
    if on: "rl_fail_below_gb a > 0"
  proof -
    obtain free where free: "tightest_free_bytes (rr_floor_after rep) = Some free" "rl_fail_below_gb a * GIB \<le> of_int free"
      using rc on by (cases "tightest_free_bytes (rr_floor_after rep)") (auto split: if_splits)
    show ?thesis using tightest_bound [OF free(1)] free by (auto simp: tightest_free_bytes_def intro: order_trans)
  qed
  have own: "\<not> (bo_judged_by (rr_boot rep) = OwnFloor \<and> bo_free_after (rr_boot rep) = None)" "\<not> bo_below_floor (rr_boot rep)"
    using rc by (simp_all split: if_splits)
  obtain v ds where "rr_boot rep = boot_volume_report v (rl_boot_floor_gb a) ds (rl_fail_below_gb a)"
    unfolding r(1) reclaim_pass_def Let_def reclaim_report.simps by blast
  note boot = boot_floor_holds [OF this own]
  show ?thesis using active floor boot by blast
qed

subsection \<open>A host with one idle build tree\<close>

definition idle_build :: node where
  "idle_build = Folder (Inr 10) (Inr [(''CMakeCache.txt'', Inr 10, Leaf), (''_deps'', Inr 9, Folder (Inr 9) (Inr []))])"

definition code_tree :: node where
  "code_tree = Folder (Inr 5) (Inr [(''pulp'', Inr 5, Folder (Inr 5) (Inr [(''build'', Inr 10, idle_build), (''src'', Inr 6, Folder (Inr 6) (Inr []))]))])"

definition disk_args :: reclaim_args where
  "disk_args = \<lparr>rl_roots = ''/w/Code'', rl_maxdepth = 5, rl_min_age_days = 30, rl_pressure_free_gb = 200, rl_pressure_used_percent = 0,
     rl_pressure_min_age_days = 7, rl_fail_below_gb = 20, rl_lease_path = ''/w'', rl_boot_volume = [], rl_boot_floor_gb = 30, rl_fix = True\<rparr>"

definition disk_env :: "string option \<Rightarrow> reclaim_env" where
  "disk_env active = \<lparr>de_paths = \<lparr>pe_home = ''/h'', pe_cwd = ''/'', pe_user_home = Map.empty\<rparr>, de_resolve = (\<lambda>p. Some (path_parts p)),
     de_realpath = (\<lambda>p. p), de_is_dir = (\<lambda>_. True), de_reclaim_table = None, de_root_is_dir = (\<lambda>_. Some True),
     de_root_access = (\<lambda>_. Some True), de_tart_home = [], de_profile_tart_home = PNone, de_boot_is_dir = Some True,
     de_probe = (\<lambda>later m p. \<lparr>pb_device = Some (if m = BootVolume then 1 else 2), pb_free = Some 300000000000, pb_usage = None\<rparr>),
     de_now = 3456000000000, de_active = active, de_command_path = (\<lambda>p. Some p), de_tree = (\<lambda>_. code_tree), de_device = (\<lambda>_. Some 2),
     de_view = (\<lambda>_. \<lparr>cv_tree = idle_build, cv_exists = (\<lambda>m. m = ''CMakeCache.txt''), cv_nested = idle_build\<rparr>), de_size = (\<lambda>_. 4096),
     de_recheck_now = (\<lambda>_. 3456000000000), de_recheck_tree = (\<lambda>_. idle_build), de_recheck_nested = (\<lambda>_. idle_build),
     de_rmtree = (\<lambda>_. True), de_others = \<lparr>or_pulp_runs = False, or_pulp_removed = [], or_tmp_removed = [],
       or_scratch_removed = [], or_ccache_removed = []\<rparr>\<rparr>"

lemma disk_pass:
  "map_option (map_prod id (map_option (\<lambda>rep. rp_removals (rr_pass rep)))) (reclaim_run disk_args (disk_env (Some ''7 ninja -C /w/other'')))
     = Some (0, Some [[''w'', ''Code'', ''pulp'', ''build'']])"
  by code_simp

lemma disk_blind:
  "map_option (map_prod id (map_option (\<lambda>rep. rp_removals (rr_pass rep)))) (reclaim_run disk_args (disk_env None)) = Some (4, Some [])"
  by code_simp

lemma disk_report:
  obtains rep where "reclaim_run disk_args (disk_env (Some ''7 ninja -C /w/other'')) = Some (0, Some rep)"
    "rp_removals (rr_pass rep) = [[''w'', ''Code'', ''pulp'', ''build'']]"
proof -
  let ?r = "reclaim_run disk_args (disk_env (Some ''7 ninja -C /w/other''))"
  obtain rc rep where "?r = Some (rc, Some rep)" "rc = 0" "rp_removals (rr_pass rep) = [[''w'', ''Code'', ''pulp'', ''build'']]"
    using disk_pass by (cases ?r) (auto simp: map_prod_def split: prod.splits)
  then show ?thesis using that by simp
qed

lemma disk_roots: "parse_roots (disk_env active) (rl_roots disk_args) = Some roots \<Longrightarrow> r \<in> set roots \<Longrightarrow> de_realpath (disk_env active) r = r"
  by (simp add: disk_env_def)

theorem reclaim_removes_only_idle_build_trees_witness:
  "\<exists>rep. reclaim_run disk_args (disk_env (Some ''7 ninja -C /w/other'')) = Some (0, Some rep)
     \<and> (\<exists>i gate. removable disk_args (disk_env (Some ''7 ninja -C /w/other'')) gate i [''w'', ''Code'', ''pulp'', ''build''] \<and> 0 < gate)"
proof -
  obtain rep where rep: "reclaim_run disk_args (disk_env (Some ''7 ninja -C /w/other'')) = Some (0, Some rep)"
    "rp_removals (rr_pass rep) = [[''w'', ''Code'', ''pulp'', ''build'']]" by (rule disk_report)
  have "rr_others rep = de_others (disk_env (Some ''7 ninja -C /w/other''))"
    using rep(1) by (rule report_others)
  then have others: "removed_by_others rep = []" by (simp add: removed_by_others_def disk_env_def)
  then have mem: "[''w'', ''Code'', ''pulp'', ''build''] \<in> set (removed_in_pass rep)"
    "[''w'', ''Code'', ''pulp'', ''build''] \<notin> set (removed_by_others rep)" by (simp_all add: removed_in_pass_def rep(2))
  from reclaim_removes_only_idle_build_trees [OF rep(1) mem] rep(1) show ?thesis by blast
qed

theorem library_never_reclaimed_witness:
  "\<not> inside [''h'', ''Library''] [''w'', ''Code'', ''pulp'', ''build'']"
proof -
  let ?e = "disk_env (Some ''7 ninja -C /w/other'')"
  obtain rep where rep: "reclaim_run disk_args ?e = Some (0, Some rep)"
    "rp_removals (rr_pass rep) = [[''w'', ''Code'', ''pulp'', ''build'']]" by (rule disk_report)
  have mem: "[''w'', ''Code'', ''pulp'', ''build''] \<in> set (rp_removals (rr_pass rep))" by (simp add: rep(2))
  have "library_of ?e = [''h'', ''Library'']" by code_simp
  with library_never_reclaimed [OF rep(1) mem disk_roots] show ?thesis by simp
qed

theorem unread_processes_delete_nothing_witness:
  "\<exists>rep. reclaim_run disk_args (disk_env None) = Some (4, Some rep) \<and> rp_deleted (rr_pass rep) = []
     \<and> removed_in_pass rep = removed_by_others rep"
proof -
  let ?r = "reclaim_run disk_args (disk_env None)"
  obtain rc rep where run: "?r = Some (rc, Some rep)"
    using disk_blind by (cases ?r) (auto simp: map_prod_def split: prod.splits)
  have "de_active (disk_env None) = None" by (simp add: disk_env_def)
  from unread_processes_delete_nothing [OF run this] run show ?thesis by simp
qed

theorem clean_exit_means_floors_hold_witness:
  "\<exists>rep. reclaim_run disk_args (disk_env (Some ''7 ninja -C /w/other'')) = Some (0, Some rep) \<and> rr_floor_after rep \<noteq> []
     \<and> (\<forall>v \<in> set (rr_floor_after rep). vo_free v \<noteq> None)"
proof -
  obtain rep where rep: "reclaim_run disk_args (disk_env (Some ''7 ninja -C /w/other'')) = Some (0, Some rep)" by (rule disk_report)
  have "rl_fail_below_gb disk_args > 0" by (simp add: disk_args_def)
  with clean_exit_means_floors_hold [OF rep] rep show ?thesis by fastforce
qed

end
