(* ===== verification/StewardScheduler.thy ===== *)
theory StewardScheduler
  imports RunnerCensus
begin

section \<open>The steward scheduler\<close>

text \<open>
  \<open>scripts/shipyard_steward_scheduler.py\<close>: one tick reads the plan of every repository and, in live
  mode, writes the intent and applies it. A tick is the list of its effects in the order the code has
  them, so a crash or a signal is a cut of that list. What a command answered, the trusted
  configuration and the checks of protected paths are the tick's environment. JSON values are
  modelled without floating point numbers. The log, the texts of the reports and the byte loop that
  collects a command's output are not modelled; its outcome is.
\<close>

subsection \<open>JSON\<close>

datatype json = JAtom pyval | JList "json list" | JObject "(string \<times> json) list"

fun jget :: "json \<Rightarrow> string \<Rightarrow> json" where
  "jget (JObject kvs) k = (case map_of (rev kvs) k of Some v \<Rightarrow> v | None \<Rightarrow> JAtom PNone)"
| "jget _ k = JAtom PNone"

fun jhas :: "json \<Rightarrow> string \<Rightarrow> bool" where
  "jhas (JObject kvs) k = (k \<in> set (map fst kvs))"
| "jhas _ k = False"

fun is_object :: "json \<Rightarrow> bool" where
  "is_object (JObject kvs) = True"
| "is_object _ = False"

fun jtruthy :: "json \<Rightarrow> bool" where
  "jtruthy (JAtom v) = truthy v"
| "jtruthy (JList xs) = (xs \<noteq> [])"
| "jtruthy (JObject kvs) = (kvs \<noteq> [])"

definition jeq_int :: "json \<Rightarrow> int \<Rightarrow> bool" where
  "jeq_int v n = (case v of JAtom a \<Rightarrow> py_eq a (PInt n) | _ \<Rightarrow> False)"

definition jstr :: "string \<Rightarrow> json" where
  "jstr s = JAtom (PStr s)"

subsection \<open>The trusted configuration\<close>

datatype sched_mode = Disabled | PlanMode | Live

definition mode_of :: "json \<Rightarrow> sched_mode option" where
  "mode_of v = (if v = jstr ''disabled'' then Some Disabled else if v = jstr ''plan'' then Some PlanMode
     else if v = jstr ''live'' then Some Live else None)"

definition LIVE_CLASSES :: "string list" where
  "LIVE_CLASSES = [''redispatch'', ''rearm'']"

definition AMBIENT_TOKENS :: "string list" where
  "AMBIENT_TOKENS = [''GH_TOKEN'', ''GITHUB_TOKEN'']"

text \<open>\<open>REPO_PATTERN\<close>.\<close>

definition owner_char :: "char \<Rightarrow> bool" where
  "owner_char c = (is_alnum c \<or> c = CHR ''-'')"

definition repo_char :: "char \<Rightarrow> bool" where
  "repo_char c = (is_alnum c \<or> c \<in> set ''._-'')"

definition canonical_repo :: "string \<Rightarrow> bool" where
  "canonical_repo r =
     (let who = takeWhile (\<lambda>c. c \<noteq> CHR ''/'') r; name = drop (Suc (length who)) r
      in length who < length r \<and> who \<noteq> [] \<and> is_alnum (hd who) \<and> list_all owner_char who \<and> length who \<le> 39
         \<and> name \<noteq> [] \<and> list_all repo_char name)"

record steward_config =
  sc_mode :: sched_mode
  sc_authority :: bool
  sc_classes :: "string list"
  sc_shipyard :: string
  sc_repositories :: "(string \<times> string) list"

text \<open>The checks of the file system: the executable, and the checkout of a repository, which is held to
  the stricter rule unless the scheduler is disabled.\<close>

record path_checks =
  pc_executable :: "string \<Rightarrow> bool"
  pc_checkout :: "string \<Rightarrow> string \<Rightarrow> bool \<Rightarrow> bool"

definition config_keys :: "string list" where
  "config_keys = [''schema_version'', ''mode'', ''authority'', ''classes'', ''shipyard'', ''repositories'',
     ''carrier_timeout_seconds'', ''max_log_bytes'', ''log_generations'']"

fun jkeys :: "json \<Rightarrow> string set" where
  "jkeys (JObject kvs) = set (map fst kvs)"
| "jkeys _ = {}"

definition exact_int :: "json \<Rightarrow> int \<Rightarrow> int \<Rightarrow> bool" where
  "exact_int v lo hi = (case v of JAtom (PInt n) \<Rightarrow> lo \<le> n \<and> n \<le> hi | _ \<Rightarrow> False)"

definition class_list :: "json \<Rightarrow> string list option" where
  "class_list v = (case v of
     JList xs \<Rightarrow> if list_all (\<lambda>x. x \<in> set (map jstr LIVE_CLASSES)) xs \<and> distinct xs
       then Some (List.map_filter (\<lambda>x. case x of JAtom (PStr s) \<Rightarrow> Some s | _ \<Rightarrow> None) xs) else None
   | _ \<Rightarrow> None)"

definition repo_row :: "path_checks \<Rightarrow> bool \<Rightarrow> json \<Rightarrow> (string \<times> string) option" where
  "repo_row pc protected row =
     (if \<not> is_object row \<or> jkeys row \<noteq> {''repo'', ''checkout''} then None
      else (case jget row ''repo'' of
        JAtom (PStr r) \<Rightarrow> if \<not> canonical_repo r then None
          else (case jget row ''checkout'' of
            JAtom (PStr path) \<Rightarrow> if pc_checkout pc r path protected then Some (r, path) else None
          | _ \<Rightarrow> None)
      | _ \<Rightarrow> None))"

fun repo_rows :: "path_checks \<Rightarrow> bool \<Rightarrow> string list \<Rightarrow> json list \<Rightarrow> (string \<times> string) list option" where
  "repo_rows pc protected seen [] = Some []"
| "repo_rows pc protected seen (row # rows) = (case repo_row pc protected row of
     None \<Rightarrow> None
   | Some (r, path) \<Rightarrow> if lower r \<in> set seen then None
       else map_option ((#) (r, path)) (repo_rows pc protected (lower r # seen) rows))"

text \<open>\<open>None\<close> is a \<open>ConfigurationError\<close>.\<close>

definition load_config :: "path_checks \<Rightarrow> json \<Rightarrow> steward_config option" where
  "load_config pc v =
     (if \<not> is_object v \<or> \<not> jeq_int (jget v ''schema_version'') 2 \<or> jkeys v \<noteq> set config_keys then None
      else (case (mode_of (jget v ''mode''), jget v ''authority'', class_list (jget v ''classes''),
                  jget v ''shipyard'', jget v ''repositories'') of
        (Some mode, JAtom (PBool authority), Some classes, JAtom (PStr shipyard), JList rows) \<Rightarrow>
          if authority \<noteq> (mode = Live) \<or> (mode = Live) = (classes = [])
             \<or> \<not> startswith shipyard ''/'' \<or> \<not> pc_executable pc shipyard \<or> rows = [] \<or> length rows > 32
             \<or> \<not> exact_int (jget v ''carrier_timeout_seconds'') 1 600
             \<or> \<not> exact_int (jget v ''max_log_bytes'') 1024 (100 * 1024 * 1024)
             \<or> \<not> exact_int (jget v ''log_generations'') 1 20 then None
          else map_option (\<lambda>repos. \<lparr>sc_mode = mode, sc_authority = authority, sc_classes = classes,
                 sc_shipyard = shipyard, sc_repositories = repos\<rparr>) (repo_rows pc (mode \<noteq> Disabled) [] rows)
      | _ \<Rightarrow> None))"

subsection \<open>Commands\<close>

datatype sched_event =
    QuarantineWritten | QuarantineCleared
  | Launched "string list" bool | Ended "string list" bool | GaveUp "string list" bool
  | IntentWritten "json list" | IntentCompleted "json list"
  | LedgerWritten | StartupWritten | ReportWritten string

record outcome =
  co_launch_failed :: bool
  co_exit :: "int option"
  co_timed_out :: bool
  co_truncated :: bool
  co_drain_incomplete :: bool
  co_json :: "json option"
  co_text :: string

text \<open>The effects of \<open>bounded_capture\<close>: the fence goes up before the process exists and comes down only
  when the process has ended in time or was never started.\<close>

definition capture :: "string list \<Rightarrow> bool \<Rightarrow> outcome \<Rightarrow> sched_event list" where
  "capture argv mutates co =
     (if mutates then [QuarantineWritten] else [])
     @ (if co_launch_failed co then (if mutates then [QuarantineCleared] else [])
        else Launched argv mutates #
          (if co_timed_out co then (if mutates then [QuarantineWritten] else []) @ [GaveUp argv mutates]
           else Ended argv mutates # (if mutates then [QuarantineCleared] else [])))"

definition result_json :: "outcome \<Rightarrow> json option" where
  "result_json co = (if co_launch_failed co \<or> co_drain_incomplete co \<or> co_truncated co then None else co_json co)"

definition result_timed_out :: "outcome \<Rightarrow> bool" where
  "result_timed_out co = (\<not> co_launch_failed co \<and> co_timed_out co)"

definition result_exit :: "outcome \<Rightarrow> int option" where
  "result_exit co = (if co_launch_failed co then None else co_exit co)"

text \<open>The plans and the number of errors of a repository's envelope.\<close>

definition carrier_report :: "outcome \<Rightarrow> string \<Rightarrow> bool \<Rightarrow> (json list \<times> json list) option" where
  "carrier_report co repo apply =
     (case result_json co of None \<Rightarrow> None | Some v \<Rightarrow>
        if result_timed_out co \<or> result_exit co \<notin> {Some 0, Some 1} \<or> \<not> is_object v
           \<or> \<not> jeq_int (jget v ''schema_version'') 1 \<or> jget v ''command'' \<noteq> jstr ''runner.carrier''
           \<or> jget v ''apply'' \<noteq> JAtom (PBool apply) then None
        else (case jget v ''repos'' of
          JList [row] \<Rightarrow> (case (jget row ''repo'', jget row ''prs'', jget row ''errors'') of
            (JAtom (PStr r), JList prs, JList errors) \<Rightarrow> if lower r = lower repo then Some (prs, errors) else None
          | _ \<Rightarrow> None)
        | _ \<Rightarrow> None))"

definition intent_action :: "string \<Rightarrow> json \<Rightarrow> json" where
  "intent_action repo planned = JObject ([(''repo'', jstr repo), (''number'', jget planned ''number''),
     (''head_sha'', jget planned ''head_sha''), (''action'', jget planned ''action'')]
     @ map (\<lambda>k. (k, jget planned k)) (filter (jhas planned) [''head'', ''run_ids'']))"

definition proposes :: "json \<Rightarrow> bool" where
  "proposes planned = (is_object planned \<and> jget planned ''decision'' = jstr ''propose'')"

definition intent_actions :: "string \<Rightarrow> json list \<Rightarrow> string list \<Rightarrow> json list" where
  "intent_actions repo prs classes = map (intent_action repo)
     (filter (\<lambda>p. proposes p \<and> jget p ''action'' \<in> set (map jstr classes)) prs)"

subsection \<open>One tick\<close>

record tick_env =
  te_capability :: outcome
  te_probe :: outcome
  te_plan :: "string \<Rightarrow> outcome"
  te_health :: "string \<Rightarrow> outcome"
  te_apply :: "string \<Rightarrow> outcome"

text \<open>\<open>check_capability\<close>; \<open>None\<close> where the code reads a field of a JSON value that is no object and raises.
  The replay's output is plain text, parsed without the checks of \<open>run_bounded\<close>.\<close>

definition check_capability :: "outcome \<Rightarrow> bool option" where
  "check_capability co =
     (if result_timed_out co \<or> result_exit co \<noteq> Some 0 then Some False
      else (case co_json co of
        None \<Rightarrow> Some False
      | Some v \<Rightarrow> if is_object v then Some (jget v ''command'' = jstr ''runner.carrier'' \<and> jget v ''plans'' = JList [])
          else None))"

definition leaks_token :: "outcome \<Rightarrow> bool" where
  "leaks_token co = list_ex (\<lambda>line. CHR ''='' \<in> set line \<and> takeWhile (\<lambda>c. c \<noteq> CHR ''='') line \<in> set AMBIENT_TOKENS)
     (if co_launch_failed co then [] else split_on (CHR 0x0A) (co_text co))"

definition plan_argv :: "steward_config \<Rightarrow> string \<Rightarrow> string list" where
  "plan_argv c repo = [sc_shipyard c, ''--json'', ''runner'', ''carrier'', ''--repo'', repo]"

definition health_argv :: "steward_config \<Rightarrow> string \<Rightarrow> string list" where
  "health_argv c repo = [sc_shipyard c, ''--json'', ''base-health'', ''--repo'', repo]"

definition apply_argv :: "steward_config \<Rightarrow> string \<Rightarrow> string \<Rightarrow> string list" where
  "apply_argv c intent_path repo = plan_argv c repo @ [''--apply''] @ concat (map (\<lambda>k. [''--class'', k]) (sc_classes c))
     @ [''--intent'', intent_path]"

record planned_repo =
  pr_repo :: string
  pr_events :: "sched_event list"
  pr_valid :: bool
  pr_proposals :: nat
  pr_actions :: "json list"

definition plan_repo :: "steward_config \<Rightarrow> tick_env \<Rightarrow> string \<Rightarrow> planned_repo" where
  "plan_repo c e repo =
     (let co = te_plan e repo; envelope = carrier_report co repo False;
          mutated = (case envelope of None \<Rightarrow> False | Some (prs, _) \<Rightarrow> list_ex (\<lambda>p. is_object p \<and> jhas p ''mutation'') prs)
      in \<lparr>pr_repo = repo,
          pr_events = capture (plan_argv c repo) False co @ (if envelope = None then [] else [LedgerWritten]),
          pr_valid = (envelope \<noteq> None \<and> \<not> mutated \<and> result_exit co = Some 0),
          pr_proposals = (case envelope of None \<Rightarrow> 0 | Some (prs, _) \<Rightarrow> length (filter proposes prs)),
          pr_actions = (case envelope of None \<Rightarrow> [] | Some (prs, _) \<Rightarrow>
            if sc_mode c = Live \<and> \<not> mutated then intent_actions repo prs (sc_classes c) else [])\<rparr>)"

definition base_health_events :: "steward_config \<Rightarrow> tick_env \<Rightarrow> string \<Rightarrow> sched_event list" where
  "base_health_events c e repo =
     (let co = te_health e repo in
      capture (health_argv c repo) False co
      @ (case result_json co of None \<Rightarrow> [] | Some v \<Rightarrow>
           if \<not> result_timed_out co \<and> result_exit co \<in> {Some 0, Some 1} \<and> is_object v \<and> is_object (jget v ''advice'')
           then [LedgerWritten] else []))"

definition applied :: "json \<Rightarrow> bool" where
  "applied p = (is_object p \<and> jtruthy (jget p ''mutation'')
     \<and> (case jget p ''mutation'' of JAtom (PStr s) \<Rightarrow> \<not> startswith s ''not applied'' | _ \<Rightarrow> True))"

record apply_result =
  ar_events :: "sched_event list"
  ar_healthy :: bool
  ar_mutations :: nat
  ar_quarantined :: bool

definition apply_events :: "steward_config \<Rightarrow> tick_env \<Rightarrow> string \<Rightarrow> string \<Rightarrow> sched_event list" where
  "apply_events c e intent_path repo = capture (apply_argv c intent_path repo) True (te_apply e repo)
     @ (if carrier_report (te_apply e repo) repo True = None then [] else [LedgerWritten])"

fun apply_pending :: "steward_config \<Rightarrow> tick_env \<Rightarrow> string \<Rightarrow> string list \<Rightarrow> apply_result" where
  "apply_pending c e intent_path [] = \<lparr>ar_events = [], ar_healthy = True, ar_mutations = 0, ar_quarantined = False\<rparr>"
| "apply_pending c e intent_path (repo # repos) =
     (let co = te_apply e repo; envelope = carrier_report co repo True;
          valid = (envelope \<noteq> None \<and> result_exit co = Some 0);
          events = apply_events c e intent_path repo;
          mutations = (case envelope of None \<Rightarrow> 0 | Some (prs, _) \<Rightarrow> length (filter applied prs))
      in if result_timed_out co then \<lparr>ar_events = events, ar_healthy = valid, ar_mutations = mutations, ar_quarantined = True\<rparr>
         else let rest = apply_pending c e intent_path repos in
           \<lparr>ar_events = events @ ar_events rest, ar_healthy = valid \<and> ar_healthy rest,
            ar_mutations = mutations + ar_mutations rest, ar_quarantined = ar_quarantined rest\<rparr>)"

record tick_report =
  tr_status :: string
  tr_proposals :: nat
  tr_mutations :: nat

text \<open>\<open>scheduler\<close>: the effects, and the exit code with the report, \<open>None\<close> where it raised.\<close>

definition scheduler :: "steward_config \<Rightarrow> tick_env \<Rightarrow> string \<Rightarrow> sched_event list \<times> (int \<times> tick_report) option" where
  "scheduler c e intent_path =
     (let answer = (\<lambda>rc status proposals mutations. Some (rc, \<lparr>tr_status = status, tr_proposals = proposals, tr_mutations = mutations\<rparr>));
          repos = map fst (sc_repositories c);
          replay = capture [sc_shipyard c, ''--json'', ''runner'', ''carrier'', ''--replay'', ''/dev/null''] False (te_capability e);
          probe = capture [''/usr/bin/env''] False (te_probe e)
      in if sc_mode c = Disabled then ([], answer 0 ''disabled'' 0 0)
         else (case check_capability (te_capability e) of
           None \<Rightarrow> (replay, None)
         | Some capable \<Rightarrow>
             if \<not> capable \<or> leaks_token (te_probe e) then (replay @ probe, answer 1 ''unhealthy'' 0 0)
             else let plans = map (plan_repo c e) repos;
                      pending = filter (\<lambda>p. pr_actions p \<noteq> []) plans;
                      intent = concat (map pr_actions pending);
                      run = apply_pending c e intent_path (map pr_repo pending);
                      proposals = sum_list (map pr_proposals plans);
                      healthy = list_all pr_valid plans \<and> (pending = [] \<or> ar_healthy run);
                      reads = replay @ probe @ concat (map pr_events plans) @ concat (map (base_health_events c e) repos)
                  in if pending = [] then (reads, answer (if healthy then 0 else 1) (if healthy then ''healthy'' else ''unhealthy'') proposals 0)
                     else if ar_quarantined run
                     then (reads @ [IntentWritten intent, LedgerWritten] @ ar_events run, answer 1 ''quarantined'' proposals (ar_mutations run))
                     else (reads @ [IntentWritten intent, LedgerWritten] @ ar_events run @ [IntentCompleted intent],
                           answer (if healthy then 0 else 1) (if healthy then ''healthy'' else ''unhealthy'') proposals (ar_mutations run))))"

text \<open>\<open>main\<close> once the lock is held; \<open>None\<close> is an exception it does not catch.\<close>

definition tick :: "steward_config option \<Rightarrow> tick_env \<Rightarrow> string \<Rightarrow> bool \<Rightarrow> sched_event list \<times> int option" where
  "tick config e intent_path fenced = (case config of
     None \<Rightarrow> ([ReportWritten ''unhealthy''], Some 2)
   | Some c \<Rightarrow>
       if sc_mode c \<noteq> Disabled \<and> fenced then ([ReportWritten ''quarantined''], Some 2)
       else let (events, result) = scheduler c e intent_path in
         (case result of
            None \<Rightarrow> (StartupWritten # events, None)
          | Some (rc, report) \<Rightarrow> (StartupWritten # events
              @ (if tr_status report = ''quarantined'' then [QuarantineWritten] else []) @ [ReportWritten (tr_status report)], Some rc)))"

subsection \<open>The fence\<close>

text \<open>What the effects leave: whether the quarantine file exists, the mutating command that was launched and
  not seen to end, whether one was launched while another might still run, and the last intent.\<close>

record fence =
  fc_fenced :: bool
  fc_running :: bool
  fc_overlap :: bool
  fc_intent :: "json list option"

fun apply_event :: "sched_event \<Rightarrow> fence \<Rightarrow> fence" where
  "apply_event QuarantineWritten s = s\<lparr>fc_fenced := True\<rparr>"
| "apply_event QuarantineCleared s = s\<lparr>fc_fenced := False\<rparr>"
| "apply_event (Launched argv mutates) s =
     (if mutates then s\<lparr>fc_overlap := fc_overlap s \<or> fc_running s, fc_running := True\<rparr> else s)"
| "apply_event (Ended argv mutates) s = (if mutates then s\<lparr>fc_running := False\<rparr> else s)"
| "apply_event (IntentWritten acts) s = s\<lparr>fc_intent := Some acts\<rparr>"
| "apply_event (IntentCompleted acts) s = s\<lparr>fc_intent := None\<rparr>"
| "apply_event _ s = s"

abbreviation after :: "sched_event list \<Rightarrow> fence \<Rightarrow> fence" where
  "after evs s \<equiv> fold apply_event evs s"

definition fence_holds :: "fence \<Rightarrow> bool" where
  "fence_holds s = ((fc_running s \<longrightarrow> fc_fenced s) \<and> \<not> fc_overlap s)"

text \<open>A property holds along a list of effects when it holds after every prefix.\<close>

definition along :: "(fence \<Rightarrow> bool) \<Rightarrow> sched_event list \<Rightarrow> fence \<Rightarrow> bool" where
  "along P evs s = (\<forall>n. P (after (take n evs) s))"

lemma along_simps [simp]:
  "along P [] s = P s"
  "along P (ev # evs) s = (P s \<and> along P evs (apply_event ev s))"
proof -
  have "(\<forall>n. P (after (take n (ev # evs)) s)) = (P s \<and> (\<forall>n. P (after (take n evs) (apply_event ev s))))"
  proof (intro iffI conjI allI)
    fix n
    assume all: "\<forall>n. P (after (take n (ev # evs)) s)"
    from all [rule_format, of 0] show "P s" by simp
    from all [rule_format, of "Suc n"] show "P (after (take n evs) (apply_event ev s))" by simp
  next
    fix n
    assume "P s \<and> (\<forall>n. P (after (take n evs) (apply_event ev s)))"
    then show "P (after (take n (ev # evs)) s)" by (cases n) auto
  qed
  then show "along P (ev # evs) s = (P s \<and> along P evs (apply_event ev s))" by (simp add: along_def)
qed (simp add: along_def)

lemma along_append [simp]: "along P (xs @ ys) s = (along P xs s \<and> along P ys (after xs s))"
proof (induction xs arbitrary: s)
  case Nil
  have "along P ys s \<Longrightarrow> P s" by (cases ys) auto
  then show ?case by auto
qed simp

text \<open>Effects that touch neither the fence nor a mutating command.\<close>

definition harmless :: "sched_event \<Rightarrow> bool" where
  "harmless ev = (case ev of Launched argv mutates \<Rightarrow> \<not> mutates | Ended argv mutates \<Rightarrow> \<not> mutates
     | QuarantineWritten \<Rightarrow> False | QuarantineCleared \<Rightarrow> False | _ \<Rightarrow> True)"

lemma harmless_after:
  assumes "list_all harmless evs"
  shows "fc_fenced (after evs s) = fc_fenced s \<and> fc_running (after evs s) = fc_running s \<and> fc_overlap (after evs s) = fc_overlap s"
  using assms
proof (induction evs arbitrary: s)
  case (Cons ev evs)
  from Cons.prems Cons.IH [of "apply_event ev s"] show ?case by (cases ev) (auto simp: harmless_def)
qed simp

lemma harmless_along:
  assumes "list_all harmless evs" and "fence_holds s"
  shows "along fence_holds evs s"
proof -
  have "list_all harmless (take n evs)" for n
    using assms(1) by (simp add: list_all_iff) (meson in_set_takeD)
  from harmless_after [OF this] show ?thesis using assms(2) by (simp add: along_def fence_holds_def)
qed

lemma read_harmless [simp]: "list_all harmless (capture argv False co)"
  by (simp add: capture_def harmless_def)

lemma plan_harmless [simp]: "list_all harmless (pr_events (plan_repo c e repo))"
  by (simp add: plan_repo_def Let_def harmless_def)

lemma health_harmless [simp]: "list_all harmless (base_health_events c e repo)"
  by (simp add: base_health_events_def Let_def harmless_def split: option.split)

text \<open>A mutating command, from a state in which none runs: the fence is up whenever it runs, and when it
  was given up it stays up.\<close>

lemma capture_fenced:
  assumes "\<not> fc_running s" and "\<not> fc_overlap s"
  shows "along fence_holds (capture argv True co) s"
    and "\<not> fc_overlap (after (capture argv True co) s)"
    and "fc_running (after (capture argv True co) s) = result_timed_out co"
    and "result_timed_out co \<Longrightarrow> fc_fenced (after (capture argv True co) s)"
  using assms by (auto simp: capture_def fence_holds_def result_timed_out_def)

lemma apply_events_fenced:
  assumes "\<not> fc_running s" and "\<not> fc_overlap s"
  shows "along fence_holds (apply_events c e path repo) s"
    and "fence_holds (after (apply_events c e path repo) s)"
    and "fc_running (after (apply_events c e path repo) s) = result_timed_out (te_apply e repo)"
    and "\<not> fc_overlap (after (apply_events c e path repo) s)"
  using capture_fenced [OF assms, where argv = "apply_argv c path repo" and co = "te_apply e repo"]
  by (auto simp: apply_events_def fence_holds_def)

lemma apply_pending_fenced:
  assumes "\<not> fc_running s" and "\<not> fc_overlap s"
  shows "along fence_holds (ar_events (apply_pending c e path repos)) s
    \<and> fence_holds (after (ar_events (apply_pending c e path repos)) s)
    \<and> (\<not> ar_quarantined (apply_pending c e path repos) \<longrightarrow> \<not> fc_running (after (ar_events (apply_pending c e path repos)) s))"
  using assms
proof (induction repos arbitrary: s)
  case Nil
  then show ?case by (simp add: fence_holds_def)
next
  case (Cons repo repos)
  note evs = apply_events_fenced [OF Cons.prems, where c = c and e = e and path = path and repo = repo]
  show ?case
  proof (cases "result_timed_out (te_apply e repo)")
    case True
    with evs show ?thesis by (simp add: Let_def)
  next
    case False
    with evs Cons.IH [of "after (apply_events c e path repo) s"] show ?thesis by (simp add: Let_def)
  qed
qed

lemma list_all_concat: "list_all P (concat xss) = list_all (list_all P) xss"
  by (induction xss) auto

text \<open>The effects of a tick in three parts: reads, then at most one intent with its commands, then the end.\<close>

definition reads_of :: "steward_config \<Rightarrow> tick_env \<Rightarrow> sched_event list" where
  "reads_of c e = capture [sc_shipyard c, ''--json'', ''runner'', ''carrier'', ''--replay'', ''/dev/null''] False (te_capability e)
     @ capture [''/usr/bin/env''] False (te_probe e)
     @ concat (map (\<lambda>r. pr_events (plan_repo c e r)) (map fst (sc_repositories c)))
     @ concat (map (base_health_events c e) (map fst (sc_repositories c)))"

definition pending_of :: "steward_config \<Rightarrow> tick_env \<Rightarrow> planned_repo list" where
  "pending_of c e = filter (\<lambda>p. pr_actions p \<noteq> []) (map (plan_repo c e) (map fst (sc_repositories c)))"

lemma reads_harmless: "list_all harmless (reads_of c e)"
  by (simp add: reads_of_def) (simp add: list_all_iff, metis health_harmless list_all_iff plan_harmless)

lemma scheduler_events:
  obtains (reads) "list_all harmless (fst (scheduler c e path))"
      "\<And>rc rep. snd (scheduler c e path) = Some (rc, rep) \<Longrightarrow> tr_status rep \<noteq> ''quarantined''"
  | (applies) "sc_mode c \<noteq> Disabled" "pending_of c e \<noteq> []"
      "fst (scheduler c e path) = reads_of c e @ [IntentWritten (concat (map pr_actions (pending_of c e))), LedgerWritten]
         @ ar_events (apply_pending c e path (map pr_repo (pending_of c e)))
         @ (if ar_quarantined (apply_pending c e path (map pr_repo (pending_of c e))) then []
            else [IntentCompleted (concat (map pr_actions (pending_of c e)))])"
proof (cases "sc_mode c = Disabled \<or> check_capability (te_capability e) \<noteq> Some True \<or> leaks_token (te_probe e) \<or> pending_of c e = []")
  case True
  have "list_all harmless (fst (scheduler c e path))"
    using True reads_harmless [of c e]
    by (auto simp: scheduler_def Let_def reads_of_def pending_of_def comp_def split: option.split)
  moreover have "tr_status rep \<noteq> ''quarantined''" if "snd (scheduler c e path) = Some (rc, rep)" for rc rep
    using that True by (auto simp: scheduler_def Let_def pending_of_def comp_def split: option.splits if_splits)
  ultimately show thesis by (rule reads)
next
  case False
  then show thesis
    by (intro applies) (auto simp: scheduler_def Let_def reads_of_def pending_of_def comp_def)
qed

lemma scheduler_fenced:
  assumes "\<not> fc_running s" and "\<not> fc_overlap s"
  shows "along fence_holds (fst (scheduler c e path)) s"
proof (cases rule: scheduler_events [of c e path])
  case reads
  with assms show ?thesis by (intro harmless_along) (auto simp: fence_holds_def)
next
  case applies
  let ?acts = "concat (map pr_actions (pending_of c e))"
  let ?s = "after (reads_of c e @ [IntentWritten ?acts, LedgerWritten]) s"
  have "\<not> fc_running (after (reads_of c e) s)" "\<not> fc_overlap (after (reads_of c e) s)"
    using harmless_after [OF reads_harmless] assms by auto
  then have s: "\<not> fc_running ?s" "\<not> fc_overlap ?s" by auto
  have "along fence_holds (reads_of c e @ [IntentWritten ?acts, LedgerWritten]) s"
    using harmless_along [OF reads_harmless] harmless_after [OF reads_harmless] assms by (auto simp: fence_holds_def)
  with apply_pending_fenced [OF s] show ?thesis
    unfolding applies(3) by (simp add: fence_holds_def)
qed

text \<open>A tick that a crash may cut anywhere, on the fence the earlier ones left.\<close>

type_synonym cut_tick = "steward_config option \<times> tick_env \<times> string \<times> nat"

definition sched_step :: "cut_tick \<Rightarrow> fence \<Rightarrow> fence" where
  "sched_step = (\<lambda>(config, e, path, n) s. after (take n (fst (tick config e path (fc_fenced s)))) s)"

lemma tick_events:
  assumes "\<not> (sc_mode c \<noteq> Disabled \<and> fenced)"
  shows "\<exists>tail. fst (tick (Some c) e path fenced) = StartupWritten # fst (scheduler c e path) @ tail
    \<and> set tail \<inter> {Launched argv True |argv. True} = {} \<and> (\<forall>s. fence_holds s \<longrightarrow> along fence_holds tail s)"
proof -
  obtain events result where sch: "scheduler c e path = (events, result)" by fastforce
  show ?thesis
  proof (cases result)
    case None
    with sch assms show ?thesis by (simp add: tick_def)
  next
    case (Some r)
    obtain rc report where "r = (rc, report)" by fastforce
    with sch assms Some show ?thesis by (simp add: tick_def fence_holds_def)
  qed
qed

lemma tick_fenced:
  assumes "fence_holds s"
  shows "along fence_holds (fst (tick config e path (fc_fenced s))) s"
proof (cases config)
  case None
  then show ?thesis using assms by (simp add: tick_def fence_holds_def)
next
  case (Some c)
  show ?thesis
  proof (cases "sc_mode c \<noteq> Disabled \<and> fc_fenced s")
    case True
    then show ?thesis using assms Some by (simp add: tick_def fence_holds_def)
  next
    case False
    obtain tail where tail: "fst (tick config e path (fc_fenced s)) = StartupWritten # fst (scheduler c e path) @ tail"
      "\<And>s. fence_holds s \<Longrightarrow> along fence_holds tail s"
      using tick_events [OF False, where e = e and path = path] Some by blast
    have "along fence_holds (fst (scheduler c e path)) s"
    proof (cases "sc_mode c = Disabled")
      case True
      then show ?thesis using assms by (simp add: scheduler_def)
    next
      case False
      with \<open>\<not> (sc_mode c \<noteq> Disabled \<and> fc_fenced s)\<close> have "\<not> fc_fenced s" by simp
      with assms show ?thesis by (intro scheduler_fenced) (auto simp: fence_holds_def)
    qed
    moreover from this have "fence_holds (after (fst (scheduler c e path)) s)"
      unfolding along_def by (metis take_all order_refl)
    ultimately show ?thesis using assms tail by simp
  qed
qed

interpretation steward: machine "\<lambda>s. \<not> fc_running s \<and> \<not> fc_overlap s" "\<lambda>_ _. True" sched_step fence_holds
proof
  fix op :: cut_tick and s
  assume "fence_holds s"
  then show "fence_holds (sched_step op s)"
    using tick_fenced by (cases op) (simp add: sched_step_def along_def)
qed (simp add: fence_holds_def)

text \<open>C10: at most one mutation at a time, crashes included. Whatever ticks run one after the other, each with
  any configuration and cut off by a crash or a signal after any of its effects, no mutating command is
  ever launched while an earlier one has not been seen to end, and whenever one may still be running
  the quarantine file is there, which makes the next tick refuse.\<close>

theorem one_fenced_mutation_at_a_time:
  assumes "\<not> fc_running s" and "\<not> fc_overlap s"
  shows "\<not> fc_overlap (fold sched_step ticks s)
    \<and> (fc_running (fold sched_step ticks s) \<longrightarrow> fc_fenced (fold sched_step ticks s))"
proof -
  have "legal_run (\<lambda>_ _. True) sched_step ticks s" by (induction ticks arbitrary: s) auto
  with assms steward.run_safe [of s ticks] show ?thesis by (simp add: fence_holds_def)
qed

subsection \<open>Write-ahead\<close>

lemma split_after:
  assumes "xs @ ys = pre @ z # post" and "z \<notin> set xs"
  shows "\<exists>us. pre = xs @ us \<and> ys = us @ z # post"
  using assms by (auto simp: append_eq_append_conv2 append_eq_Cons_conv Cons_eq_append_conv)

lemma harmless_no_launch: "list_all harmless evs \<Longrightarrow> Launched argv True \<notin> set evs"
  by (auto simp: list_all_iff harmless_def)

lemma apply_pending_events:
  assumes "ev \<in> set (ar_events (apply_pending c e path repos))"
  shows "\<exists>repo \<in> set repos. ev \<in> set (apply_events c e path repo)"
  using assms by (induction repos) (auto simp: Let_def split: if_splits)

lemma apply_events_shape:
  assumes "ev \<in> set (apply_events c e path repo)"
  shows "ev \<in> {QuarantineWritten, QuarantineCleared, LedgerWritten, Launched (apply_argv c path repo) True,
    GaveUp (apply_argv c path repo) True, Ended (apply_argv c path repo) True}"
  using assms by (auto simp: apply_events_def capture_def split: if_splits)

lemma intent_kept:
  assumes "\<And>ev. ev \<in> set us \<Longrightarrow> (\<forall>acts. ev \<noteq> IntentWritten acts \<and> ev \<noteq> IntentCompleted acts)"
  shows "fc_intent (after us s) = fc_intent s"
  using assms
proof (induction us arbitrary: s)
  case (Cons ev us)
  then have "fc_intent (apply_event ev s) = fc_intent s" by (cases ev) auto
  with Cons show ?case by simp
qed simp

text \<open>An action of the intent: a plan of this tick proposes it, in a class the configuration enables.\<close>

definition planned_action :: "steward_config \<Rightarrow> tick_env \<Rightarrow> string \<Rightarrow> json \<Rightarrow> bool" where
  "planned_action c e repo act = (\<exists>prs errors planned. carrier_report (te_plan e repo) repo False = Some (prs, errors)
     \<and> planned \<in> set prs \<and> proposes planned \<and> (\<exists>k \<in> set (sc_classes c). jget planned ''action'' = jstr k)
     \<and> act = intent_action repo planned)"

lemma pending_actions:
  assumes "p \<in> set (pending_of c e)"
  shows "sc_mode c = Live \<and> pr_actions p \<noteq> [] \<and> (\<forall>act \<in> set (pr_actions p). planned_action c e (pr_repo p) act)"
proof -
  obtain repo where p: "p = plan_repo c e repo" "pr_actions p \<noteq> []" using assms by (auto simp: pending_of_def)
  have repo: "pr_repo p = repo" by (simp add: p(1) plan_repo_def Let_def)
  obtain prs errors where env: "carrier_report (te_plan e repo) repo False = Some (prs, errors)"
    using p by (cases "carrier_report (te_plan e repo) repo False") (auto simp: plan_repo_def)
  then have acts: "pr_actions p = intent_actions repo prs (sc_classes c)" "sc_mode c = Live"
    using p by (auto simp: plan_repo_def Let_def split: if_splits)
  have "planned_action c e repo act" if "act \<in> set (intent_actions repo prs (sc_classes c))" for act
    using that env by (auto simp: intent_actions_def planned_action_def)
  with acts p(2) repo show ?thesis by simp
qed

text \<open>C21: no mutation without authority and a written intent. A mutating command is launched only by a tick
  whose configuration is live, that was not fenced when it started, and after the intent on disk names
  an action of the command's repository; and every action of that intent was proposed by a plan this
  tick has read, in a class the configuration enables.\<close>

theorem mutation_is_intended:
  assumes "fst (tick (Some c) e path fenced) = pre @ Launched argv True # post"
  shows "sc_mode c = Live \<and> \<not> fenced
    \<and> (\<exists>repo acts. argv = apply_argv c path repo \<and> fc_intent (after pre s) = Some acts
         \<and> (\<exists>act \<in> set acts. planned_action c e repo act) \<and> (\<forall>act \<in> set acts. \<exists>r. planned_action c e r act))"
proof -
  have may_run: "\<not> (sc_mode c \<noteq> Disabled \<and> fenced)"
    using assms by (auto simp: tick_def Cons_eq_append_conv split: if_splits)
  obtain tail where tail: "fst (tick (Some c) e path fenced) = StartupWritten # fst (scheduler c e path) @ tail"
    "Launched argv True \<notin> set tail"
    using tick_events [OF may_run, where e = e and path = path] by blast
  have mem: "Launched argv True \<in> set (fst (scheduler c e path))"
    using assms tail by (metis Un_iff in_set_conv_decomp list.set_intros(2) set_ConsD set_append sched_event.distinct)
  show ?thesis
  proof (cases rule: scheduler_events [of c e path])
    case reads
    with mem show ?thesis using harmless_no_launch by blast
  next
    case applies
    let ?acts = "concat (map pr_actions (pending_of c e))"
    let ?run = "apply_pending c e path (map pr_repo (pending_of c e))"
    let ?head = "StartupWritten # reads_of c e @ [IntentWritten ?acts, LedgerWritten]"
    obtain rest where rest: "?head @ ar_events ?run @ rest = pre @ Launched argv True # post" "Launched argv True \<notin> set rest"
      using assms tail unfolding applies(3) by (cases "ar_quarantined ?run") auto
    have "Launched argv True \<notin> set ?head" using harmless_no_launch [OF reads_harmless] by auto
    from split_after [OF rest(1) this] obtain us where us: "pre = ?head @ us" "ar_events ?run @ rest = us @ Launched argv True # post"
      by blast
    then have run: "Launched argv True \<in> set (ar_events ?run)" "set us \<subseteq> set (ar_events ?run)"
      using rest(2) by (auto simp: append_eq_append_conv2 append_eq_Cons_conv Cons_eq_append_conv)
    obtain repo where repo: "repo \<in> set (map pr_repo (pending_of c e))" "Launched argv True \<in> set (apply_events c e path repo)"
      using apply_pending_events [OF run(1)] by blast
    then have argv: "argv = apply_argv c path repo" using apply_events_shape by blast
    have "fc_intent (after us (after ?head s)) = fc_intent (after ?head s)"
      by (rule intent_kept) (use run(2) apply_pending_events apply_events_shape in blast)
    then have intent: "fc_intent (after pre s) = Some ?acts" by (simp add: us(1))
    obtain p where p: "p \<in> set (pending_of c e)" "pr_repo p = repo" using repo(1) by auto
    note pa = pending_actions [OF p(1)]
    obtain act where act: "act \<in> set (pr_actions p)" using pa by (meson list.set_sel(1))
    then have "act \<in> set ?acts" "planned_action c e repo act" using p pa by auto
    then have "\<exists>act \<in> set ?acts. planned_action c e repo act" by blast
    moreover have "\<forall>act \<in> set ?acts. \<exists>r. planned_action c e r act" using pending_actions by fastforce
    ultimately show ?thesis using pa may_run argv intent by auto
  qed
qed

lemma class_list_live:
  assumes "class_list v = Some classes"
  shows "set classes \<subseteq> set LIVE_CLASSES"
proof
  fix k
  assume k: "k \<in> set classes"
  obtain xs where xs: "list_all (\<lambda>x. x \<in> set (map jstr LIVE_CLASSES)) xs"
    "classes = List.map_filter (\<lambda>x. case x of JAtom (PStr s) \<Rightarrow> Some s | _ \<Rightarrow> None) xs"
    using assms by (auto simp: class_list_def split: json.splits if_splits)
  obtain x where x: "x \<in> set xs" "(case x of JAtom (PStr s) \<Rightarrow> Some s | _ \<Rightarrow> None) = Some k"
    using k unfolding xs(2) set_map_filter by blast
  then obtain l where "l \<in> set LIVE_CLASSES" "x = jstr l" using xs(1) by (auto simp: list_all_iff)
  with x(2) show "k \<in> set LIVE_CLASSES" by (simp add: jstr_def)
qed

lemma repo_row_canonical: "repo_row pc protected row = Some (r, path) \<Longrightarrow> canonical_repo r"
  by (auto simp: repo_row_def split: json.splits pyval.splits if_splits)

lemma repo_rows_coherent:
  "repo_rows pc protected seen rows = Some rs \<Longrightarrow> length rs = length rows \<and> distinct (map (lower \<circ> fst) rs)
     \<and> set (map (lower \<circ> fst) rs) \<inter> set seen = {} \<and> list_all (canonical_repo \<circ> fst) rs"
proof (induction rows arbitrary: seen rs)
  case (Cons row rows)
  obtain r path where row: "repo_row pc protected row = Some (r, path)"
    using Cons.prems by (cases "repo_row pc protected row") auto
  with Cons.prems obtain ss where ss: "lower r \<notin> set seen" "repo_rows pc protected (lower r # seen) rows = Some ss" "rs = (r, path) # ss"
    by (auto split: if_splits)
  with Cons.IH [OF ss(2)] repo_row_canonical [OF row] show ?case by auto
qed simp

text \<open>C29: a configuration that loads is coherent. Live mode, authority and at least one class come together
  or not at all, the classes are among the live ones, there is at least one repository and no
  repository is named twice, whatever its case.\<close>

theorem loaded_config_coherent:
  assumes "load_config pc v = Some c"
  shows "(sc_mode c = Live) = sc_authority c \<and> (sc_mode c = Live) = (sc_classes c \<noteq> []) \<and> set (sc_classes c) \<subseteq> set LIVE_CLASSES
    \<and> sc_repositories c \<noteq> [] \<and> distinct (map (lower \<circ> fst) (sc_repositories c)) \<and> list_all (canonical_repo \<circ> fst) (sc_repositories c)"
proof -
  note load = assms [unfolded load_config_def]
  obtain mode where mode: "mode_of (jget v ''mode'') = Some mode"
    using load by (cases "mode_of (jget v ''mode'')") (auto split: if_splits)
  obtain authority where authority: "jget v ''authority'' = JAtom (PBool authority)"
    using load mode by (auto split: if_splits json.splits pyval.splits)
  obtain classes where classes: "class_list (jget v ''classes'') = Some classes"
    using load mode authority by (cases "class_list (jget v ''classes'')") (auto split: if_splits)
  obtain shipyard where shipyard: "jget v ''shipyard'' = JAtom (PStr shipyard)"
    using load mode authority classes by (auto split: if_splits json.splits pyval.splits)
  obtain rows where rows: "jget v ''repositories'' = JList rows"
    using load mode authority classes shipyard by (auto split: if_splits json.splits)
  obtain repos where repos: "repo_rows pc (mode \<noteq> Disabled) [] rows = Some repos" "rows \<noteq> []" "authority = (mode = Live)"
      "(mode = Live) = (classes \<noteq> [])"
      "c = \<lparr>sc_mode = mode, sc_authority = authority, sc_classes = classes, sc_shipyard = shipyard, sc_repositories = repos\<rparr>"
    using load by (auto simp: mode authority classes shipyard rows split: if_splits)
  note parts = classes repos(3,4,2,1,5)
  have "repos \<noteq> []" using repo_rows_coherent [OF parts(5)] parts(4) by auto
  with parts repo_rows_coherent [OF parts(5)] class_list_live [OF parts(1)] show ?thesis by simp
qed

subsection \<open>A live scheduler\<close>

definition live_json :: json where
  "live_json = JObject [(''schema_version'', JAtom (PInt 2)), (''mode'', jstr ''live''), (''authority'', JAtom (PBool True)),
     (''classes'', JList [jstr ''rearm'']), (''shipyard'', jstr ''/opt/shipyard''),
     (''repositories'', JList [JObject [(''repo'', jstr ''dan/pulp''), (''checkout'', jstr ''/c'')]]),
     (''carrier_timeout_seconds'', JAtom (PInt 60)), (''max_log_bytes'', JAtom (PInt 4096)), (''log_generations'', JAtom (PInt 3))]"

definition live_config :: steward_config where
  "live_config = \<lparr>sc_mode = Live, sc_authority = True, sc_classes = [''rearm''], sc_shipyard = ''/opt/shipyard'',
     sc_repositories = [(''dan/pulp'', ''/c'')]\<rparr>"

definition answers :: "json \<Rightarrow> bool \<Rightarrow> outcome" where
  "answers v late = \<lparr>co_launch_failed = False, co_exit = Some 0, co_timed_out = late, co_truncated = False, co_drain_incomplete = False,
     co_json = Some v, co_text = ''PATH=/bin''\<rparr>"

definition carrier_json :: "bool \<Rightarrow> json list \<Rightarrow> json" where
  "carrier_json apply prs = JObject [(''schema_version'', JAtom (PInt 1)), (''command'', jstr ''runner.carrier''), (''apply'', JAtom (PBool apply)),
     (''repos'', JList [JObject [(''repo'', jstr ''Dan/pulp''), (''prs'', JList prs), (''errors'', JList [])]])]"

definition rearm_plan :: json where
  "rearm_plan = JObject [(''decision'', jstr ''propose''), (''action'', jstr ''rearm''), (''number'', JAtom (PInt 7)), (''head_sha'', jstr ''abc'')]"

definition live_env :: "bool \<Rightarrow> tick_env" where
  "live_env late = \<lparr>te_capability = answers (JObject [(''command'', jstr ''runner.carrier''), (''plans'', JList [])]) False,
     te_probe = answers (JAtom PNone) False, te_plan = (\<lambda>_. answers (carrier_json False [rearm_plan]) False),
     te_health = (\<lambda>_. answers (JObject []) False), te_apply = (\<lambda>_. answers (carrier_json True []) late)\<rparr>"

definition idle_fence :: fence where
  "idle_fence = \<lparr>fc_fenced = False, fc_running = False, fc_overlap = False, fc_intent = None\<rparr>"

lemma late_ticks_run: "fc_running (fold sched_step [(Some live_config, live_env False, ''/i'', 9), (Some live_config, live_env True, ''/i'', 99)] idle_fence)"
  by code_simp

theorem one_fenced_mutation_at_a_time_witness:
  "fc_running (fold sched_step [(Some live_config, live_env False, ''/i'', 9), (Some live_config, live_env True, ''/i'', 99)] idle_fence)
   \<and> fc_fenced (fold sched_step [(Some live_config, live_env False, ''/i'', 9), (Some live_config, live_env True, ''/i'', 99)] idle_fence)"
proof -
  have "\<not> fc_running idle_fence" "\<not> fc_overlap idle_fence" by (simp_all add: idle_fence_def)
  from one_fenced_mutation_at_a_time [OF this] late_ticks_run show ?thesis by blast
qed

lemma live_tick_launches:
  "list_ex (\<lambda>ev. case ev of Launched argv mutates \<Rightarrow> mutates | _ \<Rightarrow> False) (fst (tick (Some live_config) (live_env False) ''/i'' False))"
  by code_simp

theorem mutation_is_intended_witness:
  "\<exists>pre argv post. fst (tick (Some live_config) (live_env False) ''/i'' False) = pre @ Launched argv True # post
     \<and> (\<exists>acts. fc_intent (after pre idle_fence) = Some acts \<and> acts \<noteq> [])"
proof -
  obtain ev where ev: "ev \<in> set (fst (tick (Some live_config) (live_env False) ''/i'' False))"
    "case ev of Launched argv mutates \<Rightarrow> mutates | _ \<Rightarrow> False"
    using live_tick_launches unfolding list_ex_iff by blast
  from ev(2) obtain argv where "ev = Launched argv True" by (cases "ev") (simp_all split: sched_event.splits)
  with ev(1) have "Launched argv True \<in> set (fst (tick (Some live_config) (live_env False) ''/i'' False))" by simp
  then obtain pre post where evs: "fst (tick (Some live_config) (live_env False) ''/i'' False) = pre @ Launched argv True # post"
    by (meson split_list)
  from mutation_is_intended [OF evs, of idle_fence] evs show ?thesis by fastforce
qed

lemma live_loads: "load_config \<lparr>pc_executable = (\<lambda>_. True), pc_checkout = (\<lambda>_ _ _. True)\<rparr> live_json = Some live_config"
  by code_simp

theorem loaded_config_coherent_witness:
  "sc_authority live_config \<and> distinct (map (lower \<circ> fst) (sc_repositories live_config))"
  using loaded_config_coherent [OF live_loads] by (simp add: live_config_def)

end
