(* ===== verification/PeerSurvey.thy ===== *)
theory PeerSurvey
  imports Complex_Main Prelude
begin

section \<open>Reading the other hosts before a self-update\<close>

text \<open>
  \<open>read_peer\<close>, \<open>peer_streaks\<close> and \<open>survey_peers\<close> of \<open>scripts/fleet_self_update.py\<close>: what a host that
  wants to update learns about every other published host, and which dark hosts it stops waiting for.
  What \<open>ssh\<close> printed is the observation, already split at its separators and with each JSON document
  parsed; the texts of the evidence are reduced to their kind. Times of the clocks are rationals,
  \<open>date +%s\<close> an integer. The result of the theory: the streak file refines the history of unreadable
  reads, and the two halves of a split fleet never both exclude a host.
\<close>

subsection \<open>Documents\<close>

text \<open>A number a document should hold: absent, an \<open>int\<close> or a \<open>float\<close>, or something else, with what
  \<open>float(...)\<close> makes of it (nothing when it raises).\<close>

datatype field = FMissing | FNum rat | FOther "rat option"

fun as_float :: "field \<Rightarrow> rat option" where
  "as_float FMissing = Some 0"
| "as_float (FNum x) = Some x"
| "as_float (FOther v) = v"

datatype 'a doc = Blank | Garbled | NonDict | Doc 'a

record update_marker =
  um_ts :: field

record peer_ticket =
  pt_since :: field
  pt_ts :: field

record marker_reply =
  mr_rc :: int
  mr_clock :: "int option"
  mr_active :: "update_marker doc"
  mr_waiting :: "peer_ticket doc"
  mr_unreadable :: "(string \<times> field) list doc"
  mr_pool_since :: "int option"
  mr_held :: "string list"

datatype pool_reply = NoJson | NoObject | PoolStatus (pr_state: pyval) (pr_participating: pyval)

record peer_obs =
  po_refused :: bool
  po_text :: string
  po_pool :: pool_reply
  po_marker :: marker_reply

datatype failure_kind = Authentication | Transport | CommandFailed

definition AUTH_TOKENS :: "string list" where
  "AUTH_TOKENS = [''permission denied'', ''publickey'', ''authentication failed'',
     ''host key verification failed'', ''no supported authentication methods'']"

definition TRANSPORT_TOKENS :: "string list" where
  "TRANSPORT_TOKENS = [''timed out'', ''timeout'', ''connection refused'', ''connection reset'',
     ''network is unreachable'', ''no route to host'', ''could not resolve hostname'', ''ssh: unreachable'']"

definition ssh_failure_kind :: "string \<Rightarrow> failure_kind" where
  "ssh_failure_kind output =
     (let text = lower output
      in if list_ex (\<lambda>token. contains token text) AUTH_TOKENS then Authentication
         else if list_ex (\<lambda>token. contains token text) TRANSPORT_TOKENS then Transport
         else CommandFailed)"

datatype peer_note = DestinationRefused | Unreachable failure_kind | NotServing | MarkerUnreadable
  | SelfUpdating rat | DrainingStale | DrainStopped | OperatorDrain | PeerOff | PeerOn

record peer_info =
  pi_busy :: bool
  pi_note :: peer_note
  pi_active_age :: "rat option"
  pi_since :: "rat option"
  pi_off :: bool
  pi_readable :: bool
  pi_clock :: "int option"
  pi_unreadable :: "(string \<times> field) list option"

subsection \<open>One peer\<close>

definition ACTIVE_MARKER_TTL :: rat where "ACTIVE_MARKER_TTL = 10800"
definition WAITING_TICKET_TTL :: rat where "WAITING_TICKET_TTL = 7200"
definition PEER_DRAIN_STALE_SECONDS :: int where "PEER_DRAIN_STALE_SECONDS = 10800"
definition PEER_DRAIN_GRACE_SECONDS :: int where "PEER_DRAIN_GRACE_SECONDS = 900"

definition dark_peer :: "peer_note \<Rightarrow> peer_info" where
  "dark_peer note = \<lparr>pi_busy = True, pi_note = note, pi_active_age = None, pi_since = None, pi_off = False,
     pi_readable = False, pi_clock = None, pi_unreadable = None\<rparr>"

definition marker_clock :: "marker_reply \<Rightarrow> int option" where
  "marker_clock m = (if mr_rc m = 0 then mr_clock m else None)"

text \<open>The place of a live ticket; the outer \<open>None\<close> is an exception.\<close>

definition ticket_since :: "int option \<Rightarrow> peer_ticket doc \<Rightarrow> rat option option" where
  "ticket_since clock d = (case (clock, d) of
     (Some c, Doc t) \<Rightarrow> (case pt_since t of
         FNum s \<Rightarrow> map_option (\<lambda>ts. if of_int c - ts < WAITING_TICKET_TTL then Some s else None) (as_float (pt_ts t))
       | _ \<Rightarrow> Some None)
   | _ \<Rightarrow> Some None)"

definition dark_report :: "int option \<Rightarrow> (string \<times> field) list doc \<Rightarrow> (string \<times> field) list option" where
  "dark_report clock d = (case (clock, d) of (Some c, Doc rows) \<Rightarrow> Some rows | _ \<Rightarrow> None)"

text \<open>The age of an update marker that is live, on the peer's clock.\<close>

definition marker_age :: "int \<Rightarrow> update_marker doc \<Rightarrow> rat option option" where
  "marker_age c d = (case d of
     Doc m \<Rightarrow> map_option (\<lambda>ts. if of_int c - ts < ACTIVE_MARKER_TTL then Some (max 0 (of_int c - ts)) else None)
                (as_float (um_ts m))
   | _ \<Rightarrow> Some None)"

definition stopped :: "marker_reply \<Rightarrow> bool" where
  "stopped m = list_ex (\<lambda>w. w \<in> set (mr_held m)) [''paused'', ''halted'']"

definition unserved_note :: "bool \<Rightarrow> bool \<Rightarrow> peer_note" where
  "unserved_note is_off serving = (if \<not> (is_off \<or> serving) then NotServing else MarkerUnreadable)"

text \<open>A peer without a live marker is judged by its pool state and the time it last changed.\<close>

definition pool_verdict :: "int \<Rightarrow> marker_reply \<Rightarrow> pyval \<Rightarrow> bool \<Rightarrow> peer_info \<Rightarrow> peer_info" where
  "pool_verdict c m state serving out =
     (let draining = (state = PStr ''draining''); is_off = (state = PStr ''off'');
          drained_for = map_option (\<lambda>since. c - since) (mr_pool_since m);
          stale = (case drained_for of None \<Rightarrow> False | Some n \<Rightarrow> n \<ge> PEER_DRAIN_STALE_SECONDS);
          operator_drain = (mr_active m = Blank
             \<and> (case drained_for of None \<Rightarrow> False | Some n \<Rightarrow> n \<ge> PEER_DRAIN_GRACE_SECONDS))
      in if draining \<and> stale then out\<lparr>pi_busy := False, pi_off := True, pi_note := DrainingStale\<rparr>
         else if draining \<and> (stopped m \<or> operator_drain) then
           out\<lparr>pi_busy := False, pi_off := True, pi_note := (if stopped m then DrainStopped else OperatorDrain)\<rparr>
         else if \<not> is_off \<and> \<not> serving then out\<lparr>pi_note := NotServing\<rparr>
         else if is_off then out\<lparr>pi_busy := False, pi_off := True, pi_note := PeerOff\<rparr>
         else out\<lparr>pi_busy := False, pi_note := PeerOn\<rparr>)"

definition read_answering :: "pyval \<Rightarrow> pyval \<Rightarrow> marker_reply \<Rightarrow> peer_info option" where
  "read_answering state participating m =
     (let clock = marker_clock m; is_off = (state = PStr ''off'');
          serving = (state = PStr ''on'' \<and> participating = PBool True)
      in case ticket_since clock (mr_waiting m) of
           None \<Rightarrow> None
         | Some since \<Rightarrow>
             (let out = (dark_peer NotServing)\<lparr>pi_readable := True, pi_clock := clock, pi_since := since,
                          pi_unreadable := dark_report clock (mr_unreadable m)\<rparr>;
                  unread = out\<lparr>pi_note := unserved_note is_off serving\<rparr>
              in case clock of
                   None \<Rightarrow> Some unread
                 | Some c \<Rightarrow>
                     (if mr_active m = Garbled then Some unread
                      else map_option (\<lambda>age. case age of
                             Some a \<Rightarrow> out\<lparr>pi_note := SelfUpdating a, pi_active_age := Some a\<rparr>
                           | None \<Rightarrow> pool_verdict c m state serving out) (marker_age c (mr_active m)))))"

definition read_peer :: "peer_obs \<Rightarrow> peer_info option" where
  "read_peer ob =
     (if po_refused ob then Some (dark_peer DestinationRefused)
      else case po_pool ob of
        NoJson \<Rightarrow> Some (dark_peer (Unreachable (ssh_failure_kind (po_text ob))))
      | NoObject \<Rightarrow> None
      | PoolStatus state participating \<Rightarrow> read_answering state participating (po_marker ob))"

lemmas read_peer_defs = read_peer_def read_answering_def pool_verdict_def unserved_note_def dark_peer_def Let_def

lemma dark_peer_simps [simp]:
  "pi_busy (dark_peer n)" "\<not> pi_readable (dark_peer n)" "\<not> pi_off (dark_peer n)"
  "pi_active_age (dark_peer n) = None" "pi_since (dark_peer n) = None" "pi_clock (dark_peer n) = None"
  by (simp_all add: dark_peer_def)

lemma pool_verdict_keeps [simp]:
  "pi_readable (pool_verdict c m s v out) = pi_readable out"
  "pi_active_age (pool_verdict c m s v out) = pi_active_age out"
  "pi_since (pool_verdict c m s v out) = pi_since out"
  "pi_clock (pool_verdict c m s v out) = pi_clock out"
  by (simp_all add: pool_verdict_def Let_def)

text \<open>A peer holds the turn as long as its marker is live, whatever its pool says.\<close>

lemma live_marker_is_busy:
  assumes "\<not> po_refused ob" and "po_pool ob = PoolStatus s v" and "marker_clock (po_marker ob) = Some c"
    and "mr_active (po_marker ob) = Doc m" and "as_float (um_ts m) = Some ts"
    and "of_int c - ts < ACTIVE_MARKER_TTL" and "read_peer ob = Some i"
  shows "pi_busy i \<and> pi_readable i \<and> pi_active_age i = Some (max 0 (of_int c - ts))"
  using assms by (auto simp: read_peer_def read_answering_def Let_def marker_age_def dark_peer_def split: option.splits)

lemma unbusy_peer_answered: "read_peer ob = Some i \<Longrightarrow> \<not> pi_busy i \<Longrightarrow> pi_readable i"
  by (auto simp: read_peer_def read_answering_def Let_def marker_age_def split: if_splits pool_reply.splits option.splits)

subsection \<open>Streaks of unreadable reads\<close>

definition PEER_UNREACHABLE_EXCLUDE_SECONDS :: rat where "PEER_UNREACHABLE_EXCLUDE_SECONDS = ACTIVE_MARKER_TTL"
definition PEER_UNREACHABLE_MIN_READS :: int where "PEER_UNREACHABLE_MIN_READS = 4"
definition PEER_UNREACHABLE_FRESH_SECONDS :: rat where "PEER_UNREACHABLE_FRESH_SECONDS = 3600"

record streak_row =
  sr_since :: field
  sr_reads :: "int option"
  sr_last :: field
  sr_excluded :: bool

record streak =
  sk_since :: rat
  sk_reads :: int
  sk_last :: rat
  sk_excluded :: bool

definition row_of_streak :: "streak \<Rightarrow> streak_row" where
  "row_of_streak s = \<lparr>sr_since = FNum (sk_since s), sr_reads = Some (sk_reads s), sr_last = FNum (sk_last s),
     sr_excluded = sk_excluded s\<rparr>"

text \<open>A row of the file counts when its \<open>since\<close> and \<open>reads\<close> are numbers; \<open>last\<close> is not read back.\<close>

fun streak_of_row :: "streak_row \<Rightarrow> streak option" where
  "streak_of_row \<lparr>sr_since = FNum s, sr_reads = Some n, sr_last = l, sr_excluded = e\<rparr> =
     Some \<lparr>sk_since = s, sk_reads = n, sk_last = (case l of FNum x \<Rightarrow> x | _ \<Rightarrow> 0), sk_excluded = e\<rparr>"
| "streak_of_row _ = None"

definition peer_streaks :: "(string \<times> streak_row) list \<Rightarrow> (string \<times> streak) list" where
  "peer_streaks file = List.map_filter (\<lambda>(peer, row). map_option (Pair peer) (streak_of_row row)) file"

definition next_streak :: "rat \<Rightarrow> streak option \<Rightarrow> streak" where
  "next_streak now was = (case was of
     None \<Rightarrow> \<lparr>sk_since = now, sk_reads = 1, sk_last = now, sk_excluded = False\<rparr>
   | Some s \<Rightarrow> \<lparr>sk_since = sk_since s, sk_reads = sk_reads s + 1, sk_last = now, sk_excluded = sk_excluded s\<rparr>)"

definition next_streaks :: "rat \<Rightarrow> (string \<times> streak) list \<Rightarrow> (string \<times> peer_info) list \<Rightarrow> (string \<times> streak) list" where
  "next_streaks now prior infos =
     map (\<lambda>(peer, info). (peer, next_streak now (map_of prior peer))) (filter (\<lambda>(peer, info). \<not> pi_readable info) infos)"

subsection \<open>The survey\<close>

datatype survey_event = PeerRejoined string | PeerExcluded string

record survey =
  sv_busy :: "peer_note list"
  sv_waiting :: "(string \<times> rat) list"
  sv_off :: "string list"
  sv_excluded :: "string list"

definition readable_peers :: "(string \<times> peer_info) list \<Rightarrow> string list" where
  "readable_peers infos = sort (map fst (filter (\<lambda>(peer, info). pi_readable info) infos))"

text \<open>Whether a peer's own report shows that it could not read \<open>dark\<close> lately, on its own clock.\<close>

definition reports_dark :: "string \<Rightarrow> peer_info \<Rightarrow> bool" where
  "reports_dark dark info =
     (case (pi_clock info, pi_unreadable info) of
        (Some clock, Some rows) \<Rightarrow> (case map_of rows dark of
           Some (FNum seen) \<Rightarrow> 0 \<le> of_int clock - seen \<and> of_int clock - seen \<le> PEER_UNREACHABLE_FRESH_SECONDS
         | _ \<Rightarrow> False)
      | _ \<Rightarrow> False)"

definition corroborated_by :: "(string \<times> peer_info) list \<Rightarrow> string \<Rightarrow> string list" where
  "corroborated_by infos dark =
     filter (\<lambda>other. case map_of infos other of Some info \<Rightarrow> reports_dark dark info | None \<Rightarrow> False) (readable_peers infos)"

definition quorum_read :: "(string \<times> peer_info) list \<Rightarrow> bool" where
  "quorum_read infos = (2 * (1 + length (readable_peers infos)) > length infos + 1)"

definition qualifies :: "rat \<Rightarrow> streak \<Rightarrow> bool" where
  "qualifies now s = (sk_reads s \<ge> PEER_UNREACHABLE_MIN_READS \<and> now - sk_since s \<ge> PEER_UNREACHABLE_EXCLUDE_SECONDS)"

definition excluded_now :: "rat \<Rightarrow> (string \<times> peer_info) list \<Rightarrow> string \<times> streak \<Rightarrow> bool" where
  "excluded_now now infos entry =
     (let readable = readable_peers infos; (peer, s) = entry;
          unanimous = (readable \<noteq> [] \<and> corroborated_by infos peer = readable)
      in qualifies now s \<and> quorum_read infos \<and> unanimous)"

definition survey_of :: "string list \<Rightarrow> (string \<times> peer_info) list \<Rightarrow> survey" where
  "survey_of excluded infos =
     (let others = filter (\<lambda>(peer, info). peer \<notin> set excluded) infos;
          gone = (\<lambda>info. \<not> pi_busy info \<and> pi_off info)
      in \<lparr>sv_busy = map (\<lambda>(peer, info). pi_note info) (filter (\<lambda>(peer, info). pi_busy info) others),
          sv_waiting = List.map_filter (\<lambda>(peer, info). map_option (Pair peer) (pi_since info))
                         (filter (\<lambda>(peer, info). \<not> gone info) others),
          sv_off = map fst (filter (\<lambda>(peer, info). gone info) others),
          sv_excluded = excluded\<rparr>)"

definition survey_infos :: "string \<Rightarrow> (string \<times> peer_obs) list \<Rightarrow> (string \<times> peer_info) list option" where
  "survey_infos me published =
     those (map (\<lambda>(peer, ob). map_option (Pair peer) (read_peer ob)) (filter (\<lambda>(peer, ob). peer \<noteq> me) published))"

text \<open>The survey, the streaks it writes and its events; both are dropped by a plan.\<close>

definition judge_infos :: "rat \<Rightarrow> (string \<times> streak) list \<Rightarrow> (string \<times> peer_info) list
    \<Rightarrow> survey \<times> (string \<times> streak) list \<times> survey_event list" where
  "judge_infos now prior infos =
     (let streaks = next_streaks now prior infos;
          dark = filter (excluded_now now infos) (sort_key fst streaks);
          excluded = map fst dark;
          was_excluded = (\<lambda>peer. case map_of prior peer of Some s \<Rightarrow> sk_excluded s | None \<Rightarrow> False);
          rejoined = filter (\<lambda>(peer, info). pi_readable info \<and> was_excluded peer) infos
      in (survey_of excluded infos,
          map (\<lambda>(peer, s). (peer, s\<lparr>sk_excluded := peer \<in> set excluded\<rparr>)) streaks,
          map (\<lambda>(peer, info). PeerRejoined peer) rejoined
          @ map (\<lambda>(peer, s). PeerExcluded peer) (filter (\<lambda>(peer, s). \<not> sk_excluded s) dark)))"

definition survey_peers :: "bool \<Rightarrow> rat \<Rightarrow> string \<Rightarrow> (string \<times> streak_row) list \<Rightarrow> (string \<times> peer_obs) list
    \<Rightarrow> (survey \<times> (string \<times> streak_row) list \<times> survey_event list) option" where
  "survey_peers rec now me file published =
     (case survey_infos me published of
        None \<Rightarrow> None
      | Some infos \<Rightarrow>
          (let (sv, streaks, events) = judge_infos now (peer_streaks file) infos
           in Some (sv, if rec then map (\<lambda>(peer, s). (peer, row_of_streak s)) streaks else file,
                    if rec then events else [])))"

subsection \<open>The streak file and the history of reads\<close>

lemma streak_of_row_of [simp]: "streak_of_row (row_of_streak s) = Some s"
  by (simp add: row_of_streak_def)

lemma peer_streaks_written: "peer_streaks (map (\<lambda>(peer, s). (peer, row_of_streak s)) streaks) = streaks"
  by (induction streaks) (auto simp: peer_streaks_def List.map_filter_def)

lemma streak_sinces: "streak_of_row r = Some s \<Longrightarrow> sr_since r = FNum (sk_since s) \<and> sr_reads r = Some (sk_reads s)"
  by (induction r rule: streak_of_row.induct) auto

text \<open>The specification: per peer, the times of the consecutive surveys, up to the last one, in which it
  was published and could not be read.\<close>

type_synonym dark_log = "string \<Rightarrow> rat list"

definition dark_in :: "string \<Rightarrow> (string \<times> peer_info) list \<Rightarrow> bool" where
  "dark_in peer infos = list_ex (\<lambda>(p, info). p = peer \<and> \<not> pi_readable info) infos"

definition log_survey :: "rat \<times> (string \<times> peer_info) list \<Rightarrow> dark_log \<Rightarrow> dark_log" where
  "log_survey op hist = (\<lambda>peer. if dark_in peer (snd op) then hist peer @ [fst op] else [])"

definition record_survey :: "rat \<times> (string \<times> peer_info) list \<Rightarrow> (string \<times> streak) list \<Rightarrow> (string \<times> streak) list" where
  "record_survey op streaks = fst (snd (judge_infos (fst op) streaks (snd op)))"

fun streak_matches :: "streak option \<Rightarrow> rat list \<Rightarrow> bool" where
  "streak_matches None ts = (ts = [])"
| "streak_matches (Some s) ts = (ts \<noteq> [] \<and> sk_since s = hd ts \<and> sk_reads s = int (length ts) \<and> sk_last s = last ts)"

definition streaks_log :: "(string \<times> streak) list \<Rightarrow> dark_log \<Rightarrow> bool" where
  "streaks_log streaks hist = (\<forall>peer. streak_matches (map_of streaks peer) (hist peer))"

lemma next_streak_matches: "streak_matches was ts \<Longrightarrow> streak_matches (Some (next_streak now was)) (ts @ [now])"
  by (cases was) (auto simp: next_streak_def)

lemma map_of_next_streaks:
  "map_of (next_streaks now prior infos) peer =
     (if dark_in peer infos then Some (next_streak now (map_of prior peer)) else None)"
  by (induction infos) (auto simp: next_streaks_def dark_in_def)

lemma map_of_flagged:
  "map_of (map (\<lambda>(p, s). (p, f p s)) xs) peer = map_option (f peer) (map_of xs peer)"
  by (induction xs) auto

lemma streak_matches_flag [simp]:
  "streak_matches (Some (s\<lparr>sk_excluded := b\<rparr>)) ts = streak_matches (Some s) ts"
  by simp

lemma record_survey_related: "streaks_log streaks hist \<Longrightarrow> streaks_log (record_survey op streaks) (log_survey op hist)"
  by (auto simp: streaks_log_def record_survey_def judge_infos_def Let_def map_of_flagged map_of_next_streaks
      log_survey_def simp del: streak_matches.simps(2) intro: next_streak_matches)

interpretation streak_simulation: simulation record_survey log_survey streaks_log
  by unfold_locales (rule record_survey_related)

lemma streaks_match_log: "streak_matches (map_of (fold record_survey ops []) peer) (fold log_survey ops (\<lambda>_. []) peer)"
  using streak_simulation.run_related [of "[]" "\<lambda>_. []" ops] by (simp add: streaks_log_def)

subsection \<open>Who may be excluded\<close>

lemma corroborated_all:
  assumes "corroborated_by infos dark = readable_peers infos" and "(other, info) \<in> set infos" and "pi_readable info"
    and "distinct (map fst infos)"
  shows "reports_dark dark info"
proof -
  have "other \<in> set (readable_peers infos)" using assms(2,3) by (force simp: readable_peers_def)
  then have "other \<in> set (corroborated_by infos dark)" using assms(1) by simp
  with assms(2,4) show ?thesis by (simp add: corroborated_by_def)
qed

lemma judged_excluded:
  assumes "judge_infos now prior infos = (sv, streaks, evs)" and "p \<in> set (sv_excluded sv)"
  shows "\<exists>s. map_of (next_streaks now prior infos) p = Some s \<and> excluded_now now infos (p, s)"
proof -
  have "p \<in> fst ` {x \<in> set (next_streaks now prior infos). excluded_now now infos x}"
    using assms by (auto simp: judge_infos_def Let_def survey_of_def)
  then obtain s where s: "(p, s) \<in> set (next_streaks now prior infos)" "excluded_now now infos (p, s)" by auto
  then have "s = next_streak now (map_of prior p)" and "dark_in p infos"
    by (auto simp: next_streaks_def dark_in_def list_ex_iff)
  with s(2) show ?thesis by (simp add: map_of_next_streaks)
qed

lemma next_streak_since: "streak_matches was ts \<Longrightarrow> sk_since (next_streak now was) = hd (ts @ [now])"
  and next_streak_reads: "streak_matches was ts \<Longrightarrow> sk_reads (next_streak now was) = int (length ts) + 1"
  by (cases was; simp add: next_streak_def)+

abbreviation streak_file :: "(string \<times> streak) list \<Rightarrow> (string \<times> streak_row) list" where
  "streak_file streaks \<equiv> map (\<lambda>(peer, s). (peer, row_of_streak s)) streaks"

lemma survey_peers_SomeD:
  assumes "survey_peers rec now me file published = Some (sv, x)"
  shows "\<exists>infos streaks evs. survey_infos me published = Some infos
           \<and> judge_infos now (peer_streaks file) infos = (sv, streaks, evs)"
  using assms by (auto simp: survey_peers_def Let_def split: option.splits prod.splits)

lemma those_pairs:
  "those (map (\<lambda>(k, x). map_option (Pair k) (f x)) xs) = Some ys
     \<Longrightarrow> map fst ys = map fst xs \<and> (\<forall>(k, y) \<in> set ys. \<exists>x. (k, x) \<in> set xs \<and> f x = Some y)"
  by (induction xs arbitrary: ys) (fastforce split: option.splits)+

lemma survey_infos_hosts:
  assumes "survey_infos me published = Some infos"
  shows "map fst infos = filter (\<lambda>p. p \<noteq> me) (map fst published)"
    and "(p, i) \<in> set infos \<Longrightarrow> \<exists>ob. (p, ob) \<in> set published \<and> read_peer ob = Some i"
proof -
  note those_pairs [OF assms [unfolded survey_infos_def]]
  then show "map fst infos = filter (\<lambda>p. p \<noteq> me) (map fst published)"
    by (simp add: filter_map comp_def case_prod_unfold)
  show "(p, i) \<in> set infos \<Longrightarrow> \<exists>ob. (p, ob) \<in> set published \<and> read_peer ob = Some i"
    using \<open>_ \<and> _\<close> by fastforce
qed

text \<open>C15: a peer stops holding the turn only after hours of darkness that every reachable host confirms.
  Whatever surveys the host recorded before, an excluded peer could not be read in this survey nor in the
  ones just before it, at least four in a row over at least three hours; more than half of the fleet
  answered, and every peer that answered reported, within the last hour of its own clock, that it could
  not read the excluded one either.\<close>

theorem excluded_peer_dark_for_hours:
  assumes "survey_peers rec now me (streak_file (fold record_survey ops [])) published = Some (sv, x)"
    and "distinct (map fst published)" and "p \<in> set (sv_excluded sv)" and "survey_infos me published = Some infos"
  shows "dark_in p infos \<and> 3 \<le> length (fold log_survey ops (\<lambda>_. []) p)
     \<and> 10800 \<le> now - hd (fold log_survey ops (\<lambda>_. []) p)
     \<and> length infos + 1 < 2 * (1 + length (readable_peers infos)) \<and> readable_peers infos \<noteq> []
     \<and> (\<forall>(other, info) \<in> set infos. pi_readable info \<longrightarrow> reports_dark p info)"
proof -
  let ?was = "map_of (fold record_survey ops []) p" and ?ts = "fold log_survey ops (\<lambda>_. []) p"
  obtain streaks evs where "judge_infos now (fold record_survey ops []) infos = (sv, streaks, evs)"
    using survey_peers_SomeD [OF assms(1)] assms(4) by (auto simp: peer_streaks_written)
  from judged_excluded [OF this assms(3)] have dark: "dark_in p infos"
    and ex: "excluded_now now infos (p, next_streak now ?was)"
    by (auto simp: map_of_next_streaks split: if_splits)
  have all: "corroborated_by infos p = readable_peers infos" and ne: "readable_peers infos \<noteq> []"
    and q: "quorum_read infos" and long: "qualifies now (next_streak now ?was)"
    using ex by (auto simp: excluded_now_def Let_def)
  have dist: "distinct (map fst infos)" using survey_infos_hosts(1) [OF assms(4)] assms(2) by simp
  have "3 \<le> length ?ts"
    using long next_streak_reads [OF streaks_match_log, of now]
    by (simp add: qualifies_def PEER_UNREACHABLE_MIN_READS_def)
  moreover from this have "?ts \<noteq> []" by auto
  then have "10800 \<le> now - hd ?ts"
    using long next_streak_since [OF streaks_match_log, of now]
    by (simp add: qualifies_def PEER_UNREACHABLE_EXCLUDE_SECONDS_def ACTIVE_MARKER_TTL_def)
  ultimately show ?thesis
    using dark ne q corroborated_all [OF all _ _ dist] by (auto simp: quorum_read_def)
qed

subsection \<open>Two hosts that exclude\<close>

text \<open>What the code relies on a quorum for: no two of them lie on different sides of a split.\<close>

locale quorum_system =
  fixes quorum :: "'h set \<Rightarrow> bool"
  assumes quorums_meet: "quorum Q \<Longrightarrow> quorum Q' \<Longrightarrow> Q \<inter> Q' \<noteq> {}"
begin

lemma one_sided: "quorum Q \<Longrightarrow> Q \<subseteq> side \<Longrightarrow> quorum Q' \<Longrightarrow> Q' \<inter> side = {} \<Longrightarrow> False"
  using quorums_meet by fastforce

end

definition majority_of :: "'h list \<Rightarrow> 'h set \<Rightarrow> bool" where
  "majority_of hosts Q = (Q \<subseteq> set hosts \<and> card (set hosts) < 2 * card Q)"

lemma majorities_meet: "majority_of hosts Q \<Longrightarrow> majority_of hosts Q' \<Longrightarrow> Q \<inter> Q' \<noteq> {}"
proof
  assume m: "majority_of hosts Q" "majority_of hosts Q'" and "Q \<inter> Q' = {}"
  then have "card (Q \<union> Q') = card Q + card Q'"
    by (intro card_Un_disjoint) (auto simp: majority_of_def intro: finite_subset)
  moreover have "card (Q \<union> Q') \<le> card (set hosts)"
    using m by (intro card_mono) (auto simp: majority_of_def)
  ultimately show False using m by (simp add: majority_of_def)
qed

interpretation fleet_majority: quorum_system "majority_of hosts" for hosts
  by unfold_locales (rule majorities_meet)

definition reaches :: "string \<Rightarrow> (string \<times> peer_info) list \<Rightarrow> string set" where
  "reaches me infos = insert me (set (readable_peers infos))"

lemma others_count:
  assumes "distinct hosts" and "me \<in> set hosts"
  shows "length (filter (\<lambda>p. p \<noteq> me) hosts) + 1 = card (set hosts)"
proof -
  have "set (filter (\<lambda>p. p \<noteq> me) hosts) = set hosts - {me}" by auto
  then have "length (filter (\<lambda>p. p \<noteq> me) hosts) = card (set hosts - {me})"
    using assms(1) distinct_card [of "filter (\<lambda>p. p \<noteq> me) hosts"] by simp
  also have "\<dots> + 1 = card (set hosts)"
    using card_Suc_Diff1 [OF finite_set assms(2)] by simp
  finally show ?thesis by simp
qed

lemma excluding_survey_read_majority:
  assumes "survey_peers rec now me file published = Some (sv, x)" and "sv_excluded sv \<noteq> []"
    and "map fst published = hosts" and "distinct hosts" and "me \<in> set hosts"
  shows "\<exists>infos. survey_infos me published = Some infos \<and> majority_of hosts (reaches me infos)"
proof -
  obtain infos streaks evs where infos: "survey_infos me published = Some infos"
    and j: "judge_infos now (peer_streaks file) infos = (sv, streaks, evs)"
    using survey_peers_SomeD [OF assms(1)] by blast
  have "quorum_read infos"
    using judged_excluded [OF j, of "hd (sv_excluded sv)"] assms(2) by (auto simp: excluded_now_def Let_def)
  moreover have ids: "map fst infos = filter (\<lambda>p. p \<noteq> me) hosts"
    using survey_infos_hosts(1) [OF infos] assms(3) by simp
  moreover have "length (filter (\<lambda>p. p \<noteq> me) hosts) + 1 = card (set hosts)"
    using assms(4,5) by (rule others_count)
  moreover have dist: "distinct (map fst infos)" using ids assms(4) by simp
  then have "distinct (readable_peers infos)"
    by (simp add: readable_peers_def distinct_map_filter)
  moreover have sub: "set (readable_peers infos) \<subseteq> set hosts - {me}"
    using ids by (force simp: readable_peers_def dest: arg_cong [where f = set])
  moreover have "length infos = length (filter (\<lambda>p. p \<noteq> me) hosts)"
    using ids by (metis length_map)
  moreover have "card (reaches me infos) = length (readable_peers infos) + 1"
    unfolding reaches_def using sub \<open>distinct (readable_peers infos)\<close>
    by (subst card_insert_disjoint) (auto simp: distinct_card)
  ultimately have "majority_of hosts (reaches me infos)"
    using assms(5) sub by (auto simp: majority_of_def reaches_def quorum_read_def)
  with infos show ?thesis by blast
qed

definition cut_off :: "peer_obs \<Rightarrow> bool" where
  "cut_off ob = (po_refused ob \<or> po_pool ob = NoJson)"

lemma cut_off_dark: "cut_off ob \<Longrightarrow> read_peer ob = Some i \<Longrightarrow> \<not> pi_readable i"
  by (auto simp: cut_off_def read_peer_def split: if_splits)

lemma reaches_own_side:
  assumes "survey_infos me published = Some infos" and "\<forall>(p, ob) \<in> set published. p \<notin> side \<longrightarrow> cut_off ob"
    and "me \<in> side"
  shows "reaches me infos \<subseteq> side"
  using assms survey_infos_hosts(2) [OF assms(1)] cut_off_dark by (fastforce simp: reaches_def readable_peers_def)

text \<open>the two halves of a split fleet never both give up on hosts. When the hosts of one side cannot
  read those of the other, and the two surveys go by the same published fleet, at most one of the sides
  excludes anybody, so at most one of them goes on to update without the other's consent.\<close>

theorem split_fleet_excludes_on_one_side:
  assumes "survey_peers ra ta a fa pa = Some (sa, xa)" and "survey_peers rb tb b fb pb = Some (sb, xb)"
    and "map fst pa = hosts" and "map fst pb = hosts" and "distinct hosts"
    and "a \<in> set hosts" and "b \<in> set hosts" and "a \<in> side" and "b \<notin> side"
    and "\<forall>(p, ob) \<in> set pa. p \<notin> side \<longrightarrow> cut_off ob" and "\<forall>(p, ob) \<in> set pb. p \<in> side \<longrightarrow> cut_off ob"
  shows "sv_excluded sa = [] \<or> sv_excluded sb = []"
proof (rule ccontr)
  assume "\<not> ?thesis"
  then obtain ia ib where a: "survey_infos a pa = Some ia" "majority_of hosts (reaches a ia)"
    and b: "survey_infos b pb = Some ib" "majority_of hosts (reaches b ib)"
    using excluding_survey_read_majority [OF assms(1) _ assms(3,5,6)]
      excluding_survey_read_majority [OF assms(2) _ assms(4,5,7)] by auto
  have "reaches a ia \<subseteq> side" using reaches_own_side [OF a(1) assms(10,8)] .
  moreover have "reaches b ib \<inter> side = {}" using reaches_own_side [OF b(1), of "- side"] assms(9,11) by auto
  ultimately show False using fleet_majority.one_sided [OF a(2) _ b(2)] by blast
qed

subsection \<open>A fleet of three hosts\<close>

text \<open>A host that nobody can log in to, and one that serves, answers and reports the hosts it could not read
  a minute ago.\<close>

definition dark_obs :: peer_obs where
  "dark_obs = \<lparr>po_refused = False, po_text = ''ssh: connect: Operation timed out'', po_pool = NoJson,
     po_marker = \<lparr>mr_rc = 255, mr_clock = None, mr_active = Blank, mr_waiting = Blank, mr_unreadable = Blank,
       mr_pool_since = None, mr_held = []\<rparr>\<rparr>"

definition serving_obs :: "int \<Rightarrow> string list \<Rightarrow> peer_obs" where
  "serving_obs c reported = \<lparr>po_refused = False, po_text = [], po_pool = PoolStatus (PStr ''on'') (PBool True),
     po_marker = \<lparr>mr_rc = 0, mr_clock = Some c, mr_active = Blank, mr_waiting = Blank,
       mr_unreadable = Doc (map (\<lambda>h. (h, FNum (of_int c - 60))) reported), mr_pool_since = Some 0, mr_held = []\<rparr>\<rparr>"

text \<open>What \<open>m1\<close> sees when \<open>m3\<close> is dark, and \<open>m3\<close> when \<open>m1\<close> is.\<close>

definition seen_by_m1 :: "int \<Rightarrow> (string \<times> peer_obs) list" where
  "seen_by_m1 c = [(''m1'', dark_obs), (''m3'', dark_obs), (''m5'', serving_obs c [''m1'', ''m3''])]"

definition dark_surveys :: "string \<Rightarrow> (rat \<times> (string \<times> peer_info) list) list" where
  "dark_surveys peer = map (\<lambda>t. (t, [(peer, dark_peer (Unreachable Transport))])) [1000, 5000, 9000]"

definition dark_file :: "string \<Rightarrow> (string \<times> streak_row) list" where
  "dark_file peer = streak_file (fold record_survey (dark_surveys peer) [])"

lemma dark_file_rows:
  "dark_file peer = [(peer, \<lparr>sr_since = FNum 1000, sr_reads = Some 3, sr_last = FNum 9000, sr_excluded = False\<rparr>)]"
  by (simp add: dark_file_def dark_surveys_def record_survey_def judge_infos_def next_streaks_def next_streak_def
      Let_def excluded_now_def qualifies_def quorum_read_def readable_peers_def row_of_streak_def)

definition serving_info :: "int \<Rightarrow> string list \<Rightarrow> peer_info" where
  "serving_info c reported = (dark_peer PeerOn)\<lparr>pi_busy := False, pi_readable := True, pi_clock := Some c,
     pi_unreadable := Some (map (\<lambda>h. (h, FNum (of_int c - 60))) reported)\<rparr>"

lemma read_sample_peers [simp]:
  "read_peer dark_obs = Some (dark_peer (Unreachable Transport))"
  "read_peer (serving_obs c reported) = Some (serving_info c reported)"
proof -
  have "ssh_failure_kind ''ssh: connect: Operation timed out'' = Transport" by code_simp
  then show "read_peer dark_obs = Some (dark_peer (Unreachable Transport))"
    by (simp add: read_peer_def dark_obs_def)
qed (simp add: serving_obs_def serving_info_def read_peer_defs marker_clock_def ticket_since_def marker_age_def
      dark_report_def stopped_def)

text \<open>Both surveys leave the other host out.\<close>

lemma survey_of_dark:
  assumes "me \<in> {''m1'', ''m3''}" and "peer \<in> {''m1'', ''m3''} - {me}"
  shows "survey_peers True 14000 me (dark_file peer) (seen_by_m1 14000) =
    Some (\<lparr>sv_busy = [], sv_waiting = [], sv_off = [], sv_excluded = [peer]\<rparr>,
          [(peer, \<lparr>sr_since = FNum 1000, sr_reads = Some 4, sr_last = FNum 14000, sr_excluded = True\<rparr>)],
          [PeerExcluded peer])"
    and "survey_infos me (seen_by_m1 14000) =
      Some [(peer, dark_peer (Unreachable Transport)), (''m5'', serving_info 14000 [''m1'', ''m3''])]"
proof -
  show infos: "survey_infos me (seen_by_m1 14000) =
      Some [(peer, dark_peer (Unreachable Transport)), (''m5'', serving_info 14000 [''m1'', ''m3''])]"
    using assms by (auto simp: survey_infos_def seen_by_m1_def)
  have "reports_dark peer (serving_info 14000 [''m1'', ''m3''])"
    using assms by (auto simp: reports_dark_def serving_info_def PEER_UNREACHABLE_FRESH_SECONDS_def)
  then show "survey_peers True 14000 me (dark_file peer) (seen_by_m1 14000) =
    Some (\<lparr>sv_busy = [], sv_waiting = [], sv_off = [], sv_excluded = [peer]\<rparr>,
          [(peer, \<lparr>sr_since = FNum 1000, sr_reads = Some 4, sr_last = FNum 14000, sr_excluded = True\<rparr>)],
          [PeerExcluded peer])"
    using assms
    by (auto simp: survey_peers_def infos dark_file_rows peer_streaks_def List.map_filter_def judge_infos_def
        next_streaks_def next_streak_def Let_def excluded_now_def qualifies_def quorum_read_def readable_peers_def
        corroborated_by_def survey_of_def row_of_streak_def serving_info_def dark_peer_def
        PEER_UNREACHABLE_MIN_READS_def PEER_UNREACHABLE_EXCLUDE_SECONDS_def ACTIVE_MARKER_TTL_def)
qed

theorem excluded_peer_dark_for_hours_witness:
  "\<exists>infos. survey_infos ''m1'' (seen_by_m1 14000) = Some infos \<and> dark_in ''m3'' infos
     \<and> readable_peers infos \<noteq> [] \<and> 10800 \<le> (14000 :: rat) - hd (fold log_survey (dark_surveys ''m3'') (\<lambda>_. []) ''m3'')"
proof -
  note s = survey_of_dark [of "''m1''" "''m3''", simplified]
  from excluded_peer_dark_for_hours [OF s(1) [unfolded dark_file_def] _ _ s(2), of "''m3''"]
  show ?thesis using s(2) by (simp add: seen_by_m1_def)
qed

lemma survey_of_cut_off_host:
  "survey_peers True 14000 ''m1'' (dark_file ''m3'') [(''m1'', dark_obs), (''m3'', dark_obs), (''m5'', dark_obs)] =
    Some (\<lparr>sv_busy = [Unreachable Transport, Unreachable Transport], sv_waiting = [], sv_off = [], sv_excluded = []\<rparr>,
          [(''m3'', \<lparr>sr_since = FNum 1000, sr_reads = Some 4, sr_last = FNum 14000, sr_excluded = False\<rparr>),
           (''m5'', \<lparr>sr_since = FNum 14000, sr_reads = Some 1, sr_last = FNum 14000, sr_excluded = False\<rparr>)], [])"
  by (simp add: survey_peers_def survey_infos_def dark_file_rows peer_streaks_def List.map_filter_def judge_infos_def
      next_streaks_def next_streak_def Let_def excluded_now_def quorum_read_def readable_peers_def
      survey_of_def row_of_streak_def dark_peer_def)

theorem split_fleet_excludes_on_one_side_witness:
  "\<exists>sa sb xa xb. survey_peers True 14000 ''m1'' (dark_file ''m3'') [(''m1'', dark_obs), (''m3'', dark_obs), (''m5'', dark_obs)] = Some (sa, xa)
     \<and> survey_peers True 14000 ''m3'' (dark_file ''m1'') (seen_by_m1 14000) = Some (sb, xb)
     \<and> sv_excluded sb = [''m1''] \<and> (sv_excluded sa = [] \<or> sv_excluded sb = [])"
proof -
  note a = survey_of_cut_off_host and b = survey_of_dark(1) [of "''m3''" "''m1''", simplified]
  from split_fleet_excludes_on_one_side [OF a b, of "[''m1'', ''m3'', ''m5'']" "{''m1''}"]
  show ?thesis using a b by (simp add: seen_by_m1_def cut_off_def dark_obs_def)
qed

end
