(* ===== verification/UpdateTurn.thy ===== *)
theory UpdateTurn
  imports PeerSurvey
begin

section \<open>The update turn\<close>

text \<open>
  How \<open>scripts/fleet_self_update.py\<close> lets one host of the fleet update at a time: the queue of waiting
  tickets (\<open>queue_ahead\<close>, \<open>note_waiting\<close>, \<open>step_aside\<close>, \<open>clear_waiting\<close>, \<open>defer\<close>), the decision of a run
  whose other gates passed, the announcement (\<open>_announce\<close>), which settles two runs that got past the
  queue together, and the halt after failed attempts. The survey of the peers is \<open>PeerSurvey\<close>'s. The
  texts of the refusals, the issue and its incident marker are not modelled.
\<close>

subsection \<open>The queue\<close>

definition queue_ahead :: "string \<Rightarrow> rat \<Rightarrow> (string \<times> rat) list \<Rightarrow> string list" where
  "queue_ahead me my_since waiting =
     map fst (filter (\<lambda>(peer, since). (since, peer) < (my_since, me)) (sort_key (\<lambda>(peer, since). (since, peer)) waiting))"

lemma queue_ahead_empty:
  "queue_ahead me s waiting = [] \<longleftrightarrow> (\<forall>(peer, since) \<in> set waiting. (s, me) \<le> (since, peer))"
  by (auto simp: queue_ahead_def filter_empty_conv not_less)

text \<open>the queue has exactly one head. Whatever tickets the hosts hold, when every host sees the
  tickets of all the others exactly one of them finds nobody ahead: no two hosts yield to each other, and
  no two take the turn by the queue.\<close>

theorem queue_has_one_head:
  assumes "tickets \<noteq> []" and "distinct (map fst tickets)"
  shows "\<exists>!ticket. ticket \<in> set tickets
           \<and> queue_ahead (fst ticket) (snd ticket) (filter (\<lambda>t. fst t \<noteq> fst ticket) tickets) = []"
proof -
  let ?key = "\<lambda>t :: string \<times> rat. (snd t, fst t)"
  let ?head = "\<lambda>t. t \<in> set tickets \<and> queue_ahead (fst t) (snd t) (filter (\<lambda>u. fst u \<noteq> fst t) tickets) = []"
  have head: "?head t \<longleftrightarrow> t \<in> set tickets \<and> (\<forall>u \<in> set tickets. ?key t \<le> ?key u)" for t
  proof -
    have "u = t" if "u \<in> set tickets" "t \<in> set tickets" "fst u = fst t" for u
      using that assms(2) by (metis eq_key_imp_eq_value prod.collapse)
    then have "(\<forall>u \<in> set tickets. fst u \<noteq> fst t \<longrightarrow> ?key t \<le> ?key u) = (\<forall>u \<in> set tickets. ?key t \<le> ?key u)"
      if "t \<in> set tickets" using that by blast
    then show ?thesis by (fastforce simp: queue_ahead_empty simp del: less_eq_prod_simp)
  qed
  have "Min (?key ` set tickets) \<in> ?key ` set tickets" using assms(1) by (intro Min_in) auto
  then obtain t where t: "t \<in> set tickets" and min: "Min (?key ` set tickets) = ?key t" by auto
  have "?key t \<le> ?key u" if "u \<in> set tickets" for u
    unfolding min [symmetric] using that by (intro Min_le) auto
  with t have "?head t" unfolding head by blast
  moreover have "u = t" if "?head u" for u
    using that \<open>?head t\<close> head by (metis antisym prod.expand prod.inject)
  ultimately show ?thesis by blast
qed

theorem queue_has_one_head_witness:
  "\<exists>!ticket. ticket \<in> set [(''m1'', 5), (''m3'', 2), (''m5'', 2 :: rat)]
     \<and> queue_ahead (fst ticket) (snd ticket)
         (filter (\<lambda>t. fst t \<noteq> fst ticket) [(''m1'', 5), (''m3'', 2), (''m5'', 2)]) = []"
  by (rule queue_has_one_head) simp_all

subsection \<open>This host's ticket\<close>

record ticket =
  tk_host :: string
  tk_target :: string
  tk_since :: field
  tk_ts :: rat
  tk_reason :: string
  tk_starved :: "rat option"
  tk_issue :: "string option"
  tk_stepped_aside :: bool

record turn_files =
  tf_waiting :: "ticket option"
  tf_aside :: "ticket option"

definition waiting_ticket :: "turn_files \<Rightarrow> ticket option" where
  "waiting_ticket fs = (case tf_waiting fs of Some t \<Rightarrow> Some t | None \<Rightarrow> tf_aside fs)"

definition place :: "string \<Rightarrow> string \<Rightarrow> string \<Rightarrow> rat \<Rightarrow> turn_files \<Rightarrow> ticket" where
  "place me target reason now fs =
     (let old = waiting_ticket fs;
          since = (case old of Some t \<Rightarrow> (case tk_since t of FNum s \<Rightarrow> s | _ \<Rightarrow> now) | None \<Rightarrow> now)
      in \<lparr>tk_host = me, tk_target = target, tk_since = FNum since, tk_ts = now, tk_reason = take 300 reason,
          tk_starved = (case old of Some t \<Rightarrow> tk_starved t | None \<Rightarrow> None),
          tk_issue = (case old of Some t \<Rightarrow> tk_issue t | None \<Rightarrow> None), tk_stepped_aside = False\<rparr>)"

definition note_waiting :: "string \<Rightarrow> string \<Rightarrow> string \<Rightarrow> rat \<Rightarrow> turn_files \<Rightarrow> ticket \<times> turn_files" where
  "note_waiting me target reason now fs =
     (let t = place me target reason now fs in (t, fs\<lparr>tf_waiting := Some t, tf_aside := None\<rparr>))"

definition step_aside :: "string \<Rightarrow> string \<Rightarrow> string \<Rightarrow> rat \<Rightarrow> turn_files \<Rightarrow> ticket \<times> turn_files" where
  "step_aside me target reason now fs =
     (let t = (place me target reason now fs)\<lparr>tk_stepped_aside := True\<rparr>
      in (t, fs\<lparr>tf_waiting := None, tf_aside := Some t\<rparr>))"

definition clear_waiting :: "turn_files \<Rightarrow> turn_files" where
  "clear_waiting fs = fs\<lparr>tf_waiting := None, tf_aside := None\<rparr>"

text \<open>\<open>my_since\<close> of a run: its place, or now when it has none.\<close>

definition my_since :: "rat \<Rightarrow> turn_files \<Rightarrow> rat" where
  "my_since now fs = (case waiting_ticket fs of
     Some t \<Rightarrow> (case tk_since t of FNum s \<Rightarrow> s | _ \<Rightarrow> now) | None \<Rightarrow> now)"

definition EXIT_OK :: int where "EXIT_OK = 0"
definition EXIT_REFUSED :: int where "EXIT_REFUSED = 3"
definition EXIT_DEFERRED :: int where "EXIT_DEFERRED = 0"
definition STARVED_FALLBACK_SECONDS :: rat where "STARVED_FALLBACK_SECONDS = 21600"
definition STARVED_AFTER_SECONDS :: rat where "STARVED_AFTER_SECONDS = PEER_UNREACHABLE_EXCLUDE_SECONDS + 3600"

text \<open>What \<open>defer\<close> learns from outside: whether queued gate jobs wait for this host, and the number of the
  issue GitHub opened, if it did.\<close>

record defer_env =
  de_demand :: bool
  de_issue :: "string option"

definition starvation_issue :: "string option \<Rightarrow> ticket \<Rightarrow> ticket" where
  "starvation_issue opened t =
     (if (case tk_issue t of Some n \<Rightarrow> n \<noteq> [] | None \<Rightarrow> False) then t
      else case opened of Some n \<Rightarrow> t\<lparr>tk_issue := Some n\<rparr> | None \<Rightarrow> t)"

datatype turn_event = SelfUpdateStarved

definition defer_run :: "defer_env \<Rightarrow> string \<Rightarrow> string \<Rightarrow> string \<Rightarrow> rat \<Rightarrow> turn_files
    \<Rightarrow> int \<times> turn_event list \<times> turn_files" where
  "defer_run env me target reason now fs =
     (let (t, fs') = note_waiting me target reason now fs;
          waited = (case tk_since t of FNum s \<Rightarrow> max 0 (now - s) | _ \<Rightarrow> 0);
          bound = (if de_demand env then STARVED_AFTER_SECONDS else STARVED_FALLBACK_SECONDS)
      in if waited < bound then (EXIT_DEFERRED, [], fs')
         else (let loud = (case tk_starved t of Some x \<Rightarrow> x = 0 | None \<Rightarrow> True);
                   t' = starvation_issue (de_issue env) (if loud then t\<lparr>tk_starved := Some now\<rparr> else t)
               in (EXIT_REFUSED, if loud then [SelfUpdateStarved] else [], fs'\<lparr>tf_waiting := Some t'\<rparr>)))"

subsection \<open>The announcement\<close>

definition ANNOUNCE_SETTLE_SECONDS :: rat where "ANNOUNCE_SETTLE_SECONDS = 30"
definition ANNOUNCE_TIE_SECONDS :: rat where "ANNOUNCE_TIE_SECONDS = 10"

text \<open>One peer, read after the settle; \<open>t\<close> is this host's clock once the read returned. The answer is the
  evidence the run defers with.\<close>

definition announce_peer :: "string \<Rightarrow> rat \<Rightarrow> string list \<Rightarrow> string \<times> peer_info \<times> rat \<Rightarrow> peer_note option" where
  "announce_peer me announced excluded read =
     (let (peer, info, t) = read
      in if \<not> pi_busy info then None
         else if peer \<in> set excluded \<and> \<not> pi_readable info then None
         else case pi_active_age info of
           None \<Rightarrow> Some (pi_note info)
         | Some theirs \<Rightarrow>
             (let mine = max 0 (t - announced)
              in if theirs > mine + ANNOUNCE_TIE_SECONDS
                    \<or> (\<bar>theirs - mine\<bar> \<le> ANNOUNCE_TIE_SECONDS \<and> peer < me)
                 then Some (pi_note info) else None))"

fun announce :: "string \<Rightarrow> rat \<Rightarrow> string list \<Rightarrow> (string \<times> peer_info \<times> rat) list \<Rightarrow> peer_note option" where
  "announce me announced excluded [] = None"
| "announce me announced excluded (read # reads) =
     (if fst read = me then announce me announced excluded reads
      else case announce_peer me announced excluded read of
             Some note \<Rightarrow> Some note
           | None \<Rightarrow> announce me announced excluded reads)"

lemma announce_idle:
  "\<forall>(p, i, t) \<in> set reads. \<not> pi_busy i \<Longrightarrow> announce me x excl reads = None"
  by (induction reads) (auto simp: announce_peer_def Let_def)

lemma announce_append:
  "announce me x excl (xs @ ys) = (case announce me x excl xs of None \<Rightarrow> announce me x excl ys | Some n \<Rightarrow> Some n)"
  by (induction xs) (auto split: option.splits)

lemma announce_one:
  assumes "\<forall>(p, i, t) \<in> set (xs @ ys). \<not> pi_busy i" and "peer \<noteq> me"
  shows "announce me x excl (xs @ (peer, i, t) # ys) = announce_peer me x excl (peer, i, t)"
  using assms announce_idle [of xs me x excl] announce_idle [of ys me x excl]
  by (auto simp: announce_append split: option.splits)

subsection \<open>Two hosts that announce together\<close>

text \<open>What a peer answers at time \<open>t\<close> when it wrote its marker at time \<open>w\<close> (both on a common clock) and
  its own clock is \<open>skew\<close> ahead: the marker, whatever its pool does, or, before it wrote the marker or after
  it gave up and removed it, a serving host.\<close>

definition announces :: "rat \<Rightarrow> rat \<Rightarrow> rat \<Rightarrow> peer_obs \<Rightarrow> bool" where
  "announces w skew t ob =
     (\<not> po_refused ob \<and> marker_clock (po_marker ob) = Some \<lfloor>t + skew\<rfloor>
      \<and> (w \<le> t \<and> mr_active (po_marker ob) = Doc \<lparr>um_ts = FNum (w + skew)\<rparr> \<and> po_pool ob \<notin> {NoJson, NoObject}
         \<or> mr_active (po_marker ob) = Blank \<and> po_pool ob = PoolStatus (PStr ''on'') (PBool True)))"

lemma announced_age:
  assumes "announces w skew t ob" and "mr_active (po_marker ob) \<noteq> Blank" and "t - w < ACTIVE_MARKER_TTL"
    and "read_peer ob = Some i"
  shows "w \<le> t \<and> pi_busy i \<and> pi_readable i
           \<and> (\<exists>age. pi_active_age i = Some age \<and> t - w - 1 < age \<and> age \<le> t - w)"
proof -
  obtain c where c: "\<lfloor>t + skew\<rfloor> = c" "of_int c \<le> t + skew" "t + skew < of_int c + 1"
    using floor_correct [of "t + skew"] that by simp
  obtain s v where "po_pool ob = PoolStatus s v"
    using assms(1) by (cases "po_pool ob") (auto simp: announces_def)
  with assms c have "pi_busy i \<and> pi_readable i \<and> pi_active_age i = Some (max 0 (of_int c - (w + skew)))"
    by (intro live_marker_is_busy) (auto simp: announces_def)
  with assms(1,2) c show ?thesis by (auto simp: max_def announces_def)
qed

lemma not_announced_idle:
  assumes "announces w skew t ob" and "mr_active (po_marker ob) = Blank" and "read_peer ob = Some i"
  shows "\<not> pi_busy i"
  using assms by (auto simp: announces_def read_peer_defs marker_age_def split: option.splits)

text \<open>A read of the other host: made after the settle, with its marker as it was then, and done within \<open>d\<close>
  seconds; \<open>kept\<close> says that the marker, once written, had not been removed.\<close>

definition turn_read :: "bool \<Rightarrow> rat \<Rightarrow> rat \<Rightarrow> rat \<Rightarrow> rat \<Rightarrow> peer_info \<Rightarrow> rat \<Rightarrow> bool" where
  "turn_read kept d mine theirs their_skew info t =
     (\<exists>r ob. mine + ANNOUNCE_SETTLE_SECONDS \<le> r \<and> r \<le> t \<and> t \<le> r + d \<and> t - min mine theirs < ACTIVE_MARKER_TTL
        \<and> (kept \<longrightarrow> theirs \<le> r \<longrightarrow> mr_active (po_marker ob) \<noteq> Blank)
        \<and> announces theirs their_skew r ob \<and> read_peer ob = Some info)"

lemma turn_readE:
  assumes "turn_read kept d w w' k' i t"
  obtains (idle) "\<not> pi_busy i" "kept \<Longrightarrow> w + ANNOUNCE_SETTLE_SECONDS < w'"
  | (seen) r age where "w + 30 \<le> r" "r \<le> t" "t \<le> r + d" "pi_busy i" "pi_readable i" "pi_active_age i = Some age"
      "r - w' - 1 < age" "age \<le> r - w'"
proof -
  obtain r ob where r: "w + 30 \<le> r" "r \<le> t" "t \<le> r + d" "t - min w w' < ACTIVE_MARKER_TTL"
      "kept \<longrightarrow> w' \<le> r \<longrightarrow> mr_active (po_marker ob) \<noteq> Blank" "announces w' k' r ob" "read_peer ob = Some i"
    using assms by (auto simp: turn_read_def ANNOUNCE_SETTLE_SECONDS_def)
  show thesis
  proof (cases "mr_active (po_marker ob) = Blank")
    case True
    with r show ?thesis
      by (intro idle not_announced_idle [OF r(6) _ r(7)]) (auto simp: ANNOUNCE_SETTLE_SECONDS_def)
  next
    case False
    have "r - w' < ACTIVE_MARKER_TTL" using r(2,4) by (simp add: min_def split: if_splits)
    with announced_age [OF r(6) False _ r(7)] r(1-3) seen show ?thesis by blast
  qed
qed

lemma announcer_defers:
  assumes "turn_read True d w w' k' i t" and "w' + 11 + d < w \<or> (\<bar>w' - w\<bar> \<le> 9 - d \<and> peer < me)" and "0 \<le> d"
  shows "announce_peer me (w + k) excluded (peer, i, t + k) \<noteq> None"
  using assms(1)
proof (cases rule: turn_readE)
  case idle
  with assms(2,3) show ?thesis by (auto simp: ANNOUNCE_SETTLE_SECONDS_def)
next
  case (seen r age)
  with assms(2,3) show ?thesis
    by (auto simp: announce_peer_def ANNOUNCE_TIE_SECONDS_def max_def abs_le_iff)
qed

lemma announcer_proceeds:
  assumes "turn_read kept d w w' k' i t" and "w + 11 + d < w' \<or> (\<bar>w' - w\<bar> \<le> 9 - d \<and> me < peer)" and "0 \<le> d"
  shows "announce_peer me (w + k) excluded (peer, i, t + k) = None"
  using assms(1)
proof (cases rule: turn_readE)
  case idle
  then show ?thesis by (simp add: announce_peer_def)
next
  case (seen r age)
  with assms(2,3) show ?thesis
    by (auto simp: announce_peer_def ANNOUNCE_TIE_SECONDS_def max_def abs_le_iff not_less_iff_gr_or_eq)
qed

definition goes_first :: "rat \<Rightarrow> string \<Rightarrow> rat \<Rightarrow> string \<Rightarrow> rat \<Rightarrow> bool" where
  "goes_first d a wa b wb = (wa + 11 + d < wb \<or> (\<bar>wa - wb\<bar> \<le> 9 - d \<and> a < b))"

text \<open>C14: of two hosts that announce together exactly one goes on. Suppose no third host is busy, each
  reads the other after its own settle, in at most \<open>d\<close> seconds and before the other's marker expires, and
  the announcements are not near the edge of the tie (they are at most 9 - d or more than 11 + d seconds
  apart). Then the earlier one, or in a tie the one with the lower id, goes on and the other defers,
  whatever the skew of their clocks, whichever of them reads first and whatever the surveys excluded; the
  one that goes on keeps its marker until the other has read it, the other may have removed its own.\<close>

theorem one_announcer_goes:
  assumes "goes_first d a wa b wb" and "a \<noteq> b" and "0 \<le> d"
    and "turn_read False d wa wb kb ib ta" and "turn_read True d wb wa ka ia tb"
    and "\<forall>(p, i, t) \<in> set (xs @ ys). \<not> pi_busy i" and "\<forall>(p, i, t) \<in> set (us @ vs). \<not> pi_busy i"
  shows "announce a (wa + ka) ea (xs @ (b, ib, ta + ka) # ys) = None
     \<and> announce b (wb + kb) eb (us @ (a, ia, tb + kb) # vs) \<noteq> None"
proof -
  have "announce a (wa + ka) ea (xs @ (b, ib, ta + ka) # ys) = None"
    using assms(1,2,6) announcer_proceeds [OF assms(4) _ assms(3)]
    by (subst announce_one) (auto simp: goes_first_def abs_minus_commute)
  moreover have "announce b (wb + kb) eb (us @ (a, ia, tb + kb) # vs) \<noteq> None"
    using assms(1,2,7) announcer_defers [OF assms(5) _ assms(3)]
    by (subst announce_one) (auto simp: goes_first_def)
  ultimately show ?thesis ..
qed

text \<open>A host that announced at \<open>w\<close>, as its clock shows \<open>c\<close>.\<close>

definition announced_host :: "rat \<Rightarrow> int \<Rightarrow> peer_obs" where
  "announced_host w c = \<lparr>po_refused = False, po_text = [], po_pool = PoolStatus (PStr ''on'') (PBool True),
     po_marker = \<lparr>mr_rc = 0, mr_clock = Some c, mr_active = Doc \<lparr>um_ts = FNum w\<rparr>, mr_waiting = Blank,
       mr_unreadable = Blank, mr_pool_since = None, mr_held = []\<rparr>\<rparr>"

definition announced_info :: "rat \<Rightarrow> int \<Rightarrow> peer_info" where
  "announced_info w c = (dark_peer (SelfUpdating (max 0 (of_int c - w))))\<lparr>pi_readable := True, pi_clock := Some c,
     pi_active_age := Some (max 0 (of_int c - w))\<rparr>"

lemma read_announced_host:
  "of_int c - w < ACTIVE_MARKER_TTL \<Longrightarrow> read_peer (announced_host w c) = Some (announced_info w c)"
  by (simp add: announced_host_def announced_info_def read_peer_def read_answering_def marker_clock_def
      ticket_since_def marker_age_def dark_report_def dark_peer_def)

lemma turn_read_announced_host:
  assumes "mine + 30 \<le> of_int c" and "w \<le> of_int c" and "of_int c \<le> t" and "t \<le> of_int c + d" and "t - min mine w < ACTIVE_MARKER_TTL"
  shows "turn_read kept d mine w 0 (announced_info w c) t"
  unfolding turn_read_def
proof (intro exI conjI)
  show "read_peer (announced_host w c) = Some (announced_info w c)"
    using assms by (intro read_announced_host) (simp add: min_def split: if_splits)
  show "announces w 0 (of_int c) (announced_host w c)"
    using assms by (simp add: announces_def announced_host_def marker_clock_def)
qed (use assms in \<open>auto simp: ANNOUNCE_SETTLE_SECONDS_def announced_host_def\<close>)

theorem one_announcer_goes_witness:
  "announce ''m1'' (100 + 0) [] ([] @ (''m3'', announced_info 104 131, 132 + 0) # []) = None
   \<and> announce ''m3'' (104 + 0) [] ([] @ (''m1'', announced_info 100 135, 136 + 0) # []) \<noteq> None"
  by (rule one_announcer_goes [where d = 1])
     (auto simp: goes_first_def ACTIVE_MARKER_TTL_def intro!: turn_read_announced_host)


subsection \<open>The decision of a run\<close>

text \<open>The capacity floor, once every other gate of the run passed: it allows the drain, with or without the
  override for a last serving host, or it refuses.\<close>

datatype floor_answer = FloorAllows bool | FloorRefuses

datatype turn_decision = YieldTurn | AsideTurn bool | TakeTurn bool

definition decide_turn :: "survey \<Rightarrow> string list \<Rightarrow> floor_answer \<Rightarrow> turn_decision" where
  "decide_turn sv ahead answer =
     (if sv_busy sv \<noteq> [] \<or> ahead \<noteq> [] then
        (case answer of FloorAllows _ \<Rightarrow> YieldTurn | FloorRefuses \<Rightarrow> AsideTurn (sv_busy sv \<noteq> []))
      else case answer of FloorAllows allow \<Rightarrow> TakeTurn allow | FloorRefuses \<Rightarrow> AsideTurn False)"

record turn_env =
  te_me :: string
  te_target :: string
  te_reason :: string
  te_now :: rat
  te_asked :: rat
  te_survey :: survey
  te_floor :: floor_answer
  te_announced :: rat
  te_reads :: "(string \<times> peer_info \<times> rat) list"
  te_lost :: rat
  te_defer :: defer_env

datatype turn_end = Ended int | WentOut bool

definition turn_run :: "turn_env \<Rightarrow> turn_files \<Rightarrow> turn_end \<times> turn_event list \<times> turn_files" where
  "turn_run env fs =
     (let ahead = queue_ahead (te_me env) (my_since (te_asked env) fs) (sv_waiting (te_survey env));
          deferred = (\<lambda>now. let (rc, evs, fs') = defer_run (te_defer env) (te_me env) (te_target env) (te_reason env) now fs
                            in (Ended rc, evs, fs'))
      in case decide_turn (te_survey env) ahead (te_floor env) of
           YieldTurn \<Rightarrow> deferred (te_now env)
         | AsideTurn quiet \<Rightarrow>
             (Ended (if quiet then EXIT_DEFERRED else EXIT_REFUSED), [],
              snd (step_aside (te_me env) (te_target env) (te_reason env) (te_now env) fs))
         | TakeTurn allow \<Rightarrow>
             (case announce (te_me env) (te_announced env) (sv_excluded (te_survey env)) (te_reads env) of
                Some note \<Rightarrow> deferred (te_lost env)
              | None \<Rightarrow> (WentOut allow, [], clear_waiting fs)))"

definition turn_step :: "turn_env \<Rightarrow> turn_files \<Rightarrow> turn_files" where
  "turn_step env fs = snd (snd (turn_run env fs))"

definition stays_home :: "turn_env \<Rightarrow> turn_files \<Rightarrow> bool" where
  "stays_home env fs = (case fst (turn_run env fs) of Ended rc \<Rightarrow> True | WentOut allow \<Rightarrow> False)"

definition holds_place :: "rat \<Rightarrow> turn_files \<Rightarrow> bool" where
  "holds_place s fs = (case waiting_ticket fs of Some t \<Rightarrow> tk_since t = FNum s | None \<Rightarrow> False)"

lemma place_since: "holds_place s fs \<Longrightarrow> tk_since (place me target reason now fs) = FNum s"
  by (auto simp: holds_place_def place_def Let_def split: option.splits)

lemma starvation_issue_since [simp]: "tk_since (starvation_issue n t) = tk_since t"
  by (simp add: starvation_issue_def split: option.splits)

lemma defer_run_since:
  "\<exists>t. tf_waiting (snd (snd (defer_run env me target reason now fs))) = Some t
     \<and> tk_since t = tk_since (place me target reason now fs)"
  by (auto simp: defer_run_def note_waiting_def Let_def)

lemma step_aside_files:
  "tf_waiting (snd (step_aside me target reason now fs)) = None"
  "tf_aside (snd (step_aside me target reason now fs)) = Some ((place me target reason now fs)\<lparr>tk_stepped_aside := True\<rparr>)"
  by (simp_all add: step_aside_def Let_def)

lemma turn_run_cases:
  obtains (deferred) now where "turn_step env fs = snd (snd (defer_run (te_defer env) (te_me env) (te_target env) (te_reason env) now fs))"
      "te_floor env \<noteq> FloorRefuses" "now = te_now env \<or> now = te_lost env"
  | (aside) "turn_step env fs = snd (step_aside (te_me env) (te_target env) (te_reason env) (te_now env) fs)"
      "te_floor env = FloorRefuses"
  | (went) "\<not> stays_home env fs"
proof (cases "decide_turn (te_survey env) (queue_ahead (te_me env) (my_since (te_asked env) fs) (sv_waiting (te_survey env))) (te_floor env)")
  case YieldTurn
  then show thesis
    by (intro deferred [of "te_now env"])
       (auto simp: turn_step_def turn_run_def decide_turn_def case_prod_unfold Let_def split: if_splits floor_answer.splits)
next
  case (AsideTurn quiet)
  then show thesis
    by (intro aside) (auto simp: turn_step_def turn_run_def decide_turn_def Let_def split: if_splits floor_answer.splits)
next
  case (TakeTurn allow)
  note taken = this
  then have "te_floor env \<noteq> FloorRefuses" by (auto simp: decide_turn_def split: if_splits)
  then show thesis
  proof (cases "announce (te_me env) (te_announced env) (sv_excluded (te_survey env)) (te_reads env)")
    case None
    with taken show thesis by (intro went) (simp add: stays_home_def turn_run_def Let_def)
  next
    case (Some ev)
    with taken \<open>te_floor env \<noteq> FloorRefuses\<close> show thesis
      by (intro deferred [of "te_lost env"]) (simp_all add: turn_step_def turn_run_def case_prod_unfold Let_def)
  qed
qed

lemma holds_placeI:
  "tf_waiting fs = Some t \<Longrightarrow> tk_since t = FNum s \<Longrightarrow> holds_place s fs"
  "tf_waiting fs = None \<Longrightarrow> tf_aside fs = Some t \<Longrightarrow> tk_since t = FNum s \<Longrightarrow> holds_place s fs"
  by (simp_all add: holds_place_def waiting_ticket_def)

lemma turn_step_place:
  assumes "stays_home env fs" and "holds_place s fs"
  shows "holds_place s (turn_step env fs)"
proof (cases rule: turn_run_cases [of env fs])
  case (deferred now)
  with assms(2) show ?thesis
    using defer_run_since [of "te_defer env" "te_me env" "te_target env" "te_reason env" now fs]
    by (metis holds_placeI(1) place_since)
next
  case aside
  with assms(2) show ?thesis by (auto intro!: holds_placeI(2) simp: step_aside_files place_since)
next
  case went
  with assms(1) show ?thesis by simp
qed

interpretation waiting_host: machine "holds_place s" stays_home turn_step "holds_place s" for s
  by unfold_locales (auto intro: turn_step_place)

text \<open>a host keeps its place until it has its turn. Through any sequence of runs that do not go out,
  whether they deferred or stepped aside, the ticket keeps the time it joined the queue. And while the
  capacity floor refuses the host the place is not published, so that no peer yields to it; when it
  does not refuse, it is.\<close>

theorem place_kept_until_turn:
  assumes "holds_place s fs" and "legal_run stays_home turn_step (envs @ [env]) fs"
  shows "holds_place s (fold turn_step (envs @ [env]) fs)
     \<and> (tf_waiting (fold turn_step (envs @ [env]) fs) = None \<longleftrightarrow> te_floor env = FloorRefuses)"
proof -
  let ?fs = "fold turn_step envs fs"
  have "stays_home env ?fs" using assms(2) by (induction envs arbitrary: fs) auto
  moreover have "tf_waiting (turn_step env ?fs) = None \<longleftrightarrow> te_floor env = FloorRefuses"
  proof (cases rule: turn_run_cases [of env ?fs])
    case (deferred now)
    then show ?thesis
      using defer_run_since [of "te_defer env" "te_me env" "te_target env" "te_reason env" now ?fs] by auto
  qed (use \<open>stays_home env ?fs\<close> in \<open>auto simp: step_aside_files\<close>)
  ultimately show ?thesis using waiting_host.run_safe [OF assms] by simp
qed

definition blocked_env :: "floor_answer \<Rightarrow> rat \<Rightarrow> turn_env" where
  "blocked_env answer now = \<lparr>te_me = ''m1'', te_target = ''abc'', te_reason = ''peer busy'', te_now = now, te_asked = now,
     te_survey = \<lparr>sv_busy = [NotServing], sv_waiting = [], sv_off = [], sv_excluded = []\<rparr>, te_floor = answer,
     te_announced = now, te_reads = [], te_lost = now, te_defer = \<lparr>de_demand = False, de_issue = None\<rparr>\<rparr>"

lemma blocked_stays_home: "stays_home (blocked_env answer now) fs"
  by (auto simp: stays_home_def turn_run_def decide_turn_def blocked_env_def Let_def
      split: floor_answer.splits prod.splits)

theorem place_kept_until_turn_witness:
  "holds_place 50 (fold turn_step ([blocked_env FloorRefuses 1850] @ [blocked_env (FloorAllows False) 3650])
     (turn_step (blocked_env FloorRefuses 50) \<lparr>tf_waiting = None, tf_aside = None\<rparr>))"
proof -
  have "holds_place 50 (turn_step (blocked_env FloorRefuses 50) \<lparr>tf_waiting = None, tf_aside = None\<rparr>)"
    by (simp add: holds_place_def turn_step_def turn_run_def decide_turn_def blocked_env_def Let_def step_aside_def
        place_def waiting_ticket_def)
  then show ?thesis
    by (rule place_kept_until_turn [THEN conjunct1]) (simp add: blocked_stays_home)
qed

subsection \<open>Hosts nobody can log in to\<close>

text \<open>two living hosts can go out at once when nobody can log in to either. Both read the third host
  and are dark to it and to each other; each has a quorum, the third host confirms that the other is
  dark, each excludes the other and, as the announcement skips an excluded peer that is still
  unreadable, each goes on to its update.\<close>

theorem inbound_down_both_go:
  "me \<in> {''m1'', ''m3''} \<Longrightarrow> peer \<in> {''m1'', ''m3''} - {me} \<Longrightarrow>
   \<exists>sv x. survey_peers True 14000 me (dark_file peer) (seen_by_m1 14000) = Some (sv, x)
     \<and> fst (turn_run \<lparr>te_me = me, te_target = ''abc'', te_reason = [], te_now = 14000, te_asked = 14000, te_survey = sv,
          te_floor = FloorAllows False, te_announced = 14010,
          te_reads = [(peer, dark_peer (Unreachable Transport), 14041),
                      (''m5'', serving_info 14040 [''m1'', ''m3''], 14041)],
          te_lost = 14041, te_defer = \<lparr>de_demand = False, de_issue = None\<rparr>\<rparr>
          \<lparr>tf_waiting = None, tf_aside = None\<rparr>) = WentOut False"
  using survey_of_dark(1) [of me peer]
  by (auto simp: turn_run_def decide_turn_def queue_ahead_def announce_peer_def Let_def serving_info_def)

theorem inbound_down_both_go_witness:
  "\<exists>sv x. survey_peers True 14000 ''m3'' (dark_file ''m1'') (seen_by_m1 14000) = Some (sv, x)"
  using inbound_down_both_go [of "''m3''" "''m1''"] by auto

end
