(* ===== verification/Spec2Isabelle.thy ===== *)
theory Spec2Isabelle
  imports Samples GateReserve LeaseFit DhcpBreaker JobClaim VmReap CapacityFloor DiskReclaim StewardScheduler UpdateTurn
begin

text \<open>
  tartci runs CI jobs in virtual machines on a small fleet of Mac hosts. Agents and people build on
  the same machines, so the program's core is deciding who may use a host, and when a lane (the
  supervisor of one runner slot) may boot a VM. This development models the Python code that makes
  those decisions, function by function, and proves what the decisions promise.

  \<^bold>\<open>How the parts interact.\<close> A lane that sees a queued job takes a boot claim (\<open>scripts/job_claim.py\<close>),
  asks the DHCP breaker whether VMs get addresses at all (\<open>scripts/vm_dhcp_breaker.py\<close>), asks whether
  its lease would fit (\<open>scripts/lease_fit.py\<close>) and acquires the lease (\<open>scripts/leases.py\<close>). The lease
  store admits against the budget of \<open>scripts/host_profile.py\<close> and the disk reservations of
  \<open>scripts/lease_disk.py\<close>. \<open>scripts/gate_reserve_fit.py\<close> decides beforehand, per fleet profile,
  whether the gate lanes fit the cores and memory the host keeps for them. Afterwards the janitor
  (\<open>scripts/vm_reap.py\<close>) removes what crashed boots left: it finds the lanes launchd has loaded and their
  state directories (\<open>scripts/fleet_lane_discovery.py\<close>, which derives the runner names with
  \<open>scripts/macos_runner_identity.py\<close>), reads the registrations of the repository
  (\<open>scripts/runner_census.py\<close>) and the lease store, and deletes VMs, state files and registrations that
  nobody owns. Before a host drains, \<open>scripts/capacity_floor.py\<close> asks the same census whether another
  machine serves every label the host must protect. The disk janitor (\<open>scripts/disk_reclaim.py\<close>) keeps
  the volume of the Tart store above the floor below which the disk axis refuses every lease, and the
  steward scheduler (\<open>scripts/shipyard_steward_scheduler.py\<close>) is the one host that changes the state of
  pull requests, one fenced command at a time. A host updates itself (\<open>scripts/fleet_self_update.py\<close>) only
  in its turn: it surveys the other hosts over ssh, waits in a queue of tickets, asks the capacity floor,
  announces itself and looks again before it drains.

  \<^bold>\<open>Theories.\<close>

    \<^item> \<open>Prelude\<close>: Python's scalar values, dictionaries, \<open>or\<close>, \<open>==\<close>, \<open>int\<close>, \<open>str\<close>, \<open>strip\<close> and \<open>split\<close>;
      sums over records; the interfaces \<open>budget\<close> (a charge that is never negative on chargeable
      records), \<open>machine\<close> (an invariant kept by every legal step holds after every run) and \<open>simulation\<close>
      (related states stay related along every run).
    \<^item> \<open>Clock\<close>: \<open>iso\<close> and \<open>parse_ts\<close> over the standard library's proleptic Gregorian calendar; what one
      writes the other reads back, cut to the second.
    \<^item> \<open>Owners\<close>: process identities, owner verdicts, running VMs and \<open>reclaim\<close>; a running owner or VM
      never loses its lease and a dead one does.
    \<^item> \<open>HostProfile\<close>: roles, governor, agent floor, lease policy, build classes, \<open>build_profile\<close>; every
      profile is a consistent budget.
    \<^item> \<open>Capacity\<close>: \<open>capacity_config\<close>, \<open>usage\<close>, the admission verdict \<open>core_and_memory_verdict\<close>, partial
      sizes, the agent floor, lending and the preemption of borrowers. Each accounting axis (gate,
      non-gate and guaranteed cores, floor pool, memory) is an interpretation of \<open>budget\<close>.
    \<^item> \<open>LeaseDisk\<close>: the volume probe and growth reservations.
    \<^item> \<open>Waiters\<close>: the files of the store (interface \<open>row_store\<close>), the ranking of VM waiters, the gate
      hint and the prompt reserve.
    \<^item> \<open>LeaseStore\<close>: \<open>acquire\<close>, \<open>resize\<close>, \<open>release\<close>, \<open>heartbeat\<close>, \<open>status_digest\<close>, the guardian commands and
      \<open>acquire_with_wait\<close>, with the preservation of the store's invariant by each.
    \<^item> \<open>LeaseMachine\<close>: the commands as steps of one \<open>machine\<close>; the capacity invariant of every reachable
      store and the behaviour of each command.
    \<^item> \<open>LeaseFit\<close>: \<open>evaluate\<close> and \<open>run\<close>, compared with the admission verdict itself.
    \<^item> \<open>GateReserve\<close>: \<open>share_cores\<close>, \<open>fit\<close> and the \<open>ratchet\<close>.
    \<^item> \<open>DhcpBreaker\<close>: \<open>check\<close>, \<open>record\<close>, \<open>cancel\<close>, \<open>verify\<close>, \<open>probe_now\<close> and \<open>alert_due\<close> on the breaker
      file, the diagnosis of the failing layer, and the specification \<open>cadence\<close> an open breaker refines.
    \<^item> \<open>Sha256\<close> and \<open>JobClaim\<close>: the digest that names a claim file (on 32-bit words), and the claims with
      the listings of idle runners and of peers' published claims.
    \<^item> \<open>RunnerCensus\<close>: \<open>collect\<close> over the repository and organization scopes, the identity each fetch is
      made under, the merge of the scopes and \<open>label_status\<close>; a label is unserved only when every scope
      that applies was read.
    \<^item> \<open>FleetLanes\<close>: runner names and state files, loaded lanes, name prefixes and coverage; no loaded
      lane is lost, and the VMs a lane boots carry a prefix the observers look for.
    \<^item> \<open>CapacityFloor\<close>: \<open>classify\<close>, the peers' evidence, \<open>run\<close> and the exit codes of the drain guard.
    \<^item> \<open>ReapRules\<close> and \<open>VmReap\<close>: who owns a registration, when a VM is an orphan, the state files, and one
      pass of the janitor (\<open>build_digest\<close>, \<open>main\<close>) as a value of its observations and a list of effects;
      the offline trackers, one file per state root, each of which refines the clock of the history of
      passes over its root; a failed write leaves it truncated.
    \<^item> \<open>DiskScan\<close> and \<open>DiskReclaim\<close>: the bounded walks over a directory tree (each with an explicit stack,
      characterised by what its successor function reaches), the verdict on a build tree, scan roots,
      volumes and floors, and the pass; of the build trees below the scan roots only idle ones are
      removed. The other reapers the pass calls are observations.
    \<^item> \<open>StewardScheduler\<close>: configuration, plan pass, write-ahead intent, apply pass and quarantine fence of
      a tick as the list of its effects; an interpretation of \<open>machine\<close> over ticks that a crash may cut
      anywhere.
    \<^item> \<open>PeerSurvey\<close> and \<open>UpdateTurn\<close>: what one host reads of another (\<open>read_peer\<close>), the streaks of dark
      reads and the survey with its exclusions (interface \<open>quorum_system\<close>, interpreted by the majority the
      survey counts), the queue and its tickets, \<open>defer\<close>, the announcement and the turn of a run. The streak
      file refines the history of reads by \<open>simulation\<close>; the place of a waiting host is an invariant of
      \<open>machine\<close>; the announcement is proved exclusive away from the edge of its tie, and not at the edge.
    \<^item> \<open>Samples\<close>: the lease theorems at concrete inputs, and inputs on which the accounting is not what
      was admitted.
    \<^item> this theory: what the parts promise together. A gate lane that fits the reserve is never refused
      for cores or memory by the lease store, and a VM whose lease was granted survives the janitor.

  \<^bold>\<open>Correspondence.\<close> A dictionary the code leaves open (a lease, a lane, a host profile) is a map from
  keys to scalars; one whose keys are fixed (a configuration, a verdict, the breaker, a claim) is a
  record. An exception is the left summand of a result (a property list that is not well-formed XML
  raises, an unreadable one is skipped or reported, as in the code). Files are values that may be absent
  or malformed. Every command runs under the exclusive lock of its store, so it is one step, and
  interleavings are lists of steps. Integers are unbounded, as Python's. Times are integers of
  microseconds, those of the update turn rationals of seconds; the code's binary floating point
  differences are not rounded in the model.

  \<^bold>\<open>Loops.\<close> Most loops are structural recursions over the data they walk. The waiting loop of
  \<open>acquire_with_wait\<close> runs over the attempts it observes; \<open>acquire_with_wait_returns\<close> shows that one
  attempt per two seconds of waiting, and one more, is always enough. The shrinking loop of
  \<open>share_cores\<close> is defined with its termination proof, and so are the stack walks of \<open>DiskScan\<close>, whose
  measure is the weight of the trees on the stack.

  \<^bold>\<open>Not modelled.\<close> Whatever only starts processes or moves bytes: the lock files, \<open>guard_run\<close>'s fork and
  exec, \<open>apply_qos_actions\<close>, the ssh calls of \<open>gather_peers\<close>, the JSON and TOML parsers (their results are
  the inputs). \<open>home_volume_floor.judge\<close> estimates in floating point and is a parameter of \<open>acquire\<close>. The
  probes of Tart, launchd, GitHub, ssh and the file system are observations: the janitor, the census,
  the drain guard, the disk janitor, the survey and the scheduler take what they answered, failures included, as
  their environment, and the time budgets of the probes are left out. Of \<open>disk_reclaim.py\<close>, the sibling
  reapers it calls (Pulp, temporary checkouts, scratch directories, ccache) are an observation: what each
  removed. Of \<open>fleet_self_update.py\<close>, what comes before the turn (signatures, checkout,
  pauses, disk) and after it (drain, install, health, rollback) is not modelled. The installers, watchdogs
  and reports of the repository orchestrate \<open>git\<close>, \<open>launchctl\<close> and GitHub calls and are listed as not
  modelled in the manifest.
\<close>

section \<open>A gate lane that fits\<close>

text \<open>A VM is never smaller than the smallest memory the lease helper gives one.\<close>

lemma vm_mem_mb_pos: "0 < vm_mem_mb n per_job"
  by (simp add: vm_mem_mb_def Let_def VM_MIN_MEM_MB_def)

lemma slots_within:
  assumes "int k < s" and "0 \<le> n" and "s * n \<le> (r::int)"
  shows "int k * n + n \<le> r"
proof -
  have "(int k + 1) * n \<le> s * n" using assms(1,2) by (intro mult_right_mono) auto
  with assms(3) show ?thesis by (simp add: distrib_right)
qed

text \<open>C2: a lane that fits the gate reserve is never refused for cores or memory. Suppose the fit of a
  fleet profile reports no finding on a host whose lease store runs under the same reserves of cores and
  memory, both positive, and whose memory holds at least one job. Take any store with the invariant of
  the lease machine in which fewer than all slots of a gate lane hold their lease and no other gate lease
  is held. Then the acquisition of the lane's next slot, a gate request of a fresh id for the lane's cores
  and the memory of such a VM, answers: it is granted at its full size, whatever agents and builds hold
  or have borrowed, unless it waits for a VM that ranks above it or its disk has no room, cannot be
  judged or is not named.\<close>

theorem fitting_lane_always_starts:
  assumes "safe_store cfg st" and "capacity_config (le_profile e) (aq_common a) = Inr cfg" and "gate_request cfg a st"
    and "fit lanes host = Inr rows" and "finding_lines rows = []" and "lane \<in> set (gate_lanes lanes)"
    and "supervisors lane = Inr s" and "lane_vm_cores lane host = Inr n" and "0 < n"
    and "int_or host ''per_compile_job_mem_mb'' PER_JOB_MEM_MB = Inr pj"
    and "int_item host ''reserved_gate_cores'' = Inr (cf_reserved_gate_cores cfg)"
    and "int_or host ''reserved_gate_mem_mb'' 0 = Inr (cf_reserved_gate_mem_mb cfg)"
    and "0 < cf_reserved_gate_cores cfg" and "0 < cf_reserved_gate_mem_mb cfg"
    and "cf_per_job_mem_mb cfg \<le> cf_total_mem_mb cfg"
    and "aq_cores a = n" and "requested_mem cfg a = vm_mem_mb n pj"
    and "sum_over (gate_charge cfg) (records_of st) = int k * n"
    and "sum_over (gate_mem_charge cfg) (records_of st) = int k * vm_mem_mb n pj" and "int k < s"
  shows "\<exists>st' outcome reaped problems. acquire e a st = (st', Inr (outcome, reaped, problems)) \<and> gate_answer a outcome
    \<and> (aq_disk_path a = [] \<and> \<not> is_vm_kind (PStr (aq_kind a)) \<longrightarrow>
         (\<exists>g. outcome = Granted g \<and> cores_of (gr_lease g) = n))"
proof -
  note fits = no_findings_fit [OF assms(4-8,10-14)]
  have "sum_over (gate_charge cfg) (records_of st) + aq_cores a \<le> cf_reserved_gate_cores cfg"
    unfolding assms(16,18) using assms(9,20) fits(1) by (intro slots_within) auto
  moreover have "sum_over (gate_mem_charge cfg) (records_of st) + requested_mem cfg a \<le> cf_reserved_gate_mem_mb cfg"
    unfolding assms(17,19) using assms(20) fits(2) vm_mem_mb_pos [of n pj] by (intro slots_within) auto
  ultimately obtain st' outcome reaped problems where
    run: "acquire e a st = (st', Inr (outcome, reaped, problems))" "gate_answer a outcome"
    using gate_request_answered [OF assms(1-3) _ assms(15)] by blast
  then show ?thesis using assms(16) by (cases outcome) auto
qed

definition small_studio :: pydict where
  "small_studio = [''vm_pool_cores'' \<mapsto> PInt 6, ''reserved_gate_cores'' \<mapsto> PInt 6,
     ''reserved_gate_mem_mb'' \<mapsto> PInt 26624, ''per_compile_job_mem_mb'' \<mapsto> PInt 1536]"

text \<open>The boot of a gate VM on its Tart volume.\<close>

definition studio_slot :: acquire_args where
  "studio_slot = (sample_request ''gate-81'' 3 ''gate'' None)
     \<lparr>aq_mem_mb := Some (vm_mem_mb 3 1536), aq_kind := ''tart-macos-vm'', aq_vm_name := ''studio-gate-02-81-2'',
      aq_disk_path := ''/tart'', aq_disk_growth_mb := 4096, aq_disk_floor_mb := 20480\<rparr>"

theorem fitting_lane_always_starts_witness:
  "\<exists>st' outcome reaped problems.
     acquire (sample_lease_env 3000000) studio_slot (fold store_step (take 1 sample_ops) new_store)
       = (st', Inr (outcome, reaped, problems))
     \<and> gate_answer studio_slot outcome"
proof -
  let ?st = "fold store_step (take 1 sample_ops) new_store"
  let ?lane = "dupdate [''id'' \<mapsto> PStr ''pulp-gate'', ''supervisors'' \<mapsto> PInt 2] [(''vm_cores_from'', PStr ''gate-reserve'')]"
  have safe: "safe_store sample_config ?st"
    by (rule lease_machine.every_prefix_safe [OF sample_start sample_ops_legal])
  have config: "capacity_config (le_profile (sample_lease_env 3000000)) (aq_common studio_slot) = Inr sample_config"
    by (simp add: sample_lease_env_def studio_slot_def sample_request_def sample_capacity_config)
  have request: "gate_request sample_config studio_slot ?st" by code_simp
  have fit: "fit [Some ?lane] small_studio = Inr
      [\<lparr>fr_lane = ''pulp-gate'', fr_axis = CoresAxis, fr_demand = 6, fr_reserve = 6, fr_over = 0\<rparr>,
       \<lparr>fr_lane = ''pulp-gate'', fr_axis = MemoryAxis, fr_demand = 16384, fr_reserve = 26624, fr_over = 0\<rparr>]"
    by code_simp
  have vals: "supervisors ?lane = Inr 2" "lane_vm_cores ?lane small_studio = Inr 3"
    "int_or small_studio ''per_compile_job_mem_mb'' PER_JOB_MEM_MB = Inr 1536"
    "int_item small_studio ''reserved_gate_cores'' = Inr (cf_reserved_gate_cores sample_config)"
    "int_or small_studio ''reserved_gate_mem_mb'' 0 = Inr (cf_reserved_gate_mem_mb sample_config)"
    "0 < cf_reserved_gate_cores sample_config" "0 < cf_reserved_gate_mem_mb sample_config"
    "cf_per_job_mem_mb sample_config \<le> cf_total_mem_mb sample_config" "aq_cores studio_slot = 3"
    "requested_mem sample_config studio_slot = vm_mem_mb 3 1536" by code_simp+
  have held: "sum_over (gate_charge sample_config) (records_of ?st) = int 0 * 3"
    "sum_over (gate_mem_charge sample_config) (records_of ?st) = int 0 * vm_mem_mb 3 1536" by code_simp+
  have lane: "?lane \<in> set (gate_lanes [Some ?lane])"
    by (simp add: gate_lanes_def List.map_filter_def is_gate_lane_def dupdate_def dget_def)
  have "finding_lines [\<lparr>fr_lane = ''pulp-gate'', fr_axis = CoresAxis, fr_demand = 6, fr_reserve = 6, fr_over = 0\<rparr>,
       \<lparr>fr_lane = ''pulp-gate'', fr_axis = MemoryAxis, fr_demand = 16384, fr_reserve = 26624, fr_over = 0\<rparr>] = []"
    by (simp add: finding_lines_def)
  from fitting_lane_always_starts [OF safe config request fit this lane vals(1,2) _ vals(3-10) held]
  show ?thesis by auto
qed

section \<open>A leased VM and the janitor\<close>

text \<open>A granted acquisition stores a lease that names the VM of the request.\<close>

lemma mark_borrower_vm_name [simp]: "dget (mark_borrower now ids r) ''vm_name'' = dget r ''vm_name''"
  by (simp add: mark_borrower_def)

lemma lease_record_vm_name:
  "dget (lease_record e a cfg lease_id n m priority pc fl used disk) ''vm_name'' = PStr (aq_vm_name a)"
proof -
  have "''vm_name'' \<notin> fst ` set (floor_fields cfg fl (aq_cores a) @ (if aq_memory_only a then [(''memory_only'', PBool True)] else [])
      @ class_fields cfg a fl used n @ disk_fields a disk)"
    by (auto simp: floor_fields_def class_fields_def disk_fields_def split: option.splits if_splits)
  from dget_dupdate_other [OF this, of "dupdate Map.empty (base_fields e a lease_id n m priority pc)"]
  show ?thesis by (simp add: lease_record_def base_fields_def Let_def del: dupdate_append dupdate_simps flip: dupdate_append)
      (simp add: dupdate_def)
qed

lemma granted_lease_stored:
  assumes "acquire e a st = (st', Inr (Granted g, reaped, problems))" and "aq_vm_name a \<noteq> []"
  shows "\<exists>rs. load_records st' = Inr rs \<and> gr_lease g \<in> set rs \<and> record_vm_name (gr_lease g) = aq_vm_name a"
  using assms(1)
proof (cases rule: acquire_Inr)
  case (locked cfg priority pc lease_id st0 active rd pr extra)
  from locked(5) obtain disk fl n m st1 where "commit_grant e a cfg priority active
      (lease_record e a cfg lease_id n m priority pc fl (us_non_gate_used_cores (usage active cfg)) disk)
      n fl (disk_state_of a active disk) st1 = (st', g)" (is "commit_grant _ _ _ _ _ ?r _ _ _ _ = _")
    by (rule acquire_locked_Granted)
  then have "\<exists>rs. load_records st' = Inr rs \<and> gr_lease g \<in> set rs" "dget (gr_lease g) ''vm_name'' = PStr (aq_vm_name a)"
    by (auto simp: commit_grant_def reconcile_borrowers_def Let_def lease_record_vm_name)
  then show ?thesis using assms(2) by (simp add: record_vm_name_def text_field_def py_or_def)
qed auto

lemma scope_orphans:
  assumes "reap_scope_of a e = Inr c"
  shows "\<exists>loaded. ov_lane_runners (rc_orphans c) = loaded \<and> ov_host_id (rc_orphans c) = host_word loaded
    \<and> ov_leases (rc_orphans c) = (if loaded = [] then Some [] else lease_references (re_leases e))"
  using assms by (auto simp: reap_scope_of_def rbind_eq_Inr Let_def case_prod_beta)

text \<open>C3: a VM with a lease survives the janitor. After a granted acquisition that names a VM, a pass of
  the janitor that reads the store it left does not delete that VM, whatever lanes are loaded, however
  old the VM's bundle is and whether its supervisor still runs, unless the VM's own state file marks it
  as residue of a dead or finished boot.\<close>

theorem granted_vm_survives_janitor:
  assumes "acquire le aq st = (st', Inr (Granted g, reaped, problems))" and "aq_vm_name aq \<noteq> []"
    and "re_leases e = st_leases st'" and "build_digest a e tracker = Inr d" and "reap_scope_of a e = Inr c"
    and "\<And>running. \<not> marked_residue a c (aq_vm_name aq) running"
  shows "TartDelete (aq_vm_name aq) \<notin> set (rp_effects (dg_pass d))"
proof
  assume "TartDelete (aq_vm_name aq) \<in> set (rp_effects (dg_pass d))"
  from deleted_vm_residue [OF assms(4,5) this] assms(6)
  obtain running where orphan: "fst (orphan_verdict (rc_orphans c) (aq_vm_name aq) running (states_by ''vm'' (rc_states c)) (re_now e))"
    by blast
  have "\<exists>rs r. load_records st' = Inr rs \<and> r \<in> set rs \<and> record_vm_name r = aq_vm_name aq"
    using granted_lease_stored [OF assms(1,2)] by blast
  with leased_not_orphan [where v = "rc_orphans c" and st = st'] orphan
  have "ov_leases (rc_orphans c) \<noteq> lease_references (st_leases st')" by blast
  then have "ov_lane_runners (rc_orphans c) = [] \<and> ov_host_id (rc_orphans c) = None"
    using scope_orphans [OF assms(5)] by (auto simp: assms(3) host_word_def split: if_splits)
  with orphan show False by (auto simp: orphan_verdict_def retired_lane_runner_def split: option.splits if_splits)
qed

text \<open>A studio host with a stopped VM, an old bundle and no state file.\<close>

definition studio_reap :: "rows_file \<Rightarrow> reap_env" where
  "studio_reap leases = (pool_env 90000 (FetchRows []))\<lparr>re_hostname := ''studio.local'', re_paths := studio_paths,
     re_listing := Some studio_listing, re_plists := studio_plists, re_state_files := (\<lambda>_. []), re_leases := leases,
     re_vm_mtime := [''studio-gate-02-81-2'' \<mapsto> 0],
     re_tart := TartVms [[''Name'' \<mapsto> PStr ''studio-gate-02-81-2'', ''State'' \<mapsto> PStr ''stopped'']]\<rparr>"

definition studio_boot :: acquire_args where
  "studio_boot = (sample_request ''boot-81'' 2 ''gate'' None)\<lparr>aq_vm_name := ''studio-gate-02-81-2''\<rparr>"

lemma studio_granted:
  "case acquire (sample_lease_env 1000000) studio_boot new_store of
     (st', Inr (outcome, reaped, problems)) \<Rightarrow> acquire_rc outcome = 0
   | (st', Inl err) \<Rightarrow> False"
  by code_simp

definition studio_leases :: rows_file where
  "studio_leases = st_leases (fst (acquire (sample_lease_env 1000000) studio_boot new_store))"

lemma studio_scope:
  "map_sum id (\<lambda>c. (length (rc_states c), ov_lane_runners (rc_orphans c))) (reap_scope_of pool_args (studio_reap studio_leases))
     = Inr (0, [''studio-gate-02''])"
  by code_simp

theorem granted_vm_survives_janitor_witness:
  "\<exists>d c. build_digest pool_args (studio_reap studio_leases) TrackerUnreadable = Inr d
     \<and> reap_scope_of pool_args (studio_reap studio_leases) = Inr c \<and> ov_lane_runners (rc_orphans c) = [''studio-gate-02'']
     \<and> TartDelete ''studio-gate-02-81-2'' \<notin> set (rp_effects (dg_pass d))"
proof -
  obtain st' g reaped problems where run:
    "acquire (sample_lease_env 1000000) studio_boot new_store = (st', Inr (Granted g, reaped, problems))"
    using studio_granted acquire_rc_0 by (fastforce split: prod.splits sum.splits)
  have vm: "aq_vm_name studio_boot = ''studio-gate-02-81-2''" by (simp add: studio_boot_def)
  have leases: "re_leases (studio_reap studio_leases) = st_leases st'"
    by (simp add: studio_reap_def studio_leases_def run)
  obtain c where c: "reap_scope_of pool_args (studio_reap studio_leases) = Inr c"
    "(length (rc_states c), ov_lane_runners (rc_orphans c)) = (0, [''studio-gate-02''])"
    using map_sum_Inr [OF studio_scope] by blast
  obtain d where d: "build_digest pool_args (studio_reap studio_leases) TrackerUnreadable = Inr d"
    using digest_total [OF c(1)] by blast
  have "\<not> marked_residue pool_args c (aq_vm_name studio_boot) running" for running
    using c(2) by (simp add: marked_residue_def states_by_def)
  from granted_vm_survives_janitor [OF run _ leases d c(1) this] c d vm show ?thesis by simp
qed

end
